(* ===== verification/Prelude.thy ===== *)
theory Prelude
  imports Complex_Main "HOL-Library.Char_ord" "HOL-Library.List_Lexorder" "HOL-Library.Word"
begin

section \<open>Shared vocabulary: Go strings, integers, results, repeated steps\<close>

text \<open>
  What the components share.  A Go string is its list of bytes (\<open>string\<close>, a char list).
  The functions of Go's \<open>strings\<close> and \<open>strconv\<close> packages that the program calls are
  defined here on bytes.  Where Go consults Unicode tables (\<open>ToLower\<close>, \<open>TrimSpace\<close>,
  \<open>Fields\<close>) the model covers ASCII and leaves bytes of 128 and above as they are.

  Unix seconds, identifiers and counters are \<open>int\<close>; a quantity whose wrap-around
  decides an outcome is a 64-bit word (\<open>int64\<close>), read with \<open>sint\<close>.
\<close>

named_theorems byte_defs "character classes and byte-level definitions, to evaluate closed terms"

named_theorems inv_intros "preservation facts of the components' invariants"

type_synonym unix = int
type_synonym int64 = "64 word"

subsection \<open>Results\<close>

text \<open>A Go pair \<open>(value, error)\<close> of which one half counts: \<open>Inl\<close> is the error.\<close>

abbreviation is_err :: "'e + 'a \<Rightarrow> bool" where
  "is_err r \<equiv> (case r of Inl _ \<Rightarrow> True | Inr _ \<Rightarrow> False)"

text \<open>A chain of guards, each returning an error: what a passed chain, or one error, says.\<close>

lemma guard_None [simp]: "(if b then Some e else r) = None \<longleftrightarrow> \<not> b \<and> r = None"
  by simp

lemma guard_Some: "(if b then Some e else r) = Some x \<longleftrightarrow> (if b then e = x else r = Some x)"
  by simp

subsection \<open>Bytes and character classes\<close>

definition byte :: "char \<Rightarrow> nat" where
  "byte c = of_char c"

definition is_space :: "char \<Rightarrow> bool" where
  "is_space c \<longleftrightarrow> byte c \<in> {9, 10, 11, 12, 13, 32}"

definition is_digit :: "char \<Rightarrow> bool" where
  "is_digit c \<longleftrightarrow> 48 \<le> byte c \<and> byte c \<le> 57"

definition is_upper :: "char \<Rightarrow> bool" where
  "is_upper c \<longleftrightarrow> 65 \<le> byte c \<and> byte c \<le> 90"

definition is_lower :: "char \<Rightarrow> bool" where
  "is_lower c \<longleftrightarrow> 97 \<le> byte c \<and> byte c \<le> 122"

lemmas [byte_defs] = byte_def is_space_def is_digit_def is_upper_def is_lower_def

text \<open>\<open>unicode.ToLower\<close> on an ASCII byte: set bit 5 of an upper-case letter.\<close>

definition lower_char :: "char \<Rightarrow> char" where
  "lower_char c = (if is_upper c then char_of (byte c + 32) else c)"

lemma byte_less_256 [simp]: "byte c < 256"
  by (simp add: byte_def)

lemma byte_char_of: "n < 256 \<Longrightarrow> byte (char_of n) = n"
  by (simp add: byte_def)

lemma byte_eq_iff: "byte c = byte d \<longleftrightarrow> c = d"
  by (simp add: byte_def)

lemma byte_lower_char: "byte (lower_char c) = (if is_upper c then byte c + 32 else byte c)"
  by (auto simp: lower_char_def is_upper_def byte_char_of)

lemma lower_char_not_upper [simp]: "\<not> is_upper (lower_char c)"
  by (auto simp: is_upper_def byte_lower_char)

lemma lower_char_idem [simp]: "lower_char (lower_char c) = lower_char c"
  by (subst lower_char_def) simp

lemma is_space_lower_char [simp]: "is_space (lower_char c) = is_space c"
  by (auto simp: is_space_def byte_lower_char is_upper_def)

definition to_lower :: "string \<Rightarrow> string" where
  "to_lower s = map lower_char s"

lemma to_lower_idem [simp]: "to_lower (to_lower s) = to_lower s"
  by (simp add: to_lower_def comp_def)

subsection \<open>Trimming\<close>

text \<open>\<open>trim_by p s\<close> drops the bytes satisfying \<open>p\<close> from both ends.\<close>

definition trim_by :: "(char \<Rightarrow> bool) \<Rightarrow> string \<Rightarrow> string" where
  "trim_by p s = rev (dropWhile p (rev (dropWhile p s)))"

definition trim_space :: "string \<Rightarrow> string" where
  "trim_space s = trim_by is_space s"

lemma dropWhile_fixed: "xs = [] \<or> \<not> p (hd xs) \<Longrightarrow> dropWhile p xs = xs"
  by (cases xs) auto

lemma hd_dropWhile': "dropWhile p xs \<noteq> [] \<Longrightarrow> \<not> p (hd (dropWhile p xs))"
  by (rule hd_dropWhile)

lemma trim_by_no_left: "trim_by p s \<noteq> [] \<Longrightarrow> \<not> p (hd (trim_by p s))"
proof -
  assume ne: "trim_by p s \<noteq> []"
  obtain k where k: "rev (dropWhile p s) = k @ dropWhile p (rev (dropWhile p s))"
    by (metis takeWhile_dropWhile_id)
  then have "dropWhile p s = trim_by p s @ rev k"
    by (metis rev_append rev_rev_ident trim_by_def)
  with ne show ?thesis
    by (metis hd_append2 hd_dropWhile' append_is_Nil_conv)
qed

lemma trim_by_no_right: "trim_by p s \<noteq> [] \<Longrightarrow> \<not> p (last (trim_by p s))"
  by (metis hd_dropWhile' last_rev rev_is_Nil_conv trim_by_def)

lemma trim_by_fixed: "s = [] \<or> (\<not> p (hd s) \<and> \<not> p (last s)) \<Longrightarrow> trim_by p s = s"
  by (metis dropWhile_fixed hd_rev rev_is_Nil_conv rev_rev_ident trim_by_def)

lemma trim_by_idem [simp]: "trim_by p (trim_by p s) = trim_by p s"
  using trim_by_fixed trim_by_no_left trim_by_no_right by metis

lemma set_trim_by: "set (trim_by p s) \<subseteq> set s"
  by (metis dual_order.trans set_dropWhileD set_rev subsetI trim_by_def)

lemma trim_by_map:
  assumes "\<And>c. p (f c) = p c"
  shows "trim_by p (map f s) = map f (trim_by p s)"
proof -
  have "p \<circ> f = p" using assms by auto
  then show ?thesis by (simp add: trim_by_def dropWhile_map rev_map)
qed

lemma trim_space_to_lower: "trim_space (to_lower s) = to_lower (trim_space s)"
  by (simp add: trim_space_def to_lower_def trim_by_map)

lemma trim_space_idem [simp]: "trim_space (trim_space s) = trim_space s"
  by (simp add: trim_space_def)

subsection \<open>Substrings\<close>

definition has_prefix :: "string \<Rightarrow> string \<Rightarrow> bool" where
  "has_prefix p s \<longleftrightarrow> take (length p) s = p"

fun contains :: "string \<Rightarrow> string \<Rightarrow> bool" where
  "contains p [] = (p = [])"
| "contains p (c # cs) = (has_prefix p (c # cs) \<or> contains p cs)"

lemma has_prefix_iff: "has_prefix p s \<longleftrightarrow> (\<exists>v. s = p @ v)"
  by (metis append_eq_conv_conj has_prefix_def)

lemma contains_iff: "contains p s \<longleftrightarrow> (\<exists>u v. s = u @ p @ v)"
proof (induction s)
  case Nil
  then show ?case by auto
next
  case (Cons c cs)
  have "(\<exists>u v. c # cs = u @ p @ v) \<longleftrightarrow> (\<exists>v. c # cs = p @ v) \<or> (\<exists>u v. cs = u @ p @ v)"
    by (metis append_Cons append_Nil list.exhaust list.sel(3))
  with Cons show ?case by (simp add: has_prefix_iff)
qed

lemma contains_Nil [simp]: "contains [] s"
  by (cases s) (auto simp: has_prefix_def)

text \<open>\<open>strings.Join\<close>, and \<open>strings.Split\<close> at one byte.\<close>

fun join :: "string \<Rightarrow> string list \<Rightarrow> string" where
  "join sep [] = []"
| "join sep [x] = x"
| "join sep (x # y # xs) = x @ sep @ join sep (y # xs)"

fun split_on :: "char \<Rightarrow> string \<Rightarrow> string list" where
  "split_on d [] = [[]]"
| "split_on d (c # cs) =
     (if c = d then [] # split_on d cs
      else (case split_on d cs of [] \<Rightarrow> [[c]] | w # ws \<Rightarrow> (c # w) # ws))"

lemma split_on_nonempty [simp]: "split_on d s \<noteq> []"
  by (induction s) (auto split: list.splits)

lemma split_on_no_sep: "w \<in> set (split_on d s) \<Longrightarrow> d \<notin> set w"
  by (induction s arbitrary: w) (auto split: if_splits list.splits)

lemma split_on_append: "split_on d (a @ d # b) = split_on d a @ split_on d b"
  by (induction a) (auto split: list.splits)

lemma split_on_none: "d \<notin> set s \<Longrightarrow> split_on d s = [s]"
  by (induction s) auto

lemma join_split_on: "join [d] (split_on d s) = s"
proof (induction s)
  case Nil
  then show ?case by simp
next
  case (Cons c cs)
  obtain w ws where w: "split_on d cs = w # ws" by (meson list.exhaust split_on_nonempty)
  with Cons show ?case by (cases ws) auto
qed

lemma join_eq_Nil: "[] \<notin> set xs \<Longrightarrow> join sep xs = [] \<longleftrightarrow> xs = []"
  by (cases xs rule: remdups_adj.cases) auto

text \<open>\<open>strings.Fields\<close>: the maximal runs of non-space bytes.\<close>

function fields :: "string \<Rightarrow> string list" where
  "fields s =
     (case dropWhile is_space s of
        [] \<Rightarrow> []
      | c # cs \<Rightarrow> takeWhile (\<lambda>x. \<not> is_space x) (c # cs) # fields (dropWhile (\<lambda>x. \<not> is_space x) (c # cs)))"
  by pat_completeness auto
termination
proof (relation "measure length", simp)
  fix s :: string and c cs
  assume d: "dropWhile is_space s = c # cs"
  then have "\<not> is_space c" by (metis hd_dropWhile' list.distinct(1) list.sel(1))
  then have "length (dropWhile (\<lambda>x. \<not> is_space x) (c # cs)) \<le> length cs"
    by (simp add: length_dropWhile_le)
  also have "\<dots> < length s"
    using length_dropWhile_le [of is_space s] d by simp
  finally show "(dropWhile (\<lambda>x. \<not> is_space x) (c # cs), s) \<in> measure length" by simp
qed

declare fields.simps [simp del]

lemma fields_no_space: "w \<in> set (fields s) \<Longrightarrow> \<forall>c\<in>set w. \<not> is_space c"
proof (induction s arbitrary: w rule: fields.induct)
  case (1 s)
  show ?case
  proof (cases "dropWhile is_space s")
    case Nil
    with "1.prems" show ?thesis by (simp add: fields.simps [of s])
  next
    case (Cons c cs)
    let ?p = "\<lambda>x. \<not> is_space x"
    from "1.prems" Cons
    have "w = takeWhile ?p (c # cs) \<or> w \<in> set (fields (dropWhile ?p (c # cs)))"
      by (simp add: fields.simps [of s])
    then show ?thesis
    proof
      assume "w = takeWhile ?p (c # cs)"
      then show ?thesis using set_takeWhileD by fastforce
    next
      assume "w \<in> set (fields (dropWhile ?p (c # cs)))"
      with "1.IH" Cons show ?thesis by blast
    qed
  qed
qed

lemma set_join: "set (join sep xs) \<subseteq> set sep \<union> \<Union> (set ` set xs)"
  by (induction sep xs rule: join.induct) auto

subsection \<open>Decimal numbers\<close>

definition digit :: "nat \<Rightarrow> char" where
  "digit d = ''0123456789'' ! d"

fun show_nat :: "nat \<Rightarrow> string" where
  "show_nat n = (if n < 10 then [digit n] else show_nat (n div 10) @ [digit (n mod 10)])"

declare show_nat.simps [simp del]

lemma show_nat_small [simp]: "n < 10 \<Longrightarrow> show_nat n = [digit n]"
  by (simp add: show_nat.simps)

lemma show_nat_large [simp]: "10 \<le> n \<Longrightarrow> show_nat n = show_nat (n div 10) @ [digit (n mod 10)]"
  by (simp add: show_nat.simps [of n])

text \<open>\<open>strconv.Itoa\<close> and \<open>%d\<close>.\<close>

definition show_int :: "int \<Rightarrow> string" where
  "show_int i = (if i < 0 then ''-'' @ show_nat (nat (- i)) else show_nat (nat i))"

text \<open>Evaluated in binary arithmetic.\<close>

lemma show_int_code [code]:
  "show_int i = (if i < 0 then CHR ''-'' # show_int (- i) else if i < 10 then [digit (nat i)]
     else show_int (i div 10) @ [digit (nat (i mod 10))])"
  by (auto simp: show_int_def nat_div_distrib nat_mod_distrib pos_imp_zdiv_neg_iff)

lemma byte_digit: "d < 10 \<Longrightarrow> byte (digit d) = 48 + d"
proof -
  assume "d < 10"
  then have "d \<in> {0, 1, 2, 3, 4, 5, 6, 7, 8, 9}" by auto
  then show ?thesis by (auto simp: digit_def byte_def)
qed

lemma is_digit_digit: "d < 10 \<Longrightarrow> is_digit (digit d)"
  by (simp add: is_digit_def byte_digit)

lemma digit_inj: "a < 10 \<Longrightarrow> b < 10 \<Longrightarrow> digit a = digit b \<Longrightarrow> a = b"
  by (metis add_left_cancel byte_digit)

lemma show_nat_digits: "c \<in> set (show_nat n) \<Longrightarrow> is_digit c"
proof (induction n rule: show_nat.induct)
  case (1 n)
  then show ?case by (cases "n < 10") (auto simp: is_digit_digit)
qed

lemma show_nat_nonempty [simp]: "show_nat n \<noteq> []"
  by (cases "n < 10") auto

lemma show_nat_inj: "show_nat a = show_nat b \<Longrightarrow> a = b"
proof (induction a arbitrary: b rule: show_nat.induct)
  case (1 a)
  consider "a < 10" "b < 10" | "10 \<le> a" "10 \<le> b" | "a < 10" "10 \<le> b" | "10 \<le> a" "b < 10"
    by linarith
  then show ?case
  proof cases
    case 1
    with "1.prems" show ?thesis by (auto intro: digit_inj)
  next
    case 2
    with "1.prems" have h: "show_nat (a div 10) = show_nat (b div 10)"
      and d: "digit (a mod 10) = digit (b mod 10)" by auto
    from h 2 "1.IH" have "a div 10 = b div 10" by simp
    moreover from d have "a mod 10 = b mod 10" by (rule digit_inj [rotated 2]) auto
    ultimately show ?thesis by (metis div_mult_mod_eq)
  next
    case 3
    with "1.prems" show ?thesis by (metis append_self_conv2 butlast_snoc show_nat_large
        show_nat_nonempty show_nat_small)
  next
    case 4
    with "1.prems" show ?thesis by (metis append_self_conv2 butlast_snoc show_nat_large
        show_nat_nonempty show_nat_small)
  qed
qed

lemma show_int_chars: "c \<in> set (show_int i) \<Longrightarrow> is_digit c \<or> c = CHR ''-''"
  by (auto simp: show_int_def dest: show_nat_digits split: if_splits)

lemma show_int_nonempty [simp]: "show_int i \<noteq> []"
  by (simp add: show_int_def)

lemma show_nat_not_minus: "show_nat n \<noteq> CHR ''-'' # xs"
proof
  assume "show_nat n = CHR ''-'' # xs"
  then have "is_digit CHR ''-''" using show_nat_digits [of "CHR ''-''" n] by simp
  then show False by (simp add: is_digit_def byte_def)
qed

lemma show_int_inj: "show_int a = show_int b \<longleftrightarrow> a = b"
proof
  assume h: "show_int a = show_int b"
  consider "a < 0" "b < 0" | "0 \<le> a" "0 \<le> b" | "a < 0" "0 \<le> b" | "0 \<le> a" "b < 0" by linarith
  then show "a = b"
  proof cases
    case 1
    with h have "nat (- a) = nat (- b)" by (auto simp: show_int_def intro: show_nat_inj)
    with 1 show ?thesis by simp
  next
    case 2
    with h have "nat a = nat b" by (auto simp: show_int_def intro: show_nat_inj)
    with 2 show ?thesis by simp
  next
    case 3
    with h show ?thesis using show_nat_not_minus by (metis append_Cons not_less show_int_def)
  next
    case 4
    with h show ?thesis using show_nat_not_minus by (metis append_Cons not_less show_int_def)
  qed
qed simp

lemma colon_not_in_show_int [simp]: "CHR '':'' \<notin> set (show_int i)"
proof
  assume "CHR '':'' \<in> set (show_int i)"
  then show False by (auto dest!: show_int_chars simp: is_digit_def byte_def)
qed

text \<open>Text up to a separator that occurs in neither prefix is determined by the whole.\<close>

lemma append_sep_inj:
  assumes "a @ d # b = a' @ d # b'" and "d \<notin> set a" and "d \<notin> set a'"
  shows "a = a' \<and> b = b'"
proof -
  from assms(1) have "takeWhile (\<lambda>c. c \<noteq> d) (a @ d # b) = takeWhile (\<lambda>c. c \<noteq> d) (a' @ d # b')"
    by simp
  moreover have "takeWhile (\<lambda>c. c \<noteq> d) (x @ d # y) = x" if "d \<notin> set x" for x y
    using that by (induction x) auto
  ultimately have "a = a'" using assms(2,3) by metis
  with assms(1) show ?thesis by simp
qed

subsection \<open>Go integer arithmetic\<close>

text \<open>Go's \<open>/\<close> and a conversion of a float to an integer truncate towards zero.\<close>

definition quot_trunc :: "int \<Rightarrow> int \<Rightarrow> int" where
  "quot_trunc a b = sgn a * sgn b * (\<bar>a\<bar> div \<bar>b\<bar>)"

lemma quot_trunc_nonneg: "0 \<le> a \<Longrightarrow> 0 < b \<Longrightarrow> quot_trunc a b = a div b"
  by (cases "a = 0") (auto simp: quot_trunc_def)

text \<open>A signed 64-bit value outside its range saturates in \<open>time.Time.Sub\<close>.\<close>

definition sat64 :: "int \<Rightarrow> int" where
  "sat64 x = max (- (2 ^ 63)) (min (2 ^ 63 - 1) x)"

lemma sat64_id: "- (2 ^ 63) \<le> x \<Longrightarrow> x < 2 ^ 63 \<Longrightarrow> sat64 x = x"
  by (simp add: sat64_def)

text \<open>\<open>int(time.Until(expiry).Hours() / 24)\<close>: whole days, towards zero.\<close>

definition days_left :: "int \<Rightarrow> unix \<Rightarrow> int" where
  "days_left now_ns expiry = quot_trunc (sat64 (expiry * 1000000000 - now_ns)) (86400 * 1000000000)"

subsection \<open>Repeated steps\<close>

text \<open>
  A component that handles a sequence of events is a step function; \<open>foldl step\<close> runs it.
  An invariant that every step keeps holds after every run, and so does a relation between
  the state and the history that every step maintains.
\<close>

locale stepping =
  fixes step :: "'s \<Rightarrow> 'e \<Rightarrow> 's"
    and inv :: "'s \<Rightarrow> bool"
  assumes step_inv: "inv s \<Longrightarrow> inv (step s e)"
begin

lemma run_inv: "inv s \<Longrightarrow> inv (foldl step s es)"
  by (induction es arbitrary: s) (auto intro: step_inv)

lemma run_append_inv: "inv s \<Longrightarrow> inv (foldl step (foldl step s es) es')"
  by (intro run_inv)

end

end
