(* ===== verification/Table.thy ===== *)
theory Table
  imports Prelude
begin

section \<open>SQLite tables as lists of rows\<close>

text \<open>
  The databases are SQLite files.  A table is the list of its rows in the order they were
  inserted; the SQL statements of the source become the list operations of this theory.  A
  column declared \<open>INTEGER PRIMARY KEY\<close> (without AUTOINCREMENT) is filled with one more than
  the largest value in use, or 1 in an empty table.  The locales state what a table with a
  unique column promises its clients: the registry's site and session tables and the dedupe
  ledger of the alerts are instances.
\<close>

subsection \<open>Statements\<close>

definition tbl_find :: "('r \<Rightarrow> 'k) \<Rightarrow> 'k \<Rightarrow> 'r list \<Rightarrow> 'r option" where
  "tbl_find key k rows = List.find (\<lambda>r. key r = k) rows"

definition tbl_set :: "('r \<Rightarrow> 'k) \<Rightarrow> 'k \<Rightarrow> ('r \<Rightarrow> 'r) \<Rightarrow> 'r list \<Rightarrow> 'r list" where
  "tbl_set key k f rows = map (\<lambda>r. if key r = k then f r else r) rows"

definition tbl_del :: "('r \<Rightarrow> 'k) \<Rightarrow> 'k \<Rightarrow> 'r list \<Rightarrow> 'r list" where
  "tbl_del key k rows = filter (\<lambda>r. key r \<noteq> k) rows"

definition tbl_has :: "('r \<Rightarrow> 'k) \<Rightarrow> 'k \<Rightarrow> 'r list \<Rightarrow> bool" where
  "tbl_has key k rows \<longleftrightarrow> list_ex (\<lambda>r. key r = k) rows"

definition next_rowid :: "int list \<Rightarrow> int" where
  "next_rowid ids = foldr max ids 0 + 1"

definition unique_by :: "('r \<Rightarrow> 'k) \<Rightarrow> 'r list \<Rightarrow> bool" where
  "unique_by key rows \<longleftrightarrow> distinct (map key rows)"

subsection \<open>Laws\<close>

lemma tbl_has_iff: "tbl_has key k rows \<longleftrightarrow> k \<in> key ` set rows"
  by (auto simp: tbl_has_def list_ex_iff)

lemma tbl_find_Some_key: "tbl_find key k rows = Some r \<Longrightarrow> key r = k \<and> r \<in> set rows"
  by (auto simp: tbl_find_def find_Some_iff)

lemma tbl_find_None_iff: "tbl_find key k rows = None \<longleftrightarrow> k \<notin> key ` set rows"
  by (auto simp: tbl_find_def find_None_iff)

lemma tbl_find_has: "tbl_find key k rows \<noteq> None \<longleftrightarrow> tbl_has key k rows"
  by (simp add: tbl_find_None_iff tbl_has_iff)

lemma tbl_has_find: "tbl_has key k rows \<longleftrightarrow> (\<exists>r. tbl_find key k rows = Some r)"
  using tbl_find_has by fastforce

lemma tbl_find_append:
  "tbl_find key k (xs @ ys) = (case tbl_find key k xs of None \<Rightarrow> tbl_find key k ys | Some r \<Rightarrow> Some r)"
  by (induction xs) (auto simp: tbl_find_def)

lemma tbl_find_snoc:
  "\<not> tbl_has key (key r) rows \<Longrightarrow>
   tbl_find key k (rows @ [r]) = (if k = key r then Some r else tbl_find key k rows)"
  by (induction rows) (auto simp: tbl_find_def tbl_has_def)

lemma tbl_find_del: "tbl_find key k (tbl_del key k' rows) = (if k = k' then None else tbl_find key k rows)"
  by (induction rows) (auto simp: tbl_find_def tbl_del_def)

lemma tbl_find_set:
  assumes "\<And>r. key (f r) = key r"
  shows "tbl_find key k (tbl_set key k' f rows) =
    (if k = k' then map_option f (tbl_find key k rows) else tbl_find key k rows)"
  by (induction rows) (auto simp: tbl_find_def tbl_set_def assms)

lemma map_key_tbl_set: "(\<And>r. key (f r) = key r) \<Longrightarrow> map key (tbl_set key k f rows) = map key rows"
  by (auto simp: tbl_set_def)

lemma length_tbl_set [simp]: "length (tbl_set key k f rows) = length rows"
  by (simp add: tbl_set_def)

lemma tbl_set_absent: "k \<notin> key ` set rows \<Longrightarrow> tbl_set key k f rows = rows"
  by (auto simp: tbl_set_def intro!: map_idI)

lemma tbl_set_append: "tbl_set key k f (xs @ ys) = tbl_set key k f xs @ tbl_set key k f ys"
  by (simp add: tbl_set_def)

lemma unique_by_snoc: "unique_by key (rows @ [r]) \<longleftrightarrow> unique_by key rows \<and> \<not> tbl_has key (key r) rows"
  by (auto simp: unique_by_def tbl_has_iff)

lemma unique_by_del [intro]: "unique_by key rows \<Longrightarrow> unique_by key (tbl_del key k rows)"
  by (simp add: unique_by_def tbl_del_def distinct_map_filter)

lemma unique_by_filter [intro]: "unique_by key rows \<Longrightarrow> unique_by key (filter p rows)"
  by (simp add: unique_by_def distinct_map_filter)

lemma unique_by_set [intro]:
  "(\<And>r. key (f r) = key r) \<Longrightarrow> unique_by key rows \<Longrightarrow> unique_by key (tbl_set key k f rows)"
  by (simp add: unique_by_def map_key_tbl_set)

lemma unique_by_Nil [simp]: "unique_by key []"
  by (simp add: unique_by_def)

lemma unique_by_eq:
  "unique_by key rows \<Longrightarrow> r \<in> set rows \<Longrightarrow> r' \<in> set rows \<Longrightarrow> key r = key r' \<Longrightarrow> r = r'"
  by (auto simp: unique_by_def distinct_map dest: inj_onD)

lemma tbl_find_mem: "unique_by key rows \<Longrightarrow> r \<in> set rows \<Longrightarrow> tbl_find key (key r) rows = Some r"
  by (induction rows) (auto simp: tbl_find_def unique_by_def image_iff)

lemma tbl_find_set_other:
  "(\<And>r. key (f r) = key r) \<Longrightarrow> tbl_find key k (tbl_set key' k' f rows) =
     map_option (\<lambda>r. if key' r = k' then f r else r) (tbl_find key k rows)"
  by (induction rows) (auto simp: tbl_find_def tbl_set_def)

lemma tbl_del_set: "(\<And>r. key (f r) = key r) \<Longrightarrow> tbl_del key k (tbl_set key k f rows) = tbl_del key k rows"
  by (induction rows) (auto simp: tbl_del_def tbl_set_def)

subsection \<open>The lockout escape hatch\<close>

lemma map_of_rev_keys:
  "unique_by key xs \<Longrightarrow> map_of (rev (map (\<lambda>x. (key x, x)) xs)) k = tbl_find key k xs"
proof (induction xs)
  case (Cons x xs)
  then have "unique_by key xs" "tbl_find key (key x) xs = None"
    by (auto simp: unique_by_def tbl_find_None_iff)
  with Cons.IH show ?case
    by (cases "key x = k") (auto simp: map_add_def tbl_find_def split: option.split)
qed (simp add: tbl_find_def)

lemma tbl_find_same:
  assumes "unique_by key xs" "unique_by key ys" "set xs = set ys"
  shows "tbl_find key k xs = tbl_find key k ys"
proof (cases "tbl_find key k xs")
  case None
  then show ?thesis using assms(3) by (metis tbl_find_None_iff)
next
  case (Some r)
  then show ?thesis using assms(3) tbl_find_mem [OF assms(2), of r] by (auto dest: tbl_find_Some_key)
qed

lemma unique_by_sort: "unique_by key (sort_key key rows) = unique_by key rows"
  by (simp add: unique_by_def distinct_map)

lemma foldr_max_ge: "i \<in> set ids \<Longrightarrow> i \<le> foldr max ids (0::int)"
  by (induction ids) auto

lemma foldr_max_nonneg: "0 \<le> foldr max ids (0::int)"
  by (induction ids) auto

lemma next_rowid_fresh: "i \<in> set ids \<Longrightarrow> i < next_rowid ids"
  unfolding next_rowid_def using foldr_max_ge [of i ids] by linarith

lemma next_rowid_pos [simp]: "0 < next_rowid ids"
  unfolding next_rowid_def using foldr_max_nonneg [of ids] by linarith

lemma next_rowid_not_in: "next_rowid ids \<notin> set ids"
  using next_rowid_fresh by fastforce

lemma next_rowid_upto:
  assumes "ids = map (\<lambda>i. int i + 1) [0..<n]"
  shows "next_rowid ids = int n + 1"
proof -
  have "foldr max (map (\<lambda>i. int i + 1) [0..<n]) 0 = int n"
  proof (induction n)
    case 0
    then show ?case by simp
  next
    case (Suc n)
    have shift: "foldr max xs (a::int) = max a (foldr max xs 0)" if "0 \<le> a" for xs a
      using that by (induction xs) auto
    have "foldr max (map (\<lambda>i. int i + 1) [0..<n]) (max (int n + 1) 0)
        = max (int n + 1) (foldr max (map (\<lambda>i. int i + 1) [0..<n]) 0)"
      using shift [of "int n + 1"] by (simp add: max_def)
    with Suc show ?case by (simp add: foldr_append)
  qed
  with assms show ?thesis by (simp add: next_rowid_def)
qed

subsection \<open>The interface of a table with a unique column\<close>

text \<open>
  \<open>look\<close> is a SELECT by the unique column, \<open>ins\<close> an INSERT (\<open>None\<close> when it violates the
  uniqueness constraint).  The rows a client reads back are the rows it inserted.
\<close>

locale unique_table =
  fixes look :: "'db \<Rightarrow> 'k \<Rightarrow> 'r option"
    and ins :: "'r \<Rightarrow> 'db \<Rightarrow> 'db option"
    and key :: "'r \<Rightarrow> 'k"
    and tinv :: "'db \<Rightarrow> bool"
  assumes ins_None_iff: "tinv db \<Longrightarrow> ins r db = None \<longleftrightarrow> look db (key r) \<noteq> None"
    and look_ins: "tinv db \<Longrightarrow> ins r db = Some db' \<Longrightarrow>
          look db' k = (if k = key r then Some r else look db k)"
    and tinv_ins: "tinv db \<Longrightarrow> ins r db = Some db' \<Longrightarrow> tinv db'"
begin

lemma ins_fresh: "tinv db \<Longrightarrow> look db (key r) = None \<Longrightarrow> \<exists>db'. ins r db = Some db'"
  using ins_None_iff [of db r] by auto

lemma ins_again: "tinv db \<Longrightarrow> ins r db = Some db' \<Longrightarrow> key r' = key r \<Longrightarrow> ins r' db' = None"
  using ins_None_iff look_ins tinv_ins by (metis option.discI)

lemma look_kept: "tinv db \<Longrightarrow> ins r db = Some db' \<Longrightarrow> look db k = Some x \<Longrightarrow> look db' k = Some x"
  by (metis ins_None_iff look_ins option.discI)

end

locale keyed_table = unique_table look ins key tinv
  for look :: "'db \<Rightarrow> 'k \<Rightarrow> 'r option" and ins :: "'r \<Rightarrow> 'db \<Rightarrow> 'db option"
    and key :: "'r \<Rightarrow> 'k" and tinv :: "'db \<Rightarrow> bool" +
  fixes del :: "'k \<Rightarrow> 'db \<Rightarrow> 'db"
  assumes look_del: "tinv db \<Longrightarrow> look (del k db) k' = (if k' = k then None else look db k')"
    and tinv_del: "tinv db \<Longrightarrow> tinv (del k db)"
begin

lemma del_then_ins: "tinv db \<Longrightarrow> \<exists>db'. ins r (del (key r) db) = Some db'"
  by (intro ins_fresh) (auto simp: look_del tinv_del)

lemma ins_then_del:
  "tinv db \<Longrightarrow> ins r db = Some db' \<Longrightarrow> look (del (key r) db') k = look db k"
  using ins_None_iff [of db r] by (auto simp: look_del look_ins tinv_ins)

end

text \<open>The list operations above are such a table.\<close>

definition tbl_insert :: "('r \<Rightarrow> 'k) \<Rightarrow> 'r \<Rightarrow> 'r list \<Rightarrow> 'r list option" where
  "tbl_insert key r rows = (if tbl_has key (key r) rows then None else Some (rows @ [r]))"

lemma rows_keyed_table: "keyed_table (\<lambda>rows k. tbl_find key k rows) (tbl_insert key) key (unique_by key) (tbl_del key)"
proof unfold_locales
  fix db r
  show "tbl_insert key r db = None \<longleftrightarrow> tbl_find key (key r) db \<noteq> None"
    by (simp add: tbl_insert_def tbl_has_find)
next
  fix db r db' k
  assume "tbl_insert key r db = Some db'"
  then show "tbl_find key k db' = (if k = key r then Some r else tbl_find key k db)"
    by (auto simp: tbl_insert_def tbl_find_snoc split: if_splits)
next
  fix db r db'
  assume "unique_by key db" "tbl_insert key r db = Some db'"
  then show "unique_by key db'"
    by (auto simp: tbl_insert_def unique_by_snoc split: if_splits)
next
  fix db k k'
  show "tbl_find key k' (tbl_del key k db) = (if k' = k then None else tbl_find key k' db)"
    by (rule tbl_find_del)
next
  fix db k
  assume "unique_by key db"
  then show "unique_by key (tbl_del key k db)" ..
qed

end
