(* ===== verification/SiteStore.thy ===== *)
theory SiteStore
  imports Table
begin

section \<open>The per-site database: recording ticks (internal/storage/tick.go, site.go)\<close>

text \<open>
  One SQLite file per site: check results, incidents, errors and the single \<open>site_state\<close>
  row.  \<open>record_tick\<close> is \<open>RecordTick\<close> with its transaction: every statement is a point where
  the database may fail (\<open>tick_stmt\<close>), and the deferred \<open>Rollback\<close> restores the state of
  before \<open>Begin\<close>.  The second half relates the database to the history of ticks it
  recorded: the incidents are the maximal runs of failing ticks (\<open>outages\<close>).
\<close>

subsection \<open>Data\<close>

record check_error =
  ce_CheckType :: string
  ce_Message :: string

record tick =
  tk_TS :: unix
  tk_Up :: bool
  tk_StatusCode :: int
  tk_ResponseMs :: int
  tk_FailedChecks :: "string list"
  tk_Error :: string
  tk_Errors :: "check_error list"
  tk_SSLChecked :: bool
  tk_SSLExpiresAt :: unix

definition add_fail :: "string \<Rightarrow> string \<Rightarrow> tick \<Rightarrow> tick" where
  "add_fail checkType message t =
     (let t1 = t\<lparr>tk_FailedChecks := tk_FailedChecks t @ [checkType],
                 tk_Errors := tk_Errors t @ [\<lparr>ce_CheckType = checkType, ce_Message = message\<rparr>]\<rparr>
      in if tk_Error t1 = [] then t1\<lparr>tk_Error := message\<rparr> else t1)"

record transition =
  tr_IncidentOpened :: bool
  tr_IncidentResolved :: bool
  tr_IncidentID :: int
  tr_ConsecutiveFailures :: int
  tr_Up :: bool
  tr_Error :: string
  tr_SSLExpiresAt :: unix
  tr_SSLChecked :: bool

definition empty_transition :: transition where
  "empty_transition = \<lparr>tr_IncidentOpened = False, tr_IncidentResolved = False, tr_IncidentID = 0,
     tr_ConsecutiveFailures = 0, tr_Up = False, tr_Error = [], tr_SSLExpiresAt = 0,
     tr_SSLChecked = False\<rparr>"

text \<open>Rows.  The 0/1 column \<open>up\<close> is a bool, a nullable column an option.\<close>

record result_row =
  rr_id :: int
  rr_ts :: unix
  rr_up :: bool
  rr_status_code :: int
  rr_response_ms :: int
  rr_failed_checks :: "string option"
  rr_error :: "string option"

record incident_row =
  in_id :: int
  in_started_at :: unix
  in_resolved_at :: "unix option"
  in_cause :: "string option"

record error_row =
  er_id :: int
  er_ts :: unix
  er_check_type :: string
  er_message :: string

record site_state =
  ss_monitoring_started_at :: unix
  ss_last_check_ts :: "unix option"
  ss_current_up :: "bool option"
  ss_current_incident_id :: "int option"
  ss_ssl_expires_at :: "unix option"
  ss_ssl_last_checked :: "unix option"
  ss_consecutive_failures :: int

record site_db =
  db_results :: "result_row list"
  db_incidents :: "incident_row list"
  db_errors :: "error_row list"
  db_state :: site_state

subsection \<open>Opening a store\<close>

text \<open>
  \<open>openSiteStore\<close> on a new file creates the tables and the state row, stamped with the
  time; on an existing file \<open>ON CONFLICT(id) DO NOTHING\<close> keeps the row.
\<close>

definition fresh_site_db :: "unix \<Rightarrow> site_db" where
  "fresh_site_db now = \<lparr>db_results = [], db_incidents = [], db_errors = [],
     db_state = \<lparr>ss_monitoring_started_at = now, ss_last_check_ts = None, ss_current_up = None,
       ss_current_incident_id = None, ss_ssl_expires_at = None, ss_ssl_last_checked = None,
       ss_consecutive_failures = 0\<rparr>\<rparr>"

definition open_site_store :: "unix \<Rightarrow> site_db option \<Rightarrow> site_db" where
  "open_site_store now file = (case file of None \<Rightarrow> fresh_site_db now | Some db \<Rightarrow> db)"

subsection \<open>RecordTick\<close>

definition null_string :: "string \<Rightarrow> string option" where
  "null_string s = (if s = [] then None else Some s)"

text \<open>The statements of the transaction, in order; each may fail.\<close>

datatype tick_stmt =
    Begin | Insert_result | Select_state | Insert_incident | Resolve_incident
  | Insert_error nat | Update_state | Commit

definition insert_result :: "tick \<Rightarrow> site_db \<Rightarrow> site_db" where
  "insert_result t db = db\<lparr>db_results := db_results db @
     [\<lparr>rr_id = next_rowid (map rr_id (db_results db)), rr_ts = tk_TS t, rr_up = tk_Up t,
       rr_status_code = tk_StatusCode t, rr_response_ms = tk_ResponseMs t,
       rr_failed_checks = null_string (join '','' (tk_FailedChecks t)),
       rr_error = null_string (tk_Error t)\<rparr>]\<rparr>"

definition insert_incident :: "tick \<Rightarrow> site_db \<Rightarrow> int \<times> site_db" where
  "insert_incident t db = (let i = next_rowid (map in_id (db_incidents db)) in
     (i, db\<lparr>db_incidents := db_incidents db @
        [\<lparr>in_id = i, in_started_at = tk_TS t, in_resolved_at = None,
          in_cause = null_string (tk_Error t)\<rparr>]\<rparr>))"

definition resolve_incident :: "unix \<Rightarrow> int \<Rightarrow> site_db \<Rightarrow> site_db" where
  "resolve_incident ts i db =
     db\<lparr>db_incidents := tbl_set in_id i (\<lambda>r. r\<lparr>in_resolved_at := Some ts\<rparr>) (db_incidents db)\<rparr>"

text \<open>The switch of lines 117 to 141: the incident column afterwards, or the failed statement.\<close>

definition incident_switch ::
  "(tick_stmt \<Rightarrow> bool) \<Rightarrow> tick \<Rightarrow> transition \<Rightarrow> site_db \<Rightarrow>
   transition \<times> (tick_stmt + int option \<times> site_db)" where
  "incident_switch flt t tr db =
     (let curUp = ss_current_up (db_state db); curIncID = ss_current_incident_id (db_state db) in
      if \<not> tk_Up t \<and> (curUp = None \<or> curUp = Some True) then
        if flt Insert_incident then (tr, Inl Insert_incident)
        else let (i, db1) = insert_incident t db in
          (tr\<lparr>tr_IncidentOpened := True, tr_IncidentID := i\<rparr>, Inr (Some i, db1))
      else if tk_Up t \<and> curUp = Some False then
        (case curIncID of
           None \<Rightarrow> (tr, Inr (None, db))
         | Some i \<Rightarrow>
             if flt Resolve_incident then (tr, Inl Resolve_incident)
             else (tr\<lparr>tr_IncidentResolved := True, tr_IncidentID := i\<rparr>,
                   Inr (None, resolve_incident (tk_TS t) i db)))
      else (tr, Inr (curIncID, db)))"

fun insert_errors ::
  "(tick_stmt \<Rightarrow> bool) \<Rightarrow> unix \<Rightarrow> nat \<Rightarrow> check_error list \<Rightarrow> site_db \<Rightarrow> tick_stmt + site_db" where
  "insert_errors flt ts k [] db = Inr db"
| "insert_errors flt ts k (ce # ces) db =
     (if flt (Insert_error k) then Inl (Insert_error k)
      else insert_errors flt ts (Suc k) ces (db\<lparr>db_errors := db_errors db @
        [\<lparr>er_id = next_rowid (map er_id (db_errors db)), er_ts = ts,
          er_check_type = ce_CheckType ce, er_message = ce_Message ce\<rparr>]\<rparr>))"

definition update_state :: "tick \<Rightarrow> int option \<Rightarrow> int \<Rightarrow> site_db \<Rightarrow> site_db" where
  "update_state t curIncID fails db =
     (let st = (db_state db)\<lparr>ss_last_check_ts := Some (tk_TS t), ss_current_up := Some (tk_Up t),
                 ss_current_incident_id := curIncID, ss_consecutive_failures := fails\<rparr>
      in if tk_SSLChecked t then
        db\<lparr>db_state := st\<lparr>ss_ssl_expires_at :=
              (if tk_SSLExpiresAt t > 0 then Some (tk_SSLExpiresAt t) else None),
            ss_ssl_last_checked := Some (tk_TS t)\<rparr>\<rparr>
      else db\<lparr>db_state := st\<rparr>)"

text \<open>
  \<open>record_tick\<close> begins the transaction, inserts the row and reads the state;
  \<open>finish_tick\<close> goes on after the switch, with the database to fall back to.  The result is
  the database afterwards and Go's pair \<open>(Transition, error)\<close>, the error being
  the statement that failed.
\<close>

definition finish_tick ::
  "(tick_stmt \<Rightarrow> bool) \<Rightarrow> tick \<Rightarrow> int \<Rightarrow> site_db \<Rightarrow>
   transition \<times> (tick_stmt + int option \<times> site_db) \<Rightarrow> site_db \<times> transition \<times> tick_stmt option" where
  "finish_tick flt t fails db r =
     (case r of
        (tr, Inl s) \<Rightarrow> (db, tr, Some s)
      | (tr, Inr (curIncID, db2)) \<Rightarrow>
          (case insert_errors flt (tk_TS t) 0 (tk_Errors t) db2 of
             Inl s \<Rightarrow> (db, tr, Some s)
           | Inr db3 \<Rightarrow>
               if flt Update_state then (db, tr, Some Update_state)
               else if flt Commit then (db, empty_transition, Some Commit)
               else (update_state t curIncID fails db3, tr, None)))"

definition record_tick ::
  "(tick_stmt \<Rightarrow> bool) \<Rightarrow> tick \<Rightarrow> site_db \<Rightarrow> site_db \<times> transition \<times> tick_stmt option" where
  "record_tick flt t db =
     (let tr = empty_transition\<lparr>tr_Up := tk_Up t, tr_Error := tk_Error t,
                 tr_SSLChecked := tk_SSLChecked t, tr_SSLExpiresAt := tk_SSLExpiresAt t\<rparr>
      in if flt Begin then (db, tr, Some Begin)
      else if flt Insert_result then (db, tr, Some Insert_result)
      else let db1 = insert_result t db
      in if flt Select_state then (db, tr, Some Select_state)
      else let fails = (if tk_Up t then 0 else ss_consecutive_failures (db_state db1) + 1)
      in finish_tick flt t fails db
           (incident_switch flt t (tr\<lparr>tr_ConsecutiveFailures := fails\<rparr>) db1))"

text \<open>A run of the store over ticks, each with the statements that fail while it is recorded.\<close>

definition tick_step :: "site_db \<Rightarrow> (tick_stmt \<Rightarrow> bool) \<times> tick \<Rightarrow> site_db" where
  "tick_step db e = (case e of (flt, t) \<Rightarrow> fst (record_tick flt t db))"

definition record_ticks :: "site_db \<Rightarrow> ((tick_stmt \<Rightarrow> bool) \<times> tick) list \<Rightarrow> site_db" where
  "record_ticks db es = foldl tick_step db es"

end
