(* ===== verification/Outages.thy ===== *)
theory Outages
  imports SiteStore
begin

section \<open>What the site database records: outages and the failing run\<close>

text \<open>
  The abstract specification of \<open>RecordTick\<close>.  From the list of ticks a site went through,
  \<open>outages\<close> reads off the maximal runs of failing ticks, \<open>failing_run\<close> the number of failing
  ticks at the end, and \<open>history_db\<close> the whole database these ticks should leave.  The
  refinement says that recording ticks in any order of successes and database failures
  leaves exactly the database of the ticks that were committed.
\<close>

subsection \<open>Failures of the database\<close>

lemma insert_errors_no_fault:
  "insert_errors flt ts k ces db = Inr db' \<Longrightarrow> insert_errors (\<lambda>_. False) ts k ces db = Inr db'"
  by (induction flt ts k ces db rule: insert_errors.induct) (auto split: if_splits)

lemma incident_switch_no_fault:
  "incident_switch flt t tr db = (tr', Inr x) \<Longrightarrow> incident_switch (\<lambda>_. False) t tr db = (tr', Inr x)"
  by (auto simp: incident_switch_def Let_def split: if_splits option.splits prod.splits)

lemma finish_tick_error_keeps_db:
  "finish_tick flt t fails db r = (db', tr, Some s) \<Longrightarrow> db' = db"
  by (auto simp: finish_tick_def split: prod.splits sum.splits if_splits)

lemma finish_tick_commit:
  "finish_tick flt t fails db (tr0, Inr x) = (db', tr, None) \<Longrightarrow>
   finish_tick (\<lambda>_. False) t fails db (tr0, Inr x) = (db', tr, None)"
  by (cases x; cases "insert_errors flt (tk_TS t) 0 (tk_Errors t) (snd x)")
    (auto simp: finish_tick_def insert_errors_no_fault split: if_splits)

lemma finish_tick_commit_Inr:
  "finish_tick flt t fails db r = (db', tr, None) \<Longrightarrow> \<exists>tr0 x. r = (tr0, Inr x)"
  by (cases r; cases "snd r") (auto simp: finish_tick_def)

lemma record_tick_error_keeps_db:
  "record_tick flt t db = (db', tr, Some s) \<Longrightarrow> db' = db"
  by (auto simp: record_tick_def Let_def dest: finish_tick_error_keeps_db split: if_splits)

lemma insert_errors_failed: "insert_errors flt ts k ces d = Inl s \<Longrightarrow> flt s"
  by (induction flt ts k ces d rule: insert_errors.induct) (auto split: if_splits)

lemma incident_switch_failed: "incident_switch flt t tr d = (tr', Inl s) \<Longrightarrow> flt s"
  by (auto simp: incident_switch_def Let_def split: if_splits option.splits prod.splits)

lemma finish_tick_failed: "finish_tick flt t fails db (tr0, Inr x) = (db', tr, Some s) \<Longrightarrow> flt s"
  by (cases x; cases "insert_errors flt (tk_TS t) 0 (tk_Errors t) (snd x)")
    (auto simp: finish_tick_def insert_errors_failed split: if_splits)

lemma record_tick_error_reached:
  assumes "record_tick flt t db = (db', tr, Some s)"
  shows "flt s"
proof -
  have fin: "flt s" if "finish_tick flt t n db (incident_switch flt t tr0 d) = (db', tr, Some s)" for n tr0 d
  proof (cases "incident_switch flt t tr0 d")
    case (Pair tr1 r)
    with that show ?thesis
      by (cases r) (auto simp: finish_tick_def [of flt t n db "(_, Inl _)"]
          intro: incident_switch_failed finish_tick_failed)
  qed
  from assms show ?thesis
    by (auto simp: record_tick_def Let_def intro: fin split: if_splits)
qed

lemma record_tick_commit:
  assumes "record_tick flt t db = (db', tr, None)"
  shows "record_tick (\<lambda>_. False) t db = (db', tr, None)"
proof -
  define fails where "fails = (if tk_Up t then 0 else ss_consecutive_failures (db_state (insert_result t db)) + 1)"
  define tr1 where "tr1 = empty_transition\<lparr>tr_Up := tk_Up t, tr_Error := tk_Error t,
    tr_SSLChecked := tk_SSLChecked t, tr_SSLExpiresAt := tk_SSLExpiresAt t,
    tr_ConsecutiveFailures := fails\<rparr>"
  have ok: "record_tick g t db = finish_tick g t fails db (incident_switch g t tr1 (insert_result t db))"
    if "\<not> g Begin" "\<not> g Insert_result" "\<not> g Select_state" for g
    using that by (simp add: record_tick_def fails_def tr1_def Let_def)
  have nf: "\<not> flt Begin" "\<not> flt Insert_result" "\<not> flt Select_state"
    using assms by (auto simp: record_tick_def Let_def split: if_splits)
  with assms ok have f: "finish_tick flt t fails db (incident_switch flt t tr1 (insert_result t db)) = (db', tr, None)"
    by simp
  then obtain tr0 x where sw: "incident_switch flt t tr1 (insert_result t db) = (tr0, Inr x)"
    using finish_tick_commit_Inr by blast
  with f have "finish_tick (\<lambda>_. False) t fails db (tr0, Inr x) = (db', tr, None)"
    by (simp add: finish_tick_commit)
  with incident_switch_no_fault [OF sw] ok [of "\<lambda>_. False"] show ?thesis by simp
qed

text \<open>The database and transition when no statement fails.\<close>

definition apply_tick :: "tick \<Rightarrow> site_db \<Rightarrow> site_db" where
  "apply_tick t db = fst (record_tick (\<lambda>_. False) t db)"

definition tick_transition :: "tick \<Rightarrow> site_db \<Rightarrow> transition" where
  "tick_transition t db = fst (snd (record_tick (\<lambda>_. False) t db))"

definition commits :: "(tick_stmt \<Rightarrow> bool) \<times> tick \<Rightarrow> site_db \<Rightarrow> bool" where
  "commits e db = (case e of (flt, t) \<Rightarrow> snd (snd (record_tick flt t db)) = None)"

lemma record_tick_split:
  "record_tick flt t db = (if commits (flt, t) db then (apply_tick t db, tick_transition t db, None)
     else (db, snd (record_tick flt t db)))"
proof (cases "record_tick flt t db")
  case (fields db' tr e)
  show ?thesis
  proof (cases e)
    case None
    with fields have "record_tick (\<lambda>_. False) t db = (db', tr, None)"
      by (simp add: record_tick_commit)
    with fields None show ?thesis by (simp add: commits_def apply_tick_def tick_transition_def)
  next
    case (Some s)
    with fields record_tick_error_keeps_db show ?thesis by (auto simp: commits_def)
  qed
qed

lemma tick_step_split: "tick_step db (flt, t) = (if commits (flt, t) db then apply_tick t db else db)"
  by (simp add: tick_step_def) (metis fst_conv record_tick_split)

lemma insert_errors_ok:
  "\<exists>rows. insert_errors (\<lambda>_. False) ts k ces db = Inr (db\<lparr>db_errors := db_errors db @ rows\<rparr>)"
proof (induction ces arbitrary: k db)
  case Nil
  show ?case by (intro exI [of _ "[]"]) simp
next
  case (Cons ce ces)
  let ?r = "\<lparr>er_id = next_rowid (map er_id (db_errors db)), er_ts = ts,
    er_check_type = ce_CheckType ce, er_message = ce_Message ce\<rparr>"
  obtain rows where "insert_errors (\<lambda>_. False) ts (Suc k) ces (db\<lparr>db_errors := db_errors db @ [?r]\<rparr>)
      = Inr (db\<lparr>db_errors := (db_errors db @ [?r]) @ rows\<rparr>)"
    using Cons.IH [of "Suc k" "db\<lparr>db_errors := db_errors db @ [?r]\<rparr>"] by auto
  then show ?case by (intro exI [of _ "?r # rows"]) simp
qed

subsection \<open>Outages of a history\<close>

record outage =
  og_start :: unix
  og_end :: "unix option"
  og_cause :: "string option"

function outages :: "tick list \<Rightarrow> outage list" where
  "outages [] = []"
| "outages (t # ts) =
     (if tk_Up t then outages ts
      else (case dropWhile (\<lambda>u. \<not> tk_Up u) ts of
              [] \<Rightarrow> [\<lparr>og_start = tk_TS t, og_end = None, og_cause = null_string (tk_Error t)\<rparr>]
            | u # us \<Rightarrow> \<lparr>og_start = tk_TS t, og_end = Some (tk_TS u),
                         og_cause = null_string (tk_Error t)\<rparr> # outages us))"
  by pat_completeness auto
termination
proof (relation "measure length", simp, simp)
  fix t u :: tick and ts us
  assume "dropWhile (\<lambda>u. \<not> tk_Up u) ts = u # us"
  then have "length (u # us) \<le> length ts" by (metis length_dropWhile_le)
  then show "(us, t # ts) \<in> measure length" by simp
qed

definition failing_run :: "tick list \<Rightarrow> nat" where
  "failing_run ts = length (takeWhile (\<lambda>t. \<not> tk_Up t) (rev ts))"

definition down_at_end :: "tick list \<Rightarrow> bool" where
  "down_at_end ts \<longleftrightarrow> ts \<noteq> [] \<and> \<not> tk_Up (last ts)"

lemma failing_run_simps [simp]:
  "failing_run [] = 0"
  "failing_run (ts @ [t]) = (if tk_Up t then 0 else Suc (failing_run ts))"
  by (auto simp: failing_run_def)

lemma down_at_end_simps [simp]: "\<not> down_at_end []" "down_at_end (ts @ [t]) \<longleftrightarrow> \<not> tk_Up t"
  by (auto simp: down_at_end_def)

lemma down_at_end_iff_run: "down_at_end ts \<longleftrightarrow> 0 < failing_run ts"
  by (cases ts rule: rev_cases) auto

lemma failing_run_zero: "failing_run ts = 0 \<longleftrightarrow> \<not> down_at_end ts"
  by (simp add: down_at_end_iff_run)

definition close_outage :: "unix \<Rightarrow> outage \<Rightarrow> outage" where
  "close_outage ts o1 = (if og_end o1 = None then o1\<lparr>og_end := Some ts\<rparr> else o1)"

lemma outages_snoc:
  "outages (ts @ [x]) =
     (if tk_Up x then map (close_outage (tk_TS x)) (outages ts)
      else if down_at_end ts then outages ts
      else outages ts @ [\<lparr>og_start = tk_TS x, og_end = None, og_cause = null_string (tk_Error x)\<rparr>])"
proof (induction ts rule: outages.induct)
  case 1
  then show ?case by simp
next
  case (2 t ts)
  let ?d = "\<lambda>u. \<not> tk_Up u"
  show ?case
  proof (cases "tk_Up t")
    case True
    then have "down_at_end (t # ts) = down_at_end ts" by (auto simp: down_at_end_def)
    with True "2.IH"(1) show ?thesis by simp
  next
    case False
    show ?thesis
    proof (cases "dropWhile ?d ts")
      case Nil
      then have all: "\<forall>u\<in>set ts. \<not> tk_Up u" by (simp add: dropWhile_eq_Nil_conv)
      then have "dropWhile ?d (ts @ [x]) = (if tk_Up x then [x] else [])"
        by (simp add: dropWhile_append)
      moreover have "down_at_end (t # ts)" using False all by (auto simp: down_at_end_def)
      ultimately show ?thesis using False
        by (simp add: close_outage_def dropWhile_eq_Nil_conv [THEN iffD2, OF all] del: dropWhile_eq_Nil_conv)
    next
      case (Cons u us)
      then have "\<exists>v\<in>set ts. tk_Up v"
        by (metis dropWhile_eq_Nil_conv list.distinct(1))
      then have d: "dropWhile ?d (ts @ [x]) = u # us @ [x]"
        using Cons by (metis append_Cons dropWhile_append1)
      have u: "tk_Up u" using Cons by (metis hd_dropWhile list.distinct(1) list.sel(1))
      have "last ts = last (u # us)"
        using Cons by (metis last_appendR list.distinct(1) takeWhile_dropWhile_id)
      moreover have "ts \<noteq> []" using Cons by auto
      ultimately have "down_at_end (t # ts) = down_at_end us"
        using u by (auto simp: down_at_end_def)
      with "2.IH"(2) [OF False Cons] False Cons d show ?thesis by (simp add: close_outage_def)
    qed
  qed
qed

lemma outages_open:
  "if down_at_end ts
   then outages ts \<noteq> [] \<and> og_end (last (outages ts)) = None \<and> (\<forall>o1\<in>set (butlast (outages ts)). og_end o1 \<noteq> None)
   else (\<forall>o1\<in>set (outages ts). og_end o1 \<noteq> None)"
proof (induction ts rule: rev_induct)
  case Nil
  then show ?case by simp
next
  case (snoc x ts)
  have "set (outages ts) \<subseteq> insert (last (outages ts)) (set (butlast (outages ts)))"
    by (cases "outages ts" rule: rev_cases) auto
  with snoc show ?case
    by (auto simp: outages_snoc close_outage_def split: if_splits)
qed

lemma close_outage_closed: "og_end o1 \<noteq> None \<Longrightarrow> close_outage ts o1 = o1"
  by (simp add: close_outage_def)

lemma close_outages_closed: "\<not> down_at_end ts \<Longrightarrow> map (close_outage x) (outages ts) = outages ts"
  using outages_open [of ts] by (simp add: close_outage_closed map_idI)

lemma close_outages_open:
  assumes "down_at_end ts"
  shows "map (close_outage x) (outages ts) =
    butlast (outages ts) @ [(last (outages ts))\<lparr>og_end := Some x\<rparr>]"
proof -
  from outages_open [of ts] assms
  have ne: "outages ts \<noteq> []" and l: "og_end (last (outages ts)) = None"
    and b: "\<forall>o1\<in>set (butlast (outages ts)). og_end o1 \<noteq> None" by simp_all
  from ne have "map (close_outage x) (outages ts)
      = map (close_outage x) (butlast (outages ts)) @ [close_outage x (last (outages ts))]"
    by (metis append_butlast_last_id list.simps(8,9) map_append)
  moreover have "map (close_outage x) (butlast (outages ts)) = butlast (outages ts)"
    using b by (simp add: close_outage_closed map_idI)
  moreover have "close_outage x (last (outages ts)) = (last (outages ts))\<lparr>og_end := Some x\<rparr>"
    using l by (simp add: close_outage_def)
  ultimately show ?thesis by simp
qed

subsection \<open>The database of a history\<close>

text \<open>Rows numbered 1, 2, 3 and so on, as the primary key numbers them.\<close>

definition number :: "(int \<Rightarrow> 'a \<Rightarrow> 'r) \<Rightarrow> 'a list \<Rightarrow> 'r list" where
  "number mk xs = map (\<lambda>i. mk (int i + 1) (xs ! i)) [0..<length xs]"

lemma number_Nil [simp]: "number mk [] = []"
  by (simp add: number_def)

lemma number_snoc [simp]: "number mk (xs @ [x]) = number mk xs @ [mk (int (length xs) + 1) x]"
  by (simp add: number_def nth_append)

lemma number_last:
  "xs \<noteq> [] \<Longrightarrow> number mk xs = number mk (butlast xs) @ [mk (int (length xs)) (last xs)]"
  by (cases xs rule: rev_cases) (simp_all add: add.commute)

lemma length_number [simp]: "length (number mk xs) = length xs"
  by (simp add: number_def)

lemma next_rowid_number: "(\<And>i x. idc (mk i x) = i) \<Longrightarrow> next_rowid (map idc (number mk xs)) = int (length xs) + 1"
  by (rule next_rowid_upto) (simp add: number_def comp_def)

lemma ids_number: "(\<And>i x. idc (mk i x) = i) \<Longrightarrow> r \<in> set (number mk xs) \<Longrightarrow> 1 \<le> idc r \<and> idc r \<le> int (length xs)"
  by (auto simp: number_def)

definition mk_result :: "int \<Rightarrow> tick \<Rightarrow> result_row" where
  "mk_result i t = \<lparr>rr_id = i, rr_ts = tk_TS t, rr_up = tk_Up t, rr_status_code = tk_StatusCode t,
     rr_response_ms = tk_ResponseMs t, rr_failed_checks = null_string (join '','' (tk_FailedChecks t)),
     rr_error = null_string (tk_Error t)\<rparr>"

definition mk_incident :: "int \<Rightarrow> outage \<Rightarrow> incident_row" where
  "mk_incident i o1 = \<lparr>in_id = i, in_started_at = og_start o1, in_resolved_at = og_end o1,
     in_cause = og_cause o1\<rparr>"

definition mk_error :: "int \<Rightarrow> unix \<times> check_error \<Rightarrow> error_row" where
  "mk_error i e = \<lparr>er_id = i, er_ts = fst e, er_check_type = ce_CheckType (snd e),
     er_message = ce_Message (snd e)\<rparr>"

lemma mk_ids [simp]: "rr_id (mk_result i t) = i" "in_id (mk_incident i o1) = i" "er_id (mk_error i e) = i"
  by (simp_all add: mk_result_def mk_incident_def mk_error_def)

definition error_entries :: "tick list \<Rightarrow> (unix \<times> check_error) list" where
  "error_entries ts = concat (map (\<lambda>t. map (Pair (tk_TS t)) (tk_Errors t)) ts)"

definition open_incident :: "tick list \<Rightarrow> int option" where
  "open_incident ts = (if down_at_end ts then Some (int (length (outages ts))) else None)"

definition last_ssl :: "tick list \<Rightarrow> tick option" where
  "last_ssl ts = List.find tk_SSLChecked (rev ts)"

definition history_db :: "unix \<Rightarrow> tick list \<Rightarrow> site_db" where
  "history_db now ts =
     \<lparr>db_results = number mk_result ts,
      db_incidents = number mk_incident (outages ts),
      db_errors = number mk_error (error_entries ts),
      db_state = \<lparr>ss_monitoring_started_at = now,
        ss_last_check_ts = (if ts = [] then None else Some (tk_TS (last ts))),
        ss_current_up = (if ts = [] then None else Some (tk_Up (last ts))),
        ss_current_incident_id = open_incident ts,
        ss_ssl_expires_at = (case last_ssl ts of None \<Rightarrow> None
           | Some t \<Rightarrow> if tk_SSLExpiresAt t > 0 then Some (tk_SSLExpiresAt t) else None),
        ss_ssl_last_checked = map_option tk_TS (last_ssl ts),
        ss_consecutive_failures = int (failing_run ts)\<rparr>\<rparr>"

text \<open>The transition the next tick should report.\<close>

definition history_transition :: "tick list \<Rightarrow> tick \<Rightarrow> transition" where
  "history_transition ts t =
     \<lparr>tr_IncidentOpened = (\<not> tk_Up t \<and> \<not> down_at_end ts),
      tr_IncidentResolved = (tk_Up t \<and> down_at_end ts),
      tr_IncidentID = (if \<not> tk_Up t \<and> \<not> down_at_end ts then int (length (outages ts)) + 1
                       else if tk_Up t \<and> down_at_end ts then int (length (outages ts)) else 0),
      tr_ConsecutiveFailures = int (failing_run (ts @ [t])),
      tr_Up = tk_Up t, tr_Error = tk_Error t, tr_SSLExpiresAt = tk_SSLExpiresAt t,
      tr_SSLChecked = tk_SSLChecked t\<rparr>"

lemma history_db_Nil: "history_db now [] = fresh_site_db now"
  by (simp add: history_db_def fresh_site_db_def open_incident_def last_ssl_def error_entries_def)

lemma insert_errors_number:
  "db_errors db = number mk_error es \<Longrightarrow>
   insert_errors (\<lambda>_. False) ts k ces db = Inr (db\<lparr>db_errors := number mk_error (es @ map (Pair ts) ces)\<rparr>)"
proof (induction ces arbitrary: k db es)
  case Nil
  then show ?case by simp
next
  case (Cons ce ces)
  let ?row = "\<lparr>er_id = next_rowid (map er_id (db_errors db)), er_ts = ts,
    er_check_type = ce_CheckType ce, er_message = ce_Message ce\<rparr>"
  have "next_rowid (map er_id (number mk_error es)) = int (length es) + 1"
    by (rule next_rowid_number) simp
  then have "?row = mk_error (int (length es) + 1) (ts, ce)"
    by (simp add: Cons.prems mk_error_def [of "int (length es) + 1"])
  with Cons.prems have row: "db_errors db @ [?row] = number mk_error (es @ [(ts, ce)])"
    by simp
  have "insert_errors (\<lambda>_. False) ts (Suc k) ces (db\<lparr>db_errors := db_errors db @ [?row]\<rparr>)
      = Inr (db\<lparr>db_errors := db_errors db @ [?row], db_errors := number mk_error ((es @ [(ts, ce)]) @ map (Pair ts) ces)\<rparr>)"
    by (rule Cons.IH) (simp add: row del: number_snoc)
  then show ?case by simp
qed

lemma insert_result_history:
  "insert_result t (history_db now ts) =
   (history_db now ts)\<lparr>db_results := number mk_result (ts @ [t])\<rparr>"
proof -
  have "next_rowid (map rr_id (number mk_result ts)) = int (length ts) + 1"
    by (rule next_rowid_number) (simp add: mk_result_def)
  then show ?thesis by (simp add: insert_result_def history_db_def mk_result_def)
qed

lemma next_incident_id: "next_rowid (map in_id (number mk_incident os)) = int (length os) + 1"
  by (rule next_rowid_number) (simp add: mk_incident_def)

lemma resolve_last_incident:
  assumes "os \<noteq> []"
  shows "tbl_set in_id (int (length os)) (\<lambda>r. r\<lparr>in_resolved_at := Some x\<rparr>) (number mk_incident os)
       = number mk_incident (butlast os @ [(last os)\<lparr>og_end := Some x\<rparr>])"
proof -
  have ids: "int (length os) \<notin> in_id ` set (number mk_incident (butlast os))"
    using ids_number [of in_id mk_incident _ "butlast os"] assms by fastforce
  have "tbl_set in_id (int (length os)) f (number mk_incident os)
      = number mk_incident (butlast os) @ [f (mk_incident (int (length os)) (last os))]" for f
    using ids by (simp add: number_last [OF assms] tbl_set_append tbl_set_absent)
      (simp add: tbl_set_def)
  moreover have "1 + int (length os - Suc 0) = int (length os)"
    using assms by (cases os) simp_all
  ultimately show ?thesis by (simp add: mk_incident_def [of "int (length os)"] add.commute)
qed

lemma length_close_open: "down_at_end ts \<Longrightarrow> outages ts \<noteq> []"
  using outages_open [of ts] by simp

lemma record_tick_history:
  "record_tick (\<lambda>_. False) t (history_db now ts) = (history_db now (ts @ [t]), history_transition ts t, None)"
proof -
  let ?db = "history_db now ts"
  have err: "insert_errors (\<lambda>_. False) (tk_TS t) 0 (tk_Errors t) d
      = Inr (d\<lparr>db_errors := number mk_error (error_entries (ts @ [t]))\<rparr>)"
    if "db_errors d = number mk_error (error_entries ts)" for d
    using insert_errors_number [OF that] by (simp add: error_entries_def)
  have st: "ss_current_up (db_state ?db) = Some False \<longleftrightarrow> down_at_end ts"
    "(ss_current_up (db_state ?db) = None \<or> ss_current_up (db_state ?db) = Some True) \<longleftrightarrow> \<not> down_at_end ts"
    "ss_current_incident_id (db_state ?db) = open_incident ts"
    "ss_consecutive_failures (db_state ?db) = int (failing_run ts)"
    "db_errors ?db = number mk_error (error_entries ts)"
    "db_incidents ?db = number mk_incident (outages ts)"
    by (auto simp: history_db_def down_at_end_def)
  have ssl: "last_ssl (ts @ [t]) = (if tk_SSLChecked t then Some t else last_ssl ts)"
    by (simp add: last_ssl_def)
  note defs = record_tick_def finish_tick_def incident_switch_def insert_result_history st err
    update_state_def empty_transition_def history_transition_def ssl Let_def
  show ?thesis
  proof (cases "down_at_end ts")
    case True
    then have ne: "outages ts \<noteq> []" by (rule length_close_open)
    note o = outages_snoc [of ts t] close_outages_open [OF True] resolve_last_incident [OF ne]
    have oi: "open_incident ts = Some (int (length (outages ts)))"
      using True by (simp add: open_incident_def)
    show ?thesis
      using True ne
      by (cases "tk_Up t"; simp add: defs o oi resolve_incident_def;
          simp add: history_db_def open_incident_def o ssl)
  next
    case False
    note o = outages_snoc [of ts t] close_outages_closed [OF False]
    have oi: "open_incident ts = None"
      using False by (simp add: open_incident_def)
    have row: "mk_incident (int (length (outages ts)) + 1)
        \<lparr>og_start = tk_TS t, og_end = None, og_cause = null_string (tk_Error t)\<rparr>
      = \<lparr>in_id = int (length (outages ts)) + 1, in_started_at = tk_TS t, in_resolved_at = None,
          in_cause = null_string (tk_Error t)\<rparr>"
      by (simp add: mk_incident_def)
    show ?thesis
      using False
      by (cases "tk_Up t"; simp add: defs o oi insert_incident_def next_incident_id row;
          simp add: history_db_def open_incident_def o row ssl)
  qed
qed

subsection \<open>Runs\<close>

text \<open>The ticks of a run that were committed.\<close>

fun committed :: "site_db \<Rightarrow> ((tick_stmt \<Rightarrow> bool) \<times> tick) list \<Rightarrow> tick list" where
  "committed db [] = []"
| "committed db (e # es) = (if commits e db then [snd e] else []) @ committed (tick_step db e) es"

lemma apply_tick_history: "apply_tick t (history_db now ts) = history_db now (ts @ [t])"
  by (simp add: apply_tick_def record_tick_history)

lemma tick_transition_history: "tick_transition t (history_db now ts) = history_transition ts t"
  by (simp add: tick_transition_def record_tick_history)

lemma tick_step_history:
  "tick_step (history_db now ts) e = history_db now (ts @ (if commits e (history_db now ts) then [snd e] else []))"
  by (cases e) (simp add: tick_step_split apply_tick_history)

lemma record_ticks_history:
  "record_ticks (history_db now ts) es = history_db now (ts @ committed (history_db now ts) es)"
proof (induction es arbitrary: ts)
  case Nil
  then show ?case by (simp add: record_ticks_def)
next
  case (Cons e es)
  let ?ts = "ts @ (if commits e (history_db now ts) then [snd e] else [])"
  have "record_ticks (history_db now ts) (e # es) = record_ticks (history_db now ?ts) es"
    by (simp add: record_ticks_def tick_step_history)
  with Cons.IH [of ?ts] show ?case by (simp add: tick_step_history)
qed

lemma record_ticks_fresh:
  "record_ticks (fresh_site_db now) es = history_db now (committed (fresh_site_db now) es)"
  using record_ticks_history [of now "[]" es] by (simp add: history_db_Nil)

text \<open>
  C1: after any run of ticks from a new database, whichever statements failed, the database
  is the one the committed ticks alone should leave: one result row per tick, one incident
  per maximal run of failing ticks with its start, end and first error, one errors row per
  reported error, and the rolled-up state of the last tick.
\<close>

theorem record_ticks_refines_history:
  "record_ticks (fresh_site_db now) es = history_db now (committed (fresh_site_db now) es)"
  by (rule record_ticks_fresh)

text \<open>
  C7: the transaction of \<open>RecordTick\<close> is atomic.  Either it commits and yields the database
  and transition of the run without faults, or it reports a statement that failed and the
  database is as before.
\<close>

theorem record_tick_atomic:
  "case record_tick flt t db of
     (db', tr, None) \<Rightarrow> (db', tr, None) = record_tick (\<lambda>_. False) t db
   | (db', tr, Some s) \<Rightarrow> db' = db \<and> flt s"
proof (cases "record_tick flt t db")
  case (fields db' tr e)
  then show ?thesis
    by (cases e) (auto simp: record_tick_commit dest: record_tick_error_keeps_db record_tick_error_reached)
qed

text \<open>
  C22: in every database reached from a new one, the transition reported for the next tick is
  exact: opened on the first failing tick of an outage, resolved on the tick that ends it,
  the incident id of that outage on these two edges and 0 on every other tick, and the
  length of the failing run including this tick.
\<close>

theorem record_tick_reports_edges:
  "let ts = committed (fresh_site_db now) es in
   record_tick (\<lambda>_. False) t (record_ticks (fresh_site_db now) es) =
     (history_db now (ts @ [t]), history_transition ts t, None)"
  by (simp add: record_ticks_fresh record_tick_history)

lemma open_rows_history:
  "filter (\<lambda>r. in_resolved_at r = None) (number mk_incident (outages ts)) =
     (if down_at_end ts then [mk_incident (int (length (outages ts))) (last (outages ts))] else [])"
proof -
  have none: "filter (\<lambda>r. in_resolved_at r = None) (number mk_incident os) = []"
    if "\<forall>o1\<in>set os. og_end o1 \<noteq> None" for os
    using that by (auto simp: filter_empty_conv number_def mk_incident_def)
  show ?thesis
  proof (cases "down_at_end ts")
    case True
    with outages_open [of ts] have ne: "outages ts \<noteq> []"
      and l: "og_end (last (outages ts)) = None"
      and b: "\<forall>o1\<in>set (butlast (outages ts)). og_end o1 \<noteq> None" by simp_all
    with True none [OF b] show ?thesis
      by (simp add: number_last [OF ne]) (simp add: mk_incident_def)
  next
    case False
    with outages_open [of ts] show ?thesis by (simp add: none)
  qed
qed

text \<open>
  In every database reached from a new one, the incidents without an end are exactly
  the one the state row calls current: none while the site is up, one while it is down.
\<close>

theorem open_incident_is_current:
  "let db = record_ticks (fresh_site_db now) es; st = db_state db in
   map in_id (filter (\<lambda>r. in_resolved_at r = None) (db_incidents db)) =
     (case ss_current_incident_id st of None \<Rightarrow> [] | Some i \<Rightarrow> [i]) \<and>
   (ss_current_incident_id st = None \<longleftrightarrow> ss_current_up st \<noteq> Some False) \<and>
   (ss_consecutive_failures st = 0 \<longleftrightarrow> ss_current_up st \<noteq> Some False)"
  by (simp add: record_ticks_fresh history_db_def open_rows_history open_incident_def)
    (auto simp: failing_run_zero down_at_end_def)

end
