(* ===== verification/SiteQuery.thy ===== *)
theory SiteQuery
  imports Outages
begin

section \<open>Reading a site database (internal/storage/query.go)\<close>

text \<open>
  The SELECTs behind the data endpoints.  A Go float64 is an exact rational here: the model
  says what is computed, not how the double is rounded, so a figure exactly half-way between
  two hundredths may come out one hundredth apart in the program.  \<open>int64(q * float64(n))\<close> is
  the integer part of the exact product.
\<close>

subsection \<open>Rounding\<close>

text \<open>\<open>math.Round\<close> rounds half away from zero; the figures are rounded to two decimals.\<close>

definition go_round :: "rat \<Rightarrow> int" where
  "go_round x = (if x < 0 then - \<lfloor>- x + 1 / 2\<rfloor> else \<lfloor>x + 1 / 2\<rfloor>)"

lemma go_round_error: "\<bar>of_int (go_round x) - x\<bar> \<le> 1 / 2"
proof -
  have f: "of_int \<lfloor>y + 1 / 2\<rfloor> \<le> y + 1 / 2 \<and> y + 1 / 2 < of_int \<lfloor>y + 1 / 2\<rfloor> + 1" for y :: rat
    by linarith
  show ?thesis
  proof (cases "x < 0")
    case True
    then have "of_int (go_round x) = - (of_int \<lfloor>- x + 1 / 2\<rfloor> :: rat)" by (simp add: go_round_def)
    with f [of "- x"] show ?thesis by linarith
  next
    case False
    then have "of_int (go_round x) = (of_int \<lfloor>x + 1 / 2\<rfloor> :: rat)" by (simp add: go_round_def)
    with f [of x] show ?thesis by linarith
  qed
qed

lemma go_round_mono: "0 \<le> x \<Longrightarrow> x \<le> y \<Longrightarrow> go_round x \<le> go_round y"
  by (simp add: go_round_def floor_mono)

lemma go_round_nonneg: "0 \<le> x \<Longrightarrow> 0 \<le> go_round x"
  using go_round_mono [of 0 x] by (simp add: go_round_def)

lemma go_round_of_int: "0 \<le> i \<Longrightarrow> go_round (of_int i) = i"
  by (simp add: go_round_def) linarith

lemma go_round_0 [simp]: "go_round 0 = 0"
  using go_round_of_int [of 0] by simp

subsection \<open>Status\<close>

record status =
  st_MonitoringStartedAt :: unix
  st_LastCheckTS :: "unix option"
  st_Up :: "bool option"
  st_OngoingIncidentID :: "int option"
  st_SSLExpiresAt :: "unix option"
  st_SSLLastChecked :: "unix option"

definition site_status :: "site_db \<Rightarrow> status" where
  "site_status db = (let st = db_state db in
     \<lparr>st_MonitoringStartedAt = ss_monitoring_started_at st, st_LastCheckTS = ss_last_check_ts st,
      st_Up = ss_current_up st, st_OngoingIncidentID = ss_current_incident_id st,
      st_SSLExpiresAt = ss_ssl_expires_at st, st_SSLLastChecked = ss_ssl_last_checked st\<rparr>)"

subsection \<open>Uptime\<close>

record uptime =
  up_Window :: string
  up_Checks :: int
  up_Successful :: int
  up_Failed :: int
  up_Percent :: rat

definition since_rows :: "unix \<Rightarrow> site_db \<Rightarrow> result_row list" where
  "since_rows since db = filter (\<lambda>r. rr_ts r \<ge> since) (db_results db)"

definition count_up :: "result_row list \<Rightarrow> int" where
  "count_up rows = int (length (filter rr_up rows))"

definition percent_of :: "int \<Rightarrow> int \<Rightarrow> rat" where
  "percent_of ok n = of_int (go_round (of_int ok / of_int n * 10000)) / 100"

definition site_uptime :: "string \<Rightarrow> unix \<Rightarrow> site_db \<Rightarrow> uptime" where
  "site_uptime window since db =
     (let rows = since_rows since db; n = int (length rows); ok = count_up rows in
      \<lparr>up_Window = window, up_Checks = n, up_Successful = ok, up_Failed = n - ok,
       up_Percent = (if n > 0 then percent_of ok n else 0)\<rparr>)"

lemma count_up_bounds: "0 \<le> count_up rows" "count_up rows \<le> int (length rows)"
  by (simp_all add: count_up_def)

lemma percent_of_bounds:
  assumes "0 \<le> ok" "ok \<le> n" "0 < n"
  shows "0 \<le> percent_of ok n" "percent_of ok n \<le> 100"
    "\<bar>percent_of ok n - of_int ok / of_int n * 100\<bar> \<le> 1 / 200"
proof -
  let ?x = "of_int ok / of_int n * 10000 :: rat"
  have "of_int ok / of_int n \<le> (1 :: rat)" using assms by (simp add: divide_le_eq_1)
  then have "?x \<le> 1 * 10000" by (rule mult_right_mono) simp
  with assms have x: "0 \<le> ?x" "?x \<le> of_int 10000" by (simp_all only: of_int_numeral mult_1) simp
  then have "0 \<le> go_round ?x" by (intro go_round_nonneg)
  then show "0 \<le> percent_of ok n" by (simp add: percent_of_def)
  have "go_round ?x \<le> go_round (of_int 10000)" using x by (intro go_round_mono)
  then have "go_round ?x \<le> 10000" using go_round_of_int [of 10000] by simp
  then show "percent_of ok n \<le> 100" by (simp add: percent_of_def)
  show "\<bar>percent_of ok n - of_int ok / of_int n * 100\<bar> \<le> 1 / 200"
    using go_round_error [of ?x] by (simp add: percent_of_def abs_le_iff field_simps)
qed

text \<open>
  The uptime figures are consistent: the counts add up, the percentage lies between 0
  and 100 and within 0.005 of the exact quotient, and without any check it is 0.
\<close>

theorem uptime_consistent:
  "let u = site_uptime window since db in
   up_Checks u = up_Successful u + up_Failed u \<and> 0 \<le> up_Failed u \<and>
   up_Checks u = int (length (filter (\<lambda>r. since \<le> rr_ts r) (db_results db))) \<and>
   0 \<le> up_Percent u \<and> up_Percent u \<le> 100 \<and>
   (if up_Checks u = 0 then up_Percent u = 0
    else \<bar>up_Percent u - of_int (up_Successful u) / of_int (up_Checks u) * 100\<bar> \<le> 1 / 200)"
proof -
  let ?rows = "since_rows since db"
  have b: "0 \<le> count_up ?rows" "count_up ?rows \<le> int (length ?rows)"
    by (simp_all add: count_up_bounds)
  show ?thesis
  proof (cases "?rows = []")
    case True
    then show ?thesis by (simp add: site_uptime_def Let_def count_up_def since_rows_def)
  next
    case False
    then have "0 < int (length ?rows)" by simp
    from percent_of_bounds [OF b this] b False show ?thesis
      by (simp add: site_uptime_def Let_def since_rows_def)
  qed
qed

subsection \<open>Metrics\<close>

record metrics =
  me_Window :: string
  me_Checks :: int
  me_Successful :: int
  me_Failed :: int
  me_AvgMs :: rat
  me_P50Ms :: int
  me_P95Ms :: int
  me_P99Ms :: int

text \<open>The latencies of the successful checks: SQL's \<open>AVG(CASE WHEN up = 1 ...)\<close> and the
  percentile queries range over these.\<close>

definition latencies :: "result_row list \<Rightarrow> int list" where
  "latencies rows = map rr_response_ms (filter rr_up rows)"

definition sql_avg :: "int list \<Rightarrow> rat option" where
  "sql_avg xs = (if xs = [] then None else Some (of_int (sum_list xs) / of_int (int (length xs))))"

definition round_avg :: "rat option \<Rightarrow> rat" where
  "round_avg a = of_int (go_round ((case a of None \<Rightarrow> 0 | Some x \<Rightarrow> x) * 100)) / 100"

definition percentile :: "unix \<Rightarrow> rat \<Rightarrow> site_db \<Rightarrow> int" where
  "percentile since q db =
     (let xs = latencies (since_rows since db); n = int (length xs) in
      if n = 0 then 0
      else let offset = \<lfloor>q * of_int n\<rfloor>; offset = (if offset \<ge> n then n - 1 else offset)
      in sort xs ! nat offset)"

definition site_metrics :: "string \<Rightarrow> unix \<Rightarrow> site_db \<Rightarrow> metrics" where
  "site_metrics window since db =
     (let rows = since_rows since db; n = int (length rows); ok = count_up rows in
      \<lparr>me_Window = window, me_Checks = n, me_Successful = ok, me_Failed = n - ok,
       me_AvgMs = round_avg (sql_avg (latencies rows)),
       me_P50Ms = percentile since (1 / 2) db, me_P95Ms = percentile since (95 / 100) db,
       me_P99Ms = percentile since (99 / 100) db\<rparr>)"

text \<open>Element \<open>k\<close> of the sorted list has \<open>k + 1\<close> elements at or below it and the rest at or above.\<close>

lemma length_filter_sort: "length (filter P (sort xs)) = length (filter P (xs :: int list))"
  by (simp add: filter_sort)

lemma filter_ge_iff_take:
  assumes "sorted ys" "k < length ys"
  shows "Suc k \<le> length (filter (\<lambda>x. x \<le> ys ! k) ys)"
    and "length ys - k \<le> length (filter (\<lambda>x. ys ! k \<le> x) ys)"
proof -
  have a: "filter (\<lambda>x. x \<le> ys ! k) (take (Suc k) ys) = take (Suc k) ys"
    using assms by (auto simp: filter_id_conv in_set_conv_nth sorted_iff_nth_mono)
  have b: "filter (\<lambda>x. ys ! k \<le> x) (drop k ys) = drop k ys"
    using assms by (auto simp: filter_id_conv in_set_conv_nth sorted_iff_nth_mono)
  have "length (filter P (take m ys)) \<le> length (filter P ys)" for P m
    by (metis append_take_drop_id filter_append le_add1 length_append)
  from this [of "\<lambda>x. x \<le> ys ! k" "Suc k"] a assms(2)
  show "Suc k \<le> length (filter (\<lambda>x. x \<le> ys ! k) ys)" by simp
  have "length (filter P (drop m ys)) \<le> length (filter P ys)" for P m
    by (metis append_take_drop_id filter_append le_add2 length_append)
  from this [of "\<lambda>x. ys ! k \<le> x" k] b
  show "length ys - k \<le> length (filter (\<lambda>x. ys ! k \<le> x) ys)" by simp
qed

definition percentile_rank :: "rat \<Rightarrow> nat \<Rightarrow> nat" where
  "percentile_rank q n = nat (if \<lfloor>q * of_nat n\<rfloor> \<ge> int n then int n - 1 else \<lfloor>q * of_nat n\<rfloor>)"

lemma percentile_nth:
  "latencies (since_rows since db) \<noteq> [] \<Longrightarrow>
   percentile since q db = sort (latencies (since_rows since db))
     ! percentile_rank q (length (latencies (since_rows since db)))"
  by (simp add: percentile_def percentile_rank_def Let_def)

lemma percentile_rank_less: "0 < n \<Longrightarrow> percentile_rank q n < n"
  by (auto simp: percentile_rank_def)

text \<open>
  A percentile is an order statistic of the successful latencies in the window.  It is
  one of them, more than \<open>q * n\<close> of them (rounded down, and at most all) are at or below it,
  and the remaining ones are at or above it.
\<close>

theorem percentile_order_statistic:
  "let xs = latencies (since_rows since db); v = percentile since q db;
       k = percentile_rank q (length xs) in
   if xs = [] then v = 0
   else v \<in> set xs \<and> k < length xs \<and>
     k + 1 \<le> length (filter (\<lambda>x. x \<le> v) xs) \<and>
     length xs - k \<le> length (filter (\<lambda>x. v \<le> x) xs)"
proof (cases "latencies (since_rows since db) = []")
  case True
  then show ?thesis by (simp add: percentile_def Let_def)
next
  case False
  define xs where "xs = latencies (since_rows since db)"
  define k where "k = percentile_rank q (length xs)"
  define v where "v = percentile since q db"
  from False have v: "v = sort xs ! k" by (simp add: v_def k_def xs_def percentile_nth)
  from False have k: "k < length (sort xs)" by (simp add: k_def xs_def percentile_rank_less)
  have "v \<in> set (sort xs)" unfolding v using k by (rule nth_mem)
  moreover have "Suc k \<le> length (filter (\<lambda>x. x \<le> v) (sort xs))"
    unfolding v using k by (intro filter_ge_iff_take) auto
  moreover have "length (sort xs) - k \<le> length (filter (\<lambda>x. v \<le> x) (sort xs))"
    unfolding v using k by (intro filter_ge_iff_take) auto
  ultimately show ?thesis using False k
    by (simp add: length_filter_sort Let_def flip: xs_def v_def k_def)
qed

lemma percentile_rank_mono: "p \<le> q \<Longrightarrow> percentile_rank p n \<le> percentile_rank q n"
proof -
  assume "p \<le> q"
  then have "p * of_nat n \<le> q * of_nat n" by (simp add: mult_right_mono)
  then have "\<lfloor>p * of_nat n\<rfloor> \<le> \<lfloor>q * of_nat n\<rfloor>" by (rule floor_mono)
  then show ?thesis by (auto simp: percentile_rank_def)
qed

lemma percentile_mono: "p \<le> q \<Longrightarrow> percentile since p db \<le> percentile since q db"
proof (cases "latencies (since_rows since db) = []")
  case True
  then show ?thesis by (simp add: percentile_def)
next
  case False
  assume "p \<le> q"
  with False show ?thesis
    by (simp add: percentile_nth sorted_nth_mono percentile_rank_mono percentile_rank_less)
qed

subsection \<open>Listings\<close>

text \<open>SQLite's \<open>LIMIT\<close>: a negative limit means all rows.\<close>

definition sql_limit :: "int \<Rightarrow> 'a list \<Rightarrow> 'a list" where
  "sql_limit n xs = (if n < 0 then xs else take (nat n) xs)"

record incident_out =
  io_ID :: int
  io_StartedAt :: unix
  io_ResolvedAt :: "unix option"
  io_Cause :: string
  io_DurationS :: "int option"

definition coalesce_str :: "string option \<Rightarrow> string" where
  "coalesce_str s = (case s of None \<Rightarrow> [] | Some x \<Rightarrow> x)"

definition site_errors :: "unix \<Rightarrow> int \<Rightarrow> site_db \<Rightarrow> error_row list" where
  "site_errors since limit db =
     sql_limit limit (rev (sort_key er_id (filter (\<lambda>r. er_ts r \<ge> since) (db_errors db))))"

definition site_incidents :: "int \<Rightarrow> site_db \<Rightarrow> incident_out list" where
  "site_incidents limit db = map (\<lambda>r.
     \<lparr>io_ID = in_id r, io_StartedAt = in_started_at r, io_ResolvedAt = in_resolved_at r,
      io_Cause = coalesce_str (in_cause r),
      io_DurationS = map_option (\<lambda>x. x - in_started_at r) (in_resolved_at r)\<rparr>)
     (sql_limit limit (rev (sort_key in_id (db_incidents db))))"

record result_out =
  ro_ID :: int
  ro_TS :: unix
  ro_Up :: bool
  ro_StatusCode :: int
  ro_ResponseMs :: int
  ro_FailedChecks :: string
  ro_Error :: string

definition site_results :: "unix \<Rightarrow> int \<Rightarrow> site_db \<Rightarrow> result_out list" where
  "site_results since limit db = map (\<lambda>r.
     \<lparr>ro_ID = rr_id r, ro_TS = rr_ts r, ro_Up = rr_up r, ro_StatusCode = rr_status_code r,
      ro_ResponseMs = rr_response_ms r, ro_FailedChecks = coalesce_str (rr_failed_checks r),
      ro_Error = coalesce_str (rr_error r)\<rparr>)
     (sql_limit limit (rev (sort_key rr_id (since_rows since db))))"

lemma sorted_ids_number:
  assumes "\<And>i x. idc (mk i x) = i"
  shows "sorted (map idc (number mk xs))"
proof -
  have "map idc (number mk xs) = map (\<lambda>i. int i + 1) [0..<length xs]"
    using assms by (simp add: number_def comp_def)
  moreover have "sorted (map (\<lambda>i. int i + 1) [0..<n])" for n
    by (auto simp: sorted_iff_nth_mono)
  ultimately show ?thesis by simp
qed

lemma sort_key_number:
  "(\<And>i x. idc (mk i x) = i) \<Longrightarrow> sort_key idc (filter P (number mk xs)) = filter P (number mk xs)"
  by (intro sort_key_id_if_sorted sorted_filter sorted_ids_number)

lemma map_filter_number:
  assumes "\<And>i x. f (mk i x) = g x" and "\<And>i x. P (mk i x) = Q x"
  shows "map f (filter P (number mk xs)) = map g (filter Q xs)"
  by (induction xs rule: rev_induct) (auto simp: assms)

lemma take_rev_map: "map f xs = map g ys \<Longrightarrow> map f (take n (rev xs)) = map g (take n (rev ys))"
  by (metis rev_map take_map)

lemma sql_limit_nonneg: "sql_limit (int n) xs = take n xs"
  by (simp add: sql_limit_def)

text \<open>
  \<open>/results\<close> lists the newest checks first.  For a database reached from a new one, a
  query with a limit returns the last committed ticks at or after \<open>since\<close>, newest first,
  with the figures these ticks had.
\<close>

theorem results_newest_first:
  "map (\<lambda>r. (ro_TS r, ro_Up r, ro_StatusCode r, ro_ResponseMs r, ro_Error r))
     (site_results since (int n) (record_ticks (fresh_site_db now) es)) =
   take n (rev (map (\<lambda>t. (tk_TS t, tk_Up t, tk_StatusCode t, tk_ResponseMs t, tk_Error t))
     (filter (\<lambda>t. since \<le> tk_TS t) (committed (fresh_site_db now) es))))"
proof -
  let ?ts = "committed (fresh_site_db now) es"
  let ?P = "\<lambda>r. since \<le> rr_ts r"
  let ?f = "\<lambda>r. (rr_ts r, rr_up r, rr_status_code r, rr_response_ms r, coalesce_str (rr_error r))"
  let ?g = "\<lambda>t. (tk_TS t, tk_Up t, tk_StatusCode t, tk_ResponseMs t, tk_Error t)"
  have f: "?f (mk_result i t) = ?g t" and P: "?P (mk_result i t) = (since \<le> tk_TS t)" for i t
    by (simp_all add: mk_result_def coalesce_str_def null_string_def)
  have "map ?f (filter ?P (number mk_result ?ts)) = map ?g (filter (\<lambda>t. since \<le> tk_TS t) ?ts)"
    by (rule map_filter_number) (rule f, rule P)
  note rows = take_rev_map [OF this, of n]
  have "sort_key rr_id (filter ?P (number mk_result ?ts)) = filter ?P (number mk_result ?ts)"
    by (rule sort_key_number) simp
  with rows show ?thesis
    by (simp add: site_results_def sql_limit_nonneg since_rows_def record_ticks_fresh history_db_def
        comp_def rev_map take_map)
qed

text \<open>
  \<open>/incidents\<close> lists the outages newest first: for a database reached from a new one,
  each entry is an outage of the history with its start and end, and its duration is the
  time between them, absent while the outage lasts.
\<close>

theorem incidents_are_outages:
  "map (\<lambda>r. (io_StartedAt r, io_ResolvedAt r, io_DurationS r))
     (site_incidents (int n) (record_ticks (fresh_site_db now) es)) =
   take n (rev (map (\<lambda>o1. (og_start o1, og_end o1, map_option (\<lambda>e. e - og_start o1) (og_end o1)))
     (outages (committed (fresh_site_db now) es))))"
proof -
  let ?os = "outages (committed (fresh_site_db now) es)"
  let ?f = "\<lambda>r. (in_started_at r, in_resolved_at r, map_option (\<lambda>x. x - in_started_at r) (in_resolved_at r))"
  let ?g = "\<lambda>o1. (og_start o1, og_end o1, map_option (\<lambda>e. e - og_start o1) (og_end o1))"
  have f: "?f (mk_incident i o1) = ?g o1" for i o1 by (simp add: mk_incident_def)
  have "map ?f (filter (\<lambda>_. True) (number mk_incident ?os)) = map ?g (filter (\<lambda>_. True) ?os)"
    by (rule map_filter_number) (rule f, rule refl)
  then have "map ?f (number mk_incident ?os) = map ?g ?os" by simp
  note rows = take_rev_map [OF this, of n]
  have "sort_key in_id (filter (\<lambda>_. True) (number mk_incident ?os)) = number mk_incident ?os"
    by (subst sort_key_number) auto
  with rows show ?thesis
    by (simp add: site_incidents_def sql_limit_nonneg record_ticks_fresh history_db_def
        comp_def rev_map take_map)
qed

end
