(* ===== verification/SiteSeries.thy ===== *)
theory SiteSeries
  imports SiteQuery
begin

section \<open>Bucketed series for charts (internal/storage/series.go)\<close>

text \<open>
  \<open>Series\<close> computes the window, prefills one point per bucket and updates the points from
  two grouped queries: counts and mean (lines 99 to 127), and the 95th percentile
  (\<open>fillSeriesP95\<close>).  The loops over result rows are folds with list update, as the code
  writes into its slice.  The theorems give each point in closed form and show that no check
  of the window is lost or counted twice.
\<close>

definition DefaultSeriesBuckets :: int where "DefaultSeriesBuckets = 96"
definition MaxSeriesBuckets :: int where "MaxSeriesBuckets = 1000"

record series_point =
  sp_TS :: unix
  sp_Checks :: int
  sp_Successful :: int
  sp_UptimePercent :: rat
  sp_AvgMs :: rat
  sp_P95Ms :: int

record series =
  sr_Window :: string
  sr_From :: unix
  sr_To :: unix
  sr_BucketSeconds :: int
  sr_Points :: "series_point list"

subsection \<open>The window\<close>

definition clamp_buckets :: "int \<Rightarrow> int" where
  "clamp_buckets buckets =
     (let b = (if buckets \<le> 0 then DefaultSeriesBuckets else buckets)
      in if b > MaxSeriesBuckets then MaxSeriesBuckets else b)"

definition min_ts :: "result_row list \<Rightarrow> unix option" where
  "min_ts rows = (case map rr_ts rows of [] \<Rightarrow> None | t # ts \<Rightarrow> Some (foldl min t ts))"

definition bucket_seconds :: "unix \<Rightarrow> unix \<Rightarrow> int \<Rightarrow> int" where
  "bucket_seconds from_ts to_ts buckets =
     (let span = (if to_ts - from_ts < 1 then 1 else to_ts - from_ts);
          b = quot_trunc (span + buckets - 1) buckets
      in if b < 1 then 1 else b)"

text \<open>SQL's \<open>MIN((ts - ?) / ?, ?)\<close>: the bucket of a row, clamped to the last one.\<close>

definition bucket_of :: "unix \<Rightarrow> int \<Rightarrow> int \<Rightarrow> result_row \<Rightarrow> int" where
  "bucket_of from_ts secs lastIdx r = min (quot_trunc (rr_ts r - from_ts) secs) lastIdx"

subsection \<open>Grouped queries\<close>

text \<open>\<open>GROUP BY b ORDER BY b\<close>: the groups in increasing bucket order.\<close>

definition group_by :: "('r \<Rightarrow> int) \<Rightarrow> 'r list \<Rightarrow> (int \<times> 'r list) list" where
  "group_by b rows = map (\<lambda>k. (k, filter (\<lambda>r. b r = k) rows)) (sort (remdups (map b rows)))"

definition window_rows :: "unix \<Rightarrow> unix \<Rightarrow> site_db \<Rightarrow> result_row list" where
  "window_rows from_ts to_ts db = filter (\<lambda>r. rr_ts r \<ge> from_ts \<and> rr_ts r \<le> to_ts) (db_results db)"

definition put_counts :: "series_point \<Rightarrow> result_row list \<Rightarrow> series_point" where
  "put_counts p rows =
     (let n = int (length rows); ok = count_up rows in
      p\<lparr>sp_Checks := n, sp_Successful := ok,
        sp_UptimePercent := (if n > 0 then percent_of ok n else sp_UptimePercent p),
        sp_AvgMs := round_avg (sql_avg (latencies rows))\<rparr>)"

text \<open>The rank \<open>cut\<close> of the percentile query and \<open>MAX(CASE WHEN rn <= cut ...)\<close>: row numbers
  follow the latencies in increasing order, so the rows kept are a prefix of the sorted list.\<close>

definition p95_cut :: "nat \<Rightarrow> nat" where
  "p95_cut n = max 1 (n * 95 div 100)"

definition p95_query :: "int list \<Rightarrow> int option" where
  "p95_query xs = (case take (p95_cut (length xs)) (sort xs) of
     [] \<Rightarrow> None | y # ys \<Rightarrow> Some (foldl max y ys))"

definition put_p95 :: "series_point \<Rightarrow> result_row list \<Rightarrow> series_point" where
  "put_p95 p rows = p\<lparr>sp_P95Ms := (case p95_query (map rr_response_ms rows) of None \<Rightarrow> 0 | Some v \<Rightarrow> v)\<rparr>"

text \<open>The loop over the rows of a grouped query: update the point the group names, if there is one.\<close>

definition fill :: "(series_point \<Rightarrow> 'r list \<Rightarrow> series_point) \<Rightarrow> (int \<times> 'r list) list \<Rightarrow>
    series_point list \<Rightarrow> series_point list" where
  "fill put groups points = foldl (\<lambda>ps (b, rows).
     if b < 0 \<or> b \<ge> int (length ps) then ps else ps[nat b := put (ps ! nat b) rows]) points groups"

definition empty_point :: "unix \<Rightarrow> series_point" where
  "empty_point ts = \<lparr>sp_TS = ts, sp_Checks = 0, sp_Successful = 0, sp_UptimePercent = 0,
     sp_AvgMs = 0, sp_P95Ms = 0\<rparr>"

definition prefill :: "unix \<Rightarrow> int \<Rightarrow> int \<Rightarrow> series_point list" where
  "prefill from_ts secs buckets = map (\<lambda>i. empty_point (from_ts + int i * secs)) [0..<nat buckets]"

definition series_points :: "unix \<Rightarrow> unix \<Rightarrow> int \<Rightarrow> int \<Rightarrow> site_db \<Rightarrow> series_point list" where
  "series_points from_ts to_ts secs buckets db =
     (let b = bucket_of from_ts secs (buckets - 1); rows = window_rows from_ts to_ts db;
          points = fill put_counts (group_by b rows) (prefill from_ts secs buckets)
      in fill put_p95 (group_by b (filter rr_up rows)) points)"

definition site_series :: "unix \<Rightarrow> string \<Rightarrow> unix \<Rightarrow> int \<Rightarrow> site_db \<Rightarrow> series" where
  "site_series now window sinceTS buckets db =
     (let buckets = clamp_buckets buckets;
          out = \<lparr>sr_Window = window, sr_From = 0, sr_To = now, sr_BucketSeconds = 0, sr_Points = []\<rparr>
      in case (if sinceTS \<le> 0 then min_ts (db_results db) else Some sinceTS) of
           None \<Rightarrow> out\<lparr>sr_From := now, sr_BucketSeconds := 1\<rparr>
         | Some from0 \<Rightarrow>
             let from_ts = (if from0 > now then now else from0);
                 secs = bucket_seconds from_ts now buckets
             in out\<lparr>sr_From := from_ts, sr_BucketSeconds := secs,
                    sr_Points := series_points from_ts now secs buckets db\<rparr>)"

subsection \<open>The loops in closed form\<close>

lemma fill_Nil [simp]: "fill put [] ps = ps"
  by (simp add: fill_def)

lemma fill_Cons: "fill put ((b, rows) # gs) ps =
    fill put gs (if b < 0 \<or> b \<ge> int (length ps) then ps else ps[nat b := put (ps ! nat b) rows])"
  by (simp add: fill_def)

lemma length_fill [simp]: "length (fill put gs ps) = length ps"
  by (induction gs arbitrary: ps) (auto simp: fill_Cons split: prod.splits)

lemma fill_nth:
  assumes "distinct (map fst gs)" and "i < length ps"
  shows "fill put gs ps ! i =
    (case map_of gs (int i) of None \<Rightarrow> ps ! i | Some rows \<Rightarrow> put (ps ! i) rows)"
  using assms
proof (induction gs arbitrary: ps)
  case Nil
  then show ?case by simp
next
  case (Cons g gs)
  obtain b rows where g: "g = (b, rows)" by (cases g)
  let ?ps = "if b < 0 \<or> b \<ge> int (length ps) then ps else ps[nat b := put (ps ! nat b) rows]"
  have IH: "fill put gs ?ps ! i = (case map_of gs (int i) of None \<Rightarrow> ?ps ! i | Some r \<Rightarrow> put (?ps ! i) r)"
    using Cons.prems by (intro Cons.IH) auto
  have none: "map_of gs b = None"
    using Cons.prems(1) g by (auto simp: map_of_eq_None_iff)
  have step: "fill put (g # gs) ps = fill put gs ?ps" by (simp add: g fill_Cons)
  show ?case
  proof (cases "b = int i")
    case True
    with IH none Cons.prems(2) show ?thesis unfolding step by (simp add: g)
  next
    case False
    then have same: "?ps ! i = ps ! i" using Cons.prems(2) by (auto simp: nth_list_update)
    from False have "map_of (g # gs) (int i) = map_of gs (int i)" by (simp add: g)
    then show ?thesis unfolding step IH same by simp
  qed
qed

lemma map_of_tagged: "map_of (map (\<lambda>k. (k, f k)) ks) k = (if k \<in> set ks then Some (f k) else None)"
  by (induction ks) auto

lemma map_of_group_by:
  "map_of (group_by b rows) k =
     (if filter (\<lambda>r. b r = k) rows = [] then None else Some (filter (\<lambda>r. b r = k) rows))"
  unfolding group_by_def map_of_tagged by (auto simp: filter_empty_conv)

lemma distinct_group_by: "distinct (map fst (group_by b rows))"
  by (simp add: group_by_def comp_def)

lemma fill_group_nth:
  assumes "i < length ps"
  shows "fill put (group_by b rows) ps ! i =
    (if filter (\<lambda>r. b r = int i) rows = [] then ps ! i
     else put (ps ! i) (filter (\<lambda>r. b r = int i) rows))"
  using assms by (simp add: fill_nth distinct_group_by map_of_group_by)

text \<open>The rows of bucket \<open>i\<close>, and the point they should give.\<close>

definition bucket_rows :: "unix \<Rightarrow> unix \<Rightarrow> int \<Rightarrow> int \<Rightarrow> site_db \<Rightarrow> nat \<Rightarrow> result_row list" where
  "bucket_rows from_ts to_ts secs buckets db i =
     filter (\<lambda>r. bucket_of from_ts secs (buckets - 1) r = int i) (window_rows from_ts to_ts db)"

definition point_spec :: "unix \<Rightarrow> result_row list \<Rightarrow> series_point" where
  "point_spec ts rows =
     \<lparr>sp_TS = ts, sp_Checks = int (length rows), sp_Successful = count_up rows,
      sp_UptimePercent = (if rows = [] then 0 else percent_of (count_up rows) (int (length rows))),
      sp_AvgMs = round_avg (sql_avg (latencies rows)),
      sp_P95Ms = (case p95_query (latencies rows) of None \<Rightarrow> 0 | Some v \<Rightarrow> v)\<rparr>"

lemma series_points_closed:
  "series_points from_ts to_ts secs buckets db =
     map (\<lambda>i. point_spec (from_ts + int i * secs) (bucket_rows from_ts to_ts secs buckets db i)) [0..<nat buckets]"
proof (rule nth_equalityI)
  show "length (series_points from_ts to_ts secs buckets db) = length (map (\<lambda>i. point_spec
      (from_ts + int i * secs) (bucket_rows from_ts to_ts secs buckets db i)) [0..<nat buckets])"
    by (simp add: series_points_def Let_def prefill_def)
next
  fix i
  assume "i < length (series_points from_ts to_ts secs buckets db)"
  then have i: "i < nat buckets" by (simp add: series_points_def Let_def prefill_def)
  let ?b = "bucket_of from_ts secs (buckets - 1)"
  let ?W = "window_rows from_ts to_ts db"
  let ?rows = "filter (\<lambda>r. ?b r = int i) ?W"
  let ?p0 = "empty_point (from_ts + int i * secs)"
  let ?p1 = "if ?rows = [] then ?p0 else put_counts ?p0 ?rows"
  have c: "fill put_counts (group_by ?b ?W) (prefill from_ts secs buckets) ! i = ?p1"
    using i by (simp add: fill_group_nth prefill_def)
  have up: "filter (\<lambda>r. ?b r = int i) (filter rr_up ?W) = filter rr_up ?rows"
    by (simp add: conj_commute)
  have p: "series_points from_ts to_ts secs buckets db ! i =
      (if filter rr_up ?rows = [] then ?p1 else put_p95 ?p1 (filter rr_up ?rows))"
    unfolding series_points_def Let_def
    by (subst fill_group_nth) (use i in \<open>simp_all only: c up, simp_all add: prefill_def\<close>)
  have "series_points from_ts to_ts secs buckets db ! i = point_spec (from_ts + int i * secs) ?rows"
  proof (cases "?rows = []")
    case True
    have "filter rr_up ?rows = []" unfolding True by simp
    then show ?thesis unfolding p if_P [OF True] if_P [OF \<open>filter rr_up ?rows = []\<close>] True
      by (simp add: point_spec_def empty_point_def latencies_def count_up_def p95_query_def
          sql_avg_def round_avg_def)
  next
    case False
    then show ?thesis unfolding p
      by (auto simp: point_spec_def put_counts_def put_p95_def empty_point_def Let_def
          latencies_def count_up_def p95_query_def sql_avg_def round_avg_def)
  qed
  then show "series_points from_ts to_ts secs buckets db ! i = map (\<lambda>i. point_spec
      (from_ts + int i * secs) (bucket_rows from_ts to_ts secs buckets db i)) [0..<nat buckets] ! i"
    using i by (simp add: bucket_rows_def)
qed

subsection \<open>No check lost, none counted twice\<close>

lemma sum_list_indicator:
  "sum_list (map (\<lambda>i. if b = int i then 1 else 0) [0..<n]) = (if 0 \<le> b \<and> b < int n then 1 else (0::nat))"
  by (induction n) auto

lemma sum_list_buckets:
  assumes "\<And>r. r \<in> set rows \<Longrightarrow> 0 \<le> b r \<and> b r < int n"
  shows "sum_list (map (\<lambda>i. length (filter (\<lambda>r. b r = int i) rows)) [0..<n]) = length rows"
  using assms
proof (induction rows)
  case Nil
  then show ?case by (induction n) auto
next
  case (Cons r rows)
  have "sum_list (map (\<lambda>i. length (filter (\<lambda>r. b r = int i) (r # rows))) [0..<n]) =
      sum_list (map (\<lambda>i. (if b r = int i then 1 else 0) + length (filter (\<lambda>r. b r = int i) rows)) [0..<n])"
    by (intro arg_cong [where f = sum_list]) auto
  also have "\<dots> = 1 + length rows"
    using Cons by (simp add: sum_list_addf sum_list_indicator)
  finally show ?case by simp
qed

lemma bucket_of_range:
  assumes "from_ts \<le> rr_ts r" "0 < secs" "0 < buckets"
  shows "0 \<le> bucket_of from_ts secs (buckets - 1) r" "bucket_of from_ts secs (buckets - 1) r < buckets"
  using assms by (auto simp: bucket_of_def quot_trunc_nonneg pos_imp_zdiv_nonneg_iff)

lemma sum_list_of_nat: "sum_list (map (\<lambda>i. int (f i)) xs) = int (sum_list (map f xs))"
  by (induction xs) auto

lemma series_points_sums:
  assumes "0 < secs" "0 < buckets"
  shows "sum_list (map sp_Checks (series_points from_ts to_ts secs buckets db)) =
      int (length (window_rows from_ts to_ts db))"
    and "sum_list (map sp_Successful (series_points from_ts to_ts secs buckets db)) =
      count_up (window_rows from_ts to_ts db)"
proof -
  let ?W = "window_rows from_ts to_ts db"
  let ?b = "bucket_of from_ts secs (buckets - 1)"
  have r: "0 \<le> ?b r \<and> ?b r < int (nat buckets)" if "r \<in> set ?W" for r
    using that assms bucket_of_range [of from_ts r secs buckets] by (auto simp: window_rows_def)
  have "sum_list (map (\<lambda>i. length (filter (\<lambda>r. ?b r = int i) ?W)) [0..<nat buckets]) = length ?W"
    by (rule sum_list_buckets) (rule r)
  then show "sum_list (map sp_Checks (series_points from_ts to_ts secs buckets db)) = int (length ?W)"
    by (simp add: series_points_closed point_spec_def bucket_rows_def comp_def sum_list_of_nat)
  have "sum_list (map (\<lambda>i. length (filter (\<lambda>r. ?b r = int i) (filter rr_up ?W))) [0..<nat buckets])
      = length (filter rr_up ?W)"
    by (rule sum_list_buckets) (use r in auto)
  then show "sum_list (map sp_Successful (series_points from_ts to_ts secs buckets db)) = count_up ?W"
    by (simp add: series_points_closed point_spec_def bucket_rows_def comp_def sum_list_of_nat
        count_up_def conj_commute)
qed

lemma clamp_buckets_range: "0 < clamp_buckets n" "clamp_buckets n \<le> MaxSeriesBuckets"
  by (simp_all add: clamp_buckets_def Let_def DefaultSeriesBuckets_def MaxSeriesBuckets_def)

lemma bucket_seconds_pos: "0 < bucket_seconds from_ts to_ts buckets"
  by (simp add: bucket_seconds_def Let_def)

lemma bucket_seconds_covers:
  assumes "from_ts \<le> to_ts" "0 < buckets"
  shows "to_ts \<le> from_ts + buckets * bucket_seconds from_ts to_ts buckets"
proof -
  let ?span = "if to_ts - from_ts < 1 then 1 else to_ts - from_ts"
  have "?span \<le> buckets * ((?span + buckets - 1) div buckets)"
  proof -
    have "?span + buckets - 1 = buckets * ((?span + buckets - 1) div buckets) + (?span + buckets - 1) mod buckets"
      by simp
    moreover have "(?span + buckets - 1) mod buckets \<le> buckets - 1" using assms by simp
    ultimately show ?thesis by linarith
  qed
  moreover have "(?span + buckets - 1) div buckets \<le> bucket_seconds from_ts to_ts buckets"
    using assms quot_trunc_nonneg [of "?span + buckets - 1" buckets]
    unfolding bucket_seconds_def Let_def by auto
  then have "buckets * ((?span + buckets - 1) div buckets) \<le> buckets * bucket_seconds from_ts to_ts buckets"
    using assms by (intro mult_left_mono) auto
  ultimately have "?span \<le> buckets * bucket_seconds from_ts to_ts buckets" by (rule order_trans)
  with assms show ?thesis by (auto split: if_splits)
qed

lemma min_ts_None: "min_ts rows = None \<longleftrightarrow> rows = []"
  by (cases rows) (auto simp: min_ts_def)

text \<open>
  A chart shows every check of its window exactly once: over the points of a series the
  checks add up to the number of results between \<open>from\<close> and \<open>to\<close>, and the successful ones
  to the successful results; whatever the bucket count asked for.
\<close>

theorem series_conserves_checks:
  "let s = site_series now window since n db;
       rows = filter (\<lambda>r. sr_From s \<le> rr_ts r \<and> rr_ts r \<le> sr_To s) (db_results db)
   in sum_list (map sp_Checks (sr_Points s)) = int (length rows) \<and>
      sum_list (map sp_Successful (sr_Points s)) = int (length (filter rr_up rows))"
proof (cases "if since \<le> 0 then min_ts (db_results db) else Some since")
  case None
  then have "db_results db = []" by (simp add: min_ts_None split: if_splits)
  with None show ?thesis by (simp add: site_series_def Let_def)
next
  case (Some t)
  then show ?thesis
    by (simp add: site_series_def Let_def series_points_sums bucket_seconds_pos clamp_buckets_range
        window_rows_def count_up_def)
qed

text \<open>
  C35: the two grouped queries and the loops that write their rows into the prefilled slice
  give, for every bucket, the figures of exactly the rows that fall into it; an empty bucket
  keeps its zero point.  Only an "all" window over no results has no points.
\<close>

theorem series_points_per_bucket:
  "let s = site_series now window since n db; k = clamp_buckets n in
   sr_Points s =
     (if since \<le> 0 \<and> db_results db = [] then []
      else map (\<lambda>i. point_spec (sr_From s + int i * sr_BucketSeconds s)
             (bucket_rows (sr_From s) (sr_To s) (sr_BucketSeconds s) k db i)) [0..<nat k])"
  by (auto simp: site_series_def Let_def series_points_closed min_ts_None min_ts_def [of "[]"] split: option.splits)

text \<open>
  The points of a series cover its window: their number stays within the maximum, they
  are \<open>bucket_seconds\<close> apart, starting at \<open>from\<close>, and the last bucket ends at or after \<open>to\<close>.
\<close>

theorem series_covers_window:
  "let s = site_series now window since n db in
   sr_To s = now \<and> sr_From s \<le> now \<and> 1 \<le> sr_BucketSeconds s \<and>
   map sp_TS (sr_Points s) = map (\<lambda>i. sr_From s + int i * sr_BucketSeconds s) [0..<length (sr_Points s)] \<and>
   (if sr_Points s = [] then since \<le> 0 \<and> db_results db = []
    else int (length (sr_Points s)) = clamp_buckets n \<and> clamp_buckets n \<le> 1000 \<and>
      now \<le> sr_From s + clamp_buckets n * sr_BucketSeconds s)"
proof (cases "if since \<le> 0 then min_ts (db_results db) else Some since")
  case None
  then show ?thesis by (simp add: site_series_def Let_def min_ts_None split: if_splits)
next
  case (Some t)
  have "clamp_buckets n \<le> 1000" "0 < clamp_buckets n"
    using clamp_buckets_range [of n] by (simp_all add: MaxSeriesBuckets_def)
  with Some bucket_seconds_covers [of "if t > now then now else t" now "clamp_buckets n"]
    bucket_seconds_pos [of "if t > now then now else t" now "clamp_buckets n"]
  show ?thesis
    by (auto simp: site_series_def Let_def series_points_closed point_spec_def comp_def)
qed

subsection \<open>The percentile of a bucket\<close>

lemma foldl_max_sorted: "sorted (y # ys) \<Longrightarrow> foldl max y ys = last (y # ys)" for y :: int
  by (induction ys arbitrary: y) (auto simp: max_def)

lemma p95_query_nth:
  assumes "xs \<noteq> []"
  shows "p95_query xs = Some (sort xs ! (p95_cut (length xs) - 1))"
proof -
  let ?n = "length xs" and ?c = "p95_cut (length xs)"
  have c: "0 < ?c" "?c \<le> ?n" using assms by (auto simp: p95_cut_def Suc_le_eq)
  let ?t = "take ?c (sort xs)"
  obtain y ys where t: "?t = y # ys" using c assms by (cases ?t) (auto simp flip: length_0_conv)
  have "sorted ?t" by (simp add: sorted_wrt_take)
  then have "foldl max y ys = last ?t" unfolding t by (rule foldl_max_sorted)
  also have "\<dots> = ?t ! (length ?t - 1)" unfolding t by (simp only: last_conv_nth list.distinct not_False_eq_True)
  also have "\<dots> = sort xs ! (?c - 1)" using c by simp
  finally show ?thesis by (simp add: p95_query_def t)
qed

lemma p95_cut_less: "2 \<le> n \<Longrightarrow> p95_cut n < n"
  by (simp add: p95_cut_def)

text \<open>
  A point of the series carries the 95th percentile of its bucket's successful latencies:
  0 without any, else the value at rank \<open>max 1 (n * 95 div 100)\<close> in increasing order.  From
  two checks on, at least one latency of the bucket is not below it besides the value itself,
  so one slow check never sets the figure alone.
\<close>

theorem series_p95_order_statistic:
  "let v = sp_P95Ms (put_p95 p rows); xs = map rr_response_ms rows; n = length xs; k = p95_cut n in
   (if xs = [] then v = 0
    else 0 < k \<and> k \<le> n \<and> (if n \<ge> 2 then k < n else k = 1) \<and> v \<in> set xs \<and>
      k \<le> length (filter (\<lambda>x. x \<le> v) xs) \<and> n - k < length (filter (\<lambda>x. v \<le> x) xs))"
proof (cases "rows = []")
  case True
  then show ?thesis by (simp add: put_p95_def Let_def p95_query_def)
next
  case False
  define xs where "xs = map rr_response_ms rows"
  define k where "k = p95_cut (length xs)"
  have ne: "xs \<noteq> []" using False by (simp add: xs_def)
  have k: "0 < k" "k \<le> length xs" using ne by (auto simp: k_def p95_cut_def Suc_le_eq)
  have v: "sp_P95Ms (put_p95 p rows) = sort xs ! (k - 1)"
    using ne by (simp add: put_p95_def p95_query_nth k_def flip: xs_def)
  have l: "k - 1 < length (sort xs)" using k by simp
  then have "sort xs ! (k - 1) \<in> set (sort xs)" by (rule nth_mem)
  moreover have "if length xs \<ge> 2 then p95_cut (length xs) < length xs else p95_cut (length xs) = 1"
    using k p95_cut_less [of "length xs"] by (auto simp: k_def)
  moreover have "k \<le> length (filter (\<lambda>x. x \<le> sort xs ! (k - 1)) (sort xs))"
    using filter_ge_iff_take(1) [OF sorted_sort l] k by simp
  moreover have "length xs - k < length (filter (\<lambda>x. sort xs ! (k - 1) \<le> x) (sort xs))"
    using filter_ge_iff_take(2) [OF sorted_sort l] k by simp
  ultimately show ?thesis using ne k
    by (simp add: length_filter_sort Let_def v split del: if_split flip: xs_def k_def)
qed

text \<open>
  The two 95th percentiles of the program use different ranks: \<open>Metrics\<close> takes the element at
  index \<open>n * 95 / 100\<close>, the series the one before it.  Twenty checks of 1 to 20 milliseconds
  show it.
\<close>

definition twenty_checks :: site_db where
  "twenty_checks = (fresh_site_db 0)\<lparr>db_results := map (\<lambda>i. \<lparr>rr_id = int i, rr_ts = 100, rr_up = True,
     rr_status_code = 200, rr_response_ms = int i, rr_failed_checks = None, rr_error = None\<rparr>) [1..<21]\<rparr>"

lemma p95_of_metrics_and_series_differ:
  "me_P95Ms (site_metrics window 50 twenty_checks) = 20 \<and>
   map sp_P95Ms (sr_Points (site_series 100 window 50 1 twenty_checks)) = [19]"
  by code_simp

end
