(* ===== verification/Url.thy ===== *)
theory Url
  imports Prelude
begin

section \<open>The parts of net/url that the program uses\<close>

text \<open>
  \<open>config.Validate\<close> and the CORS origin list rest on \<open>url.Parse\<close> of Go's standard library
  (Go 1.22, the version of go.mod).  The definitions follow that function: the fragment is
  cut, control bytes are refused, the scheme is split off, then authority, path and query.
  User information is kept as the pair of decoded user name and password.
\<close>

record url =
  u_Scheme :: string
  u_Opaque :: string
  u_Host :: string
  u_User :: "(string \<times> string) option"
  u_Path :: string
  u_RawQuery :: string
  u_Fragment :: string

subsection \<open>Byte classes\<close>

definition is_alpha :: "char \<Rightarrow> bool" where
  "is_alpha c \<longleftrightarrow> is_upper c \<or> is_lower c"

definition is_alnum :: "char \<Rightarrow> bool" where
  "is_alnum c \<longleftrightarrow> is_alpha c \<or> is_digit c"

definition is_hex :: "char \<Rightarrow> bool" where
  "is_hex c \<longleftrightarrow> is_digit c \<or> (97 \<le> byte c \<and> byte c \<le> 102) \<or> (65 \<le> byte c \<and> byte c \<le> 70)"

definition unhex :: "char \<Rightarrow> nat" where
  "unhex c = (if is_digit c then byte c - 48
     else if 97 \<le> byte c \<and> byte c \<le> 102 then byte c - 87
     else if 65 \<le> byte c \<and> byte c \<le> 70 then byte c - 55 else 0)"

definition is_ctl :: "char \<Rightarrow> bool" where
  "is_ctl c \<longleftrightarrow> byte c < 32 \<or> byte c = 127"

text \<open>The ASCII bytes \<open>shouldEscape\<close> lets stand in a host; code 39 is the apostrophe.\<close>

definition host_char :: "char \<Rightarrow> bool" where
  "host_char c \<longleftrightarrow> is_alnum c \<or> c \<in> set ''!$&()*+,;=:[]<>-_.~'' \<or> byte c = 39 \<or> byte c = 34"

definition userinfo_char :: "char \<Rightarrow> bool" where
  "userinfo_char c \<longleftrightarrow> is_alnum c \<or> c \<in> set ''-._:~!$&()*+,;=%@'' \<or> byte c = 39"

lemmas [byte_defs] = is_alpha_def is_alnum_def is_hex_def is_ctl_def host_char_def userinfo_char_def

subsection \<open>Cutting strings\<close>

text \<open>\<open>strings.Cut\<close> at one byte: the text before and after its first occurrence.\<close>

definition str_cut :: "char \<Rightarrow> string \<Rightarrow> string \<times> string" where
  "str_cut d s = (takeWhile (\<lambda>c. c \<noteq> d) s, tl (dropWhile (\<lambda>c. c \<noteq> d) s))"

text \<open>The text before and after the last occurrence, if there is one (\<open>strings.LastIndex\<close>).\<close>

definition cut_last :: "char \<Rightarrow> string \<Rightarrow> (string \<times> string) option" where
  "cut_last d s = (if d \<in> set s
     then Some (rev (tl (dropWhile (\<lambda>c. c \<noteq> d) (rev s))), rev (takeWhile (\<lambda>c. c \<noteq> d) (rev s)))
     else None)"

text \<open>The text before the first occurrence of a substring and the text from it on.\<close>

fun split_at_sub :: "string \<Rightarrow> string \<Rightarrow> (string \<times> string) option" where
  "split_at_sub p [] = (if p = [] then Some ([], []) else None)"
| "split_at_sub p (c # cs) =
     (if has_prefix p (c # cs) then Some ([], c # cs)
      else map_option (\<lambda>(a, b). (c # a, b)) (split_at_sub p cs))"

subsection \<open>Percent decoding\<close>

datatype unescape_mode = Encode_path | Encode_host | Encode_zone

text \<open>\<open>unescape\<close>; \<open>None\<close> is an \<open>EscapeError\<close> or \<open>InvalidHostError\<close>.\<close>

fun unescape :: "unescape_mode \<Rightarrow> string \<Rightarrow> string option" where
  "unescape m [] = Some []"
| "unescape m (c # cs) =
     (if c = CHR ''%'' then
        (case cs of
           a # b # rest \<Rightarrow>
             if \<not> is_hex a \<or> \<not> is_hex b then None
             else let v = unhex a * 16 + unhex b; percent = (a = CHR ''2'' \<and> b = CHR ''5'') in
               if m = Encode_host \<and> unhex a < 8 \<and> \<not> percent then None
               else if m = Encode_zone \<and> \<not> percent \<and> v \<noteq> 32 \<and> \<not> host_char (char_of v) then None
               else map_option (\<lambda>r. char_of v # r) (unescape m rest)
         | _ \<Rightarrow> None)
      else if m \<noteq> Encode_path \<and> byte c < 128 \<and> \<not> host_char c then None
      else map_option (\<lambda>r. c # r) (unescape m cs))"

subsection \<open>Parsing\<close>

text \<open>\<open>getScheme\<close>: \<open>None\<close> is "missing protocol scheme"; no scheme leaves the whole as rest.\<close>

fun get_scheme_from :: "string \<Rightarrow> string \<Rightarrow> string \<Rightarrow> (string \<times> string) option" where
  "get_scheme_from raw seen [] = Some ([], raw)"
| "get_scheme_from raw seen (c # cs) =
     (if is_alpha c then get_scheme_from raw (seen @ [c]) cs
      else if is_digit c \<or> c \<in> set ''+-.'' then
        (if seen = [] then Some ([], raw) else get_scheme_from raw (seen @ [c]) cs)
      else if c = CHR '':'' then (if seen = [] then None else Some (seen, cs))
      else Some ([], raw))"

definition get_scheme :: "string \<Rightarrow> (string \<times> string) option" where
  "get_scheme raw = get_scheme_from raw [] raw"

definition valid_optional_port :: "string \<Rightarrow> bool" where
  "valid_optional_port p \<longleftrightarrow> p = [] \<or> (hd p = CHR '':'' \<and> list_all is_digit (tl p))"

definition parse_host :: "string \<Rightarrow> string option" where
  "parse_host host =
     (if has_prefix ''['' host then
        (case cut_last (CHR '']'') host of
           None \<Rightarrow> None
         | Some (inner, after) \<Rightarrow>
             if \<not> valid_optional_port after then None
             else case split_at_sub ''%25'' inner of
               None \<Rightarrow> unescape Encode_host host
             | Some (h1, zone) \<Rightarrow>
                 Option.bind (unescape Encode_host h1) (\<lambda>a.
                 Option.bind (unescape Encode_zone zone) (\<lambda>b.
                 Option.bind (unescape Encode_host (CHR '']'' # after)) (\<lambda>c. Some (a @ b @ c)))))
      else case cut_last (CHR '':'') host of
          None \<Rightarrow> unescape Encode_host host
        | Some (_, port) \<Rightarrow>
            if \<not> valid_optional_port (CHR '':'' # port) then None else unescape Encode_host host)"

text \<open>\<open>parseAuthority\<close>: the user information, if any, and the host.\<close>

definition parse_authority :: "string \<Rightarrow> ((string \<times> string) option \<times> string) option" where
  "parse_authority authority =
     (case cut_last (CHR ''@'') authority of
        None \<Rightarrow> map_option (\<lambda>h. (None, h)) (parse_host authority)
      | Some (userinfo, rest) \<Rightarrow>
          Option.bind (parse_host rest) (\<lambda>h.
            if \<not> list_all userinfo_char userinfo then None
            else let (user, pass) = str_cut (CHR '':'') userinfo in
              Option.bind (unescape Encode_path user) (\<lambda>u.
              Option.bind (unescape Encode_path pass) (\<lambda>p. Some (Some (u, p), h)))))"

definition split_query :: "string \<Rightarrow> string \<times> string" where
  "split_query rest =
     (if rest \<noteq> [] \<and> last rest = CHR ''?'' \<and> count_list rest (CHR ''?'') = 1
      then (butlast rest, []) else str_cut (CHR ''?'') rest)"

definition has_authority :: "string \<Rightarrow> string \<Rightarrow> bool" where
  "has_authority scheme rest \<longleftrightarrow>
     (scheme \<noteq> [] \<or> \<not> has_prefix ''///'' rest) \<and> has_prefix ''//'' rest"

definition parse_hier :: "url \<Rightarrow> string \<Rightarrow> url option" where
  "parse_hier u rest =
     (if has_authority (u_Scheme u) rest then
        Option.bind (parse_authority (takeWhile (\<lambda>c. c \<noteq> CHR ''/'') (drop 2 rest))) (\<lambda>a.
        map_option (\<lambda>p. u\<lparr>u_Host := snd a, u_User := fst a, u_Path := p\<rparr>)
          (unescape Encode_path (dropWhile (\<lambda>c. c \<noteq> CHR ''/'') (drop 2 rest))))
      else map_option (\<lambda>p. u\<lparr>u_Path := p\<rparr>) (unescape Encode_path rest))"

definition url_of :: "string \<Rightarrow> string \<Rightarrow> url" where
  "url_of scheme query = \<lparr>u_Scheme = scheme, u_Opaque = [], u_Host = [], u_User = None,
     u_Path = [], u_RawQuery = query, u_Fragment = []\<rparr>"

definition parse_rest :: "string \<Rightarrow> string \<Rightarrow> url option" where
  "parse_rest scheme whole =
     (let rest = fst (split_query whole); u = url_of scheme (snd (split_query whole))
      in if \<not> has_prefix ''/'' rest \<and> scheme \<noteq> [] then Some (u\<lparr>u_Opaque := rest\<rparr>)
         else if \<not> has_prefix ''/'' rest \<and> CHR '':'' \<in> set (fst (str_cut (CHR ''/'') rest)) then None
         else parse_hier u rest)"

definition parse_no_fragment :: "string \<Rightarrow> url option" where
  "parse_no_fragment raw =
     (if list_ex is_ctl raw then None
      else if raw = ''*'' then Some ((url_of [] [])\<lparr>u_Path := ''*''\<rparr>)
      else Option.bind (get_scheme raw) (\<lambda>(scheme, rest). parse_rest (to_lower scheme) rest))"

definition url_parse :: "string \<Rightarrow> url option" where
  "url_parse raw =
     (let (body, frag) = str_cut (CHR ''#'') raw in
      Option.bind (parse_no_fragment body) (\<lambda>u.
        if frag = [] then Some u
        else map_option (\<lambda>f. u\<lparr>u_Fragment := f\<rparr>) (unescape Encode_path frag)))"

text \<open>\<open>URL.Hostname\<close>: the host without its port and without the brackets of an IPv6 literal.\<close>

definition url_hostname :: "url \<Rightarrow> string" where
  "url_hostname u =
     (let host = (case cut_last (CHR '':'') (u_Host u) of
            Some (h, p) \<Rightarrow> if valid_optional_port (CHR '':'' # p) then h else u_Host u
          | None \<Rightarrow> u_Host u)
      in if has_prefix ''['' host \<and> host \<noteq> [] \<and> last host = CHR '']'' \<and> 2 \<le> length host
         then butlast (tl host) else host)"

subsection \<open>Laws\<close>

lemma cut_no_sep: "d \<notin> set (fst (str_cut d s))"
  by (auto simp: str_cut_def dest: set_takeWhileD)

lemma cut_prefix: "\<exists>rest. s = fst (str_cut d s) @ rest"
  by (metis str_cut_def fst_conv takeWhile_dropWhile_id)

lemma get_scheme_from_prefix:
  "get_scheme_from raw seen s = Some (scheme, rest) \<Longrightarrow> scheme \<noteq> [] \<Longrightarrow> seen @ s = scheme @ CHR '':'' # rest"
  by (induction raw seen s rule: get_scheme_from.induct) (auto split: if_splits)

lemma get_scheme_prefix:
  "get_scheme raw = Some (scheme, rest) \<Longrightarrow> scheme \<noteq> [] \<Longrightarrow> raw = scheme @ CHR '':'' # rest"
  unfolding get_scheme_def by (drule get_scheme_from_prefix) simp_all

lemma url_of_simps [simp]:
  "u_Scheme (url_of s q) = s" "u_Host (url_of s q) = []" "u_Path (url_of s q) = []"
  by (simp_all add: url_of_def)

lemma parse_hier_scheme: "parse_hier u rest = Some v \<Longrightarrow> u_Scheme v = u_Scheme u"
  by (auto simp: parse_hier_def bind_eq_Some_conv split: if_splits)

lemma parse_rest_scheme: "parse_rest scheme rest = Some u \<Longrightarrow> u_Scheme u = scheme"
  by (auto simp: parse_rest_def Let_def dest: parse_hier_scheme split: if_splits)

lemma parse_no_fragment_scheme:
  assumes "parse_no_fragment raw = Some u" "u_Scheme u \<noteq> []"
  shows "\<exists>rest. to_lower raw = u_Scheme u @ CHR '':'' # rest"
proof -
  from assms obtain scheme rest where g: "get_scheme raw = Some (scheme, rest)"
      and p: "parse_rest (to_lower scheme) rest = Some u"
    by (auto simp: parse_no_fragment_def bind_eq_Some_conv to_lower_def split: if_splits)
  from p have s: "u_Scheme u = to_lower scheme" by (rule parse_rest_scheme)
  with assms(2) have "scheme \<noteq> []" by (auto simp: to_lower_def)
  with g have "raw = scheme @ CHR '':'' # rest" by (rule get_scheme_prefix)
  then show ?thesis by (simp add: s to_lower_def lower_char_def byte_defs)
qed

text \<open>A parsed URL with a scheme starts with that scheme and a colon, up to case.\<close>

lemma url_parse_scheme:
  assumes "url_parse raw = Some u" "u_Scheme u \<noteq> []"
  shows "\<exists>rest. to_lower raw = u_Scheme u @ CHR '':'' # rest"
proof -
  from assms(1) obtain v where v: "parse_no_fragment (fst (str_cut (CHR ''#'') raw)) = Some v"
      and "u_Scheme u = u_Scheme v"
    by (auto simp: url_parse_def bind_eq_Some_conv split: prod.splits if_splits)
  with assms(2) parse_no_fragment_scheme [OF v]
  obtain rest where "to_lower (fst (str_cut (CHR ''#'') raw)) = u_Scheme u @ CHR '':'' # rest" by auto
  moreover obtain more where "raw = fst (str_cut (CHR ''#'') raw) @ more" using cut_prefix by blast
  ultimately have "to_lower raw = (u_Scheme u @ CHR '':'' # rest) @ to_lower more"
    by (metis map_append to_lower_def)
  then show ?thesis by auto
qed

end
