(* ===== verification/Config.thy ===== *)
theory Config
  imports Url
begin

section \<open>Site configurations (internal/config/config.go)\<close>

text \<open>
  The records of a monitored site, \<open>ApplyDefaults\<close>, \<open>Validate\<close> and \<open>Slugify\<close>.  The two
  regular expressions become list functions: \<open>is_slug\<close> for \<open>slugRe\<close>, whose matches are
  non-empty words of letters and digits joined by single hyphens, and \<open>replace_runs\<close> for
  \<open>nonSlugChar.ReplaceAllString\<close>.
\<close>

subsection \<open>Records\<close>

record http_check =
  hc_Enabled :: bool
  hc_ExpectStatus :: "int list"

record latency_check =
  lc_Enabled :: bool
  lc_MaxMs :: int

record content_check =
  cc_Enabled :: bool
  cc_MustContain :: "string list"
  cc_MustNotContain :: "string list"

record ssl_check =
  sl_Enabled :: bool
  sl_WarnDays :: int

record checks_config =
  ck_HTTP :: http_check
  ck_Latency :: latency_check
  ck_Content :: content_check
  ck_SSL :: ssl_check
  ck_DNS :: bool

record site_config =
  sc_ID :: string
  sc_Name :: string
  sc_URL :: string
  sc_IntervalSeconds :: int
  sc_SlowIntervalSeconds :: int
  sc_Enabled :: bool
  sc_Checks :: checks_config
  sc_CreatedAt :: unix
  sc_UpdatedAt :: unix
  sc_APIKeyHash :: string

definition no_checks :: checks_config where
  "no_checks = \<lparr>ck_HTTP = \<lparr>hc_Enabled = False, hc_ExpectStatus = []\<rparr>,
     ck_Latency = \<lparr>lc_Enabled = False, lc_MaxMs = 0\<rparr>,
     ck_Content = \<lparr>cc_Enabled = False, cc_MustContain = [], cc_MustNotContain = []\<rparr>,
     ck_SSL = \<lparr>sl_Enabled = False, sl_WarnDays = 0\<rparr>, ck_DNS = False\<rparr>"

definition DefaultIntervalSeconds :: int where "DefaultIntervalSeconds = 60"
definition DefaultSlowIntervalSeconds :: int where "DefaultSlowIntervalSeconds = 3600"
definition MinIntervalSeconds :: int where "MinIntervalSeconds = 5"
definition MaxIntervalSeconds :: int where "MaxIntervalSeconds = 86400"
definition DefaultSSLWarnDays :: int where "DefaultSSLWarnDays = 14"

lemmas config_consts = DefaultIntervalSeconds_def DefaultSlowIntervalSeconds_def
  MinIntervalSeconds_def MaxIntervalSeconds_def DefaultSSLWarnDays_def

subsection \<open>Slugs\<close>

definition slug_char :: "char \<Rightarrow> bool" where
  "slug_char c \<longleftrightarrow> is_lower c \<or> is_digit c"

definition is_slug :: "string \<Rightarrow> bool" where
  "is_slug s \<longleftrightarrow> list_all (\<lambda>w. w \<noteq> [] \<and> list_all slug_char w) (split_on (CHR ''-'') s)"

text \<open>The flag says that the byte before was replaced as part of the same run.\<close>

fun replace_runs :: "bool \<Rightarrow> string \<Rightarrow> string" where
  "replace_runs in_run [] = []"
| "replace_runs in_run (c # cs) =
     (if slug_char c then c # replace_runs False cs
      else if in_run then replace_runs True cs
      else CHR ''-'' # replace_runs True cs)"

definition slugify :: "string \<Rightarrow> string" where
  "slugify s =
     (let s = to_lower (trim_space s);
          s = replace_runs False s
      in trim_by (\<lambda>c. c = CHR ''-'') s)"

subsection \<open>Defaults and validation\<close>

text \<open>The four \<open>if\<close> statements of \<open>ApplyDefaults\<close>, in order.\<close>

definition default_interval :: "site_config \<Rightarrow> site_config" where
  "default_interval s =
     (if sc_IntervalSeconds s = 0 then s\<lparr>sc_IntervalSeconds := DefaultIntervalSeconds\<rparr> else s)"

definition default_slow_interval :: "site_config \<Rightarrow> site_config" where
  "default_slow_interval s =
     (if sc_SlowIntervalSeconds s = 0 then s\<lparr>sc_SlowIntervalSeconds := DefaultSlowIntervalSeconds\<rparr> else s)"

definition default_warn_days :: "site_config \<Rightarrow> site_config" where
  "default_warn_days s =
     (let ssl = ck_SSL (sc_Checks s) in
      if sl_Enabled ssl \<and> sl_WarnDays ssl = 0
      then s\<lparr>sc_Checks := (sc_Checks s)\<lparr>ck_SSL := ssl\<lparr>sl_WarnDays := DefaultSSLWarnDays\<rparr>\<rparr>\<rparr> else s)"

definition default_id :: "site_config \<Rightarrow> site_config" where
  "default_id s =
     (if sc_ID s = [] then
        (let s = s\<lparr>sc_ID := slugify (sc_Name s)\<rparr>
         in if sc_ID s = [] then s\<lparr>sc_ID := slugify (sc_URL s)\<rparr> else s)
      else s)"

definition apply_defaults :: "site_config \<Rightarrow> site_config" where
  "apply_defaults s = default_id (default_warn_days (default_slow_interval (default_interval s)))"

lemmas default_defs = apply_defaults_def default_id_def default_warn_days_def
  default_slow_interval_def default_interval_def Let_def

datatype config_error =
  Url_required | Invalid_url | Bad_scheme | No_host | Interval_too_small | Interval_too_large
  | Slow_too_small | Slow_too_large | Negative_latency | Negative_warn_days | No_id | Bad_slug

definition validate :: "site_config \<Rightarrow> config_error option" where
  "validate s =
     (if trim_space (sc_URL s) = [] then Some Url_required
      else case url_parse (sc_URL s) of
        None \<Rightarrow> Some Invalid_url
      | Some u \<Rightarrow>
          if u_Scheme u \<noteq> ''http'' \<and> u_Scheme u \<noteq> ''https'' then Some Bad_scheme
          else if u_Host u = [] then Some No_host
          else if sc_IntervalSeconds s < MinIntervalSeconds then Some Interval_too_small
          else if sc_IntervalSeconds s > MaxIntervalSeconds then Some Interval_too_large
          else if sc_SlowIntervalSeconds s < sc_IntervalSeconds s then Some Slow_too_small
          else if sc_SlowIntervalSeconds s > MaxIntervalSeconds then Some Slow_too_large
          else if lc_MaxMs (ck_Latency (sc_Checks s)) < 0 then Some Negative_latency
          else if sl_WarnDays (ck_SSL (sc_Checks s)) < 0 then Some Negative_warn_days
          else if sc_ID s = [] then Some No_id
          else if \<not> is_slug (sc_ID s) then Some Bad_slug
          else None)"

definition site_host :: "site_config \<Rightarrow> string" where
  "site_host s = (case url_parse (sc_URL s) of None \<Rightarrow> [] | Some u \<Rightarrow> url_hostname u)"

definition is_https :: "site_config \<Rightarrow> bool" where
  "is_https s \<longleftrightarrow> has_prefix ''https://'' (to_lower (sc_URL s))"

text \<open>
  \<open>HashAPIKey\<close>: \<open>sha256\<close> stands for the hash function, hex encoding is written out.
\<close>

definition hex_digit :: "nat \<Rightarrow> char" where
  "hex_digit n = ''0123456789abcdef'' ! n"

definition hex_encode :: "string \<Rightarrow> string" where
  "hex_encode bs = concat (map (\<lambda>c. [hex_digit (byte c div 16), hex_digit (byte c mod 16)]) bs)"

definition hash_api_key :: "(string \<Rightarrow> string) \<Rightarrow> string \<Rightarrow> string" where
  "hash_api_key sha256 key = hex_encode (sha256 key)"

text \<open>What a client sees of a site: \<open>MarshalJSON\<close> drops the hash and adds \<open>has_api_key\<close>.\<close>

record site_view =
  sv_Site :: site_config
  sv_HasAPIKey :: bool

definition marshal_site :: "site_config \<Rightarrow> site_view" where
  "marshal_site s = \<lparr>sv_Site = s\<lparr>sc_APIKeyHash := []\<rparr>, sv_HasAPIKey = (sc_APIKeyHash s \<noteq> [])\<rparr>"

subsection \<open>Slugs: laws\<close>

abbreviation dash :: char where "dash \<equiv> CHR ''-''"

lemma slug_char_dash [simp]: "\<not> slug_char dash"
  by (simp add: slug_char_def byte_defs)

lemma slug_char_not_upper: "slug_char c \<Longrightarrow> \<not> is_upper c \<and> \<not> is_space c \<and> c \<noteq> CHR '':''"
  by (auto simp: slug_char_def byte_defs)

text \<open>\<open>slugRe\<close> in terms of adjacent bytes.\<close>

definition no_double_dash :: "string \<Rightarrow> bool" where
  "no_double_dash s = successively (\<lambda>a b. \<not> (a = dash \<and> b = dash)) s"

lemma no_double_dash_simps [simp]:
  "no_double_dash []"
  "no_double_dash (c # cs) \<longleftrightarrow> no_double_dash cs \<and> \<not> (c = dash \<and> cs \<noteq> [] \<and> hd cs = dash)"
  by (cases cs; auto simp: no_double_dash_def)+

lemma split_dash_nonempty:
  "list_all (\<lambda>w. w \<noteq> []) (split_on dash s) \<longleftrightarrow>
     s \<noteq> [] \<and> hd s \<noteq> dash \<and> list_all (\<lambda>w. w \<noteq> []) (tl (split_on dash s))"
  by (cases s) (auto split: list.splits)

lemma split_dash_tails:
  "list_all (\<lambda>w. w \<noteq> []) (tl (split_on dash s)) \<longleftrightarrow> (s = [] \<or> last s \<noteq> dash) \<and> no_double_dash s"
proof (induction s)
  case Nil
  then show ?case by simp
next
  case (Cons c cs)
  show ?case
  proof (cases "c = dash")
    case True
    then show ?thesis
      using Cons split_dash_nonempty [of cs] by auto
  next
    case False
    obtain w ws where w: "split_on dash cs = w # ws" by (meson list.exhaust split_on_nonempty)
    with False Cons show ?thesis by auto
  qed
qed

lemma split_dash_chars:
  "list_all (list_all slug_char) (split_on dash s) \<longleftrightarrow> list_all (\<lambda>c. slug_char c \<or> c = dash) s"
  by (induction s) (auto split: list.splits)

lemma is_slug_iff:
  "is_slug s \<longleftrightarrow> s \<noteq> [] \<and> hd s \<noteq> dash \<and> last s \<noteq> dash \<and> no_double_dash s \<and>
     list_all (\<lambda>c. slug_char c \<or> c = dash) s"
proof -
  have "is_slug s \<longleftrightarrow> list_all (\<lambda>w. w \<noteq> []) (split_on dash s) \<and> list_all (list_all slug_char) (split_on dash s)"
    by (auto simp: is_slug_def list_all_iff)
  then show ?thesis by (auto simp: split_dash_nonempty split_dash_tails split_dash_chars)
qed

lemma slug_no_colon: "is_slug s \<Longrightarrow> CHR '':'' \<notin> set s"
  using slug_char_not_upper by (auto simp: is_slug_iff list_all_iff)

lemma replace_runs_chars: "list_all (\<lambda>c. slug_char c \<or> c = dash) (replace_runs b s)"
  by (induction b s rule: replace_runs.induct) auto

lemma replace_runs_hd: "replace_runs True s \<noteq> [] \<Longrightarrow> hd (replace_runs True s) \<noteq> dash"
  by (induction s) (auto simp: slug_char_def byte_defs split: if_splits)

lemma replace_runs_no_double: "no_double_dash (replace_runs b s)"
proof (induction b s rule: replace_runs.induct)
  case (2 b c cs)
  have "c \<noteq> dash" if "slug_char c" using that by auto
  with 2 show ?case using replace_runs_hd [of cs] by auto
qed simp

lemma replace_runs_slug_chars: "filter slug_char (replace_runs b s) = filter slug_char s"
  by (induction b s rule: replace_runs.induct) auto

lemma successively_trim_by:
  assumes "successively R s"
  shows "successively R (trim_by p s)"
proof -
  have d: "successively R (dropWhile p t)" if "successively R t" for R and t :: string
    using that by (induction t rule: induct_list012) auto
  then have "successively (\<lambda>a b. R b a) (dropWhile p (rev (dropWhile p s)))"
    using assms by (simp add: successively_rev)
  then show ?thesis by (simp add: trim_by_def successively_rev)
qed

lemma slugify_is_slug: "slugify s \<noteq> [] \<Longrightarrow> is_slug (slugify s)"
proof -
  assume ne: "slugify s \<noteq> []"
  define r where "r = replace_runs False (to_lower (trim_space s))"
  have t: "slugify s = trim_by (\<lambda>c. c = dash) r" by (simp add: slugify_def r_def)
  have "no_double_dash (slugify s)"
    using replace_runs_no_double unfolding t r_def no_double_dash_def by (rule successively_trim_by)
  moreover have "list_all (\<lambda>c. slug_char c \<or> c = dash) (slugify s)"
    using replace_runs_chars [of False "to_lower (trim_space s)"] set_trim_by [of "\<lambda>c. c = dash" r]
    unfolding t r_def by (auto simp: list_all_iff)
  moreover have "hd (slugify s) \<noteq> dash" "last (slugify s) \<noteq> dash"
    using ne trim_by_no_left [of "\<lambda>c. c = dash" r] trim_by_no_right [of "\<lambda>c. c = dash" r] t by auto
  ultimately show ?thesis using ne by (simp add: is_slug_iff)
qed

lemma trim_by_slug_chars:
  "(\<And>c. slug_char c \<Longrightarrow> \<not> p c) \<Longrightarrow> filter slug_char (trim_by p s) = filter slug_char s"
proof -
  assume h: "\<And>c. slug_char c \<Longrightarrow> \<not> p c"
  have d: "filter slug_char (dropWhile p t) = filter slug_char t" for t
    using h by (induction t) auto
  show ?thesis by (simp add: trim_by_def d flip: rev_filter)
qed

text \<open>Slugifying keeps exactly the letters and digits, lower-cased.\<close>

lemma slugify_chars: "filter slug_char (slugify s) = filter slug_char (to_lower s)"
proof -
  have "filter slug_char (slugify s) = filter slug_char (to_lower (trim_space s))"
    unfolding slugify_def Let_def
    by (subst trim_by_slug_chars) (auto simp: replace_runs_slug_chars)
  also have "\<dots> = filter slug_char (trim_space (to_lower s))" by (simp add: trim_space_to_lower)
  also have "\<dots> = filter slug_char (to_lower s)"
    unfolding trim_space_def by (rule trim_by_slug_chars) (simp add: slug_char_not_upper)
  finally show ?thesis .
qed

lemma replace_runs_fixed:
  "no_double_dash s \<Longrightarrow> list_all (\<lambda>c. slug_char c \<or> c = dash) s \<Longrightarrow> (b \<Longrightarrow> s = [] \<or> hd s \<noteq> dash) \<Longrightarrow>
   replace_runs b s = s"
  by (induction b s rule: replace_runs.induct) auto

lemma slugify_fixed: "is_slug s \<Longrightarrow> slugify s = s"
proof -
  assume s: "is_slug s"
  have "\<not> is_upper dash" "\<not> is_space dash" by (simp_all add: byte_defs)
  with s have f: "\<not> is_space c" "lower_char c = c" if "c \<in> set s" for c
    using that slug_char_not_upper [of c] unfolding lower_char_def is_slug_iff list_all_iff by metis+
  have "trim_space s = s"
    unfolding trim_space_def using f by (intro trim_by_fixed) (cases "s = []"; simp)
  moreover have "to_lower s = s" unfolding to_lower_def by (rule map_idI) (rule f)
  moreover have "replace_runs False s = s" using s by (intro replace_runs_fixed) (auto simp: is_slug_iff)
  moreover have "trim_by (\<lambda>c. c = dash) s = s" using s by (intro trim_by_fixed) (auto simp: is_slug_iff)
  ultimately show ?thesis by (simp add: slugify_def)
qed

subsection \<open>Properties\<close>

lemma slugify_empty_iff: "slugify s = [] \<longleftrightarrow> list_all (\<lambda>c. \<not> slug_char c) (to_lower s)"
proof
  assume "slugify s = []"
  then have "filter slug_char (to_lower s) = []" using slugify_chars [of s] by simp
  then show "list_all (\<lambda>c. \<not> slug_char c) (to_lower s)" by (simp add: filter_empty_conv list_all_iff)
next
  assume "list_all (\<lambda>c. \<not> slug_char c) (to_lower s)"
  then have "filter slug_char (slugify s) = []" by (simp add: slugify_chars filter_empty_conv list_all_iff)
  then show "slugify s = []"
    using slugify_is_slug [of s] unfolding is_slug_iff filter_empty_conv list_all_iff
    by (metis hd_in_set)
qed

lemma slugify_Nil [simp]: "slugify [] = []"
  by (simp add: slugify_def trim_space_def trim_by_def to_lower_def)

lemma slugify_idem: "slugify (slugify s) = slugify s"
  by (cases "slugify s = []") (simp_all add: slugify_is_slug slugify_fixed)

text \<open>
  \<open>Slugify\<close> gives an id that \<open>Validate\<close> accepts, or the empty string exactly when the
  input has no ASCII letter or digit; it keeps the letters and digits, lower-cased and in
  order, and changes nothing when applied again.
\<close>

theorem slugify_normal_form:
  "(if list_all (\<lambda>c. \<not> slug_char c) (to_lower s) then slugify s = [] else is_slug (slugify s)) \<and>
   filter slug_char (slugify s) = filter slug_char (to_lower s) \<and>
   slugify (slugify s) = slugify s"
  using slugify_empty_iff [of s] slugify_is_slug [of s] slugify_chars [of s] slugify_idem [of s]
  by auto

lemma validate_accepts:
  "validate s = None \<Longrightarrow> is_slug (sc_ID s) \<and> 5 \<le> sc_IntervalSeconds s \<and>
     sc_IntervalSeconds s \<le> sc_SlowIntervalSeconds s \<and> sc_SlowIntervalSeconds s \<le> 86400 \<and>
     0 \<le> lc_MaxMs (ck_Latency (sc_Checks s)) \<and> 0 \<le> sl_WarnDays (ck_SSL (sc_Checks s)) \<and>
     (\<exists>u. url_parse (sc_URL s) = Some u \<and> (u_Scheme u = ''http'' \<or> u_Scheme u = ''https'') \<and> u_Host u \<noteq> [])"
  by (cases "url_parse (sc_URL s)") (simp_all add: validate_def config_consts)

lemma validate_id_errors:
  assumes "validate s = Some e" "e = No_id \<or> e = Bad_slug"
  shows "(\<exists>u. url_parse (sc_URL s) = Some u \<and> (u_Scheme u = ''http'' \<or> u_Scheme u = ''https'')) \<and>
    (if e = No_id then sc_ID s = [] else sc_ID s \<noteq> [] \<and> \<not> is_slug (sc_ID s))"
  using assms by (cases "url_parse (sc_URL s)") (simp_all add: validate_def guard_Some split: if_split_asm)

lemma apply_defaults_URL [simp]: "sc_URL (apply_defaults s) = sc_URL s"
  by (simp add: default_defs)

lemma apply_defaults_ID:
  "sc_ID (apply_defaults s) =
    (if sc_ID s \<noteq> [] then sc_ID s
     else if slugify (sc_Name s) \<noteq> [] then slugify (sc_Name s) else slugify (sc_URL s))"
  by (simp add: default_defs)

lemma http_url_slug_nonempty:
  assumes "url_parse raw = Some u" "u_Scheme u = ''http'' \<or> u_Scheme u = ''https''"
  shows "slugify raw \<noteq> []"
proof -
  from assms obtain rest where "to_lower raw = CHR ''h'' # rest"
    using url_parse_scheme [of raw u] by auto
  moreover have "slug_char (CHR ''h'')" by (simp add: slug_char_def byte_defs)
  ultimately show ?thesis by (simp add: slugify_empty_iff)
qed

lemma apply_defaults_simps:
  "sc_IntervalSeconds (apply_defaults s) = (if sc_IntervalSeconds s = 0 then 60 else sc_IntervalSeconds s)"
  "sc_SlowIntervalSeconds (apply_defaults s) =
     (if sc_SlowIntervalSeconds s = 0 then 3600 else sc_SlowIntervalSeconds s)"
  "sc_Name (apply_defaults s) = sc_Name s"
  "\<not> (sl_Enabled (ck_SSL (sc_Checks (apply_defaults s))) \<and> sl_WarnDays (ck_SSL (sc_Checks (apply_defaults s))) = 0)"
  by (simp_all add: default_defs config_consts)

lemma same_ID: "sc_ID s = i \<Longrightarrow> s\<lparr>sc_ID := i\<rparr> = s"
  by (cases s) simp

lemma apply_defaults_fixed: "apply_defaults (apply_defaults s) = apply_defaults s"
proof -
  define d where "d = apply_defaults s"
  have "sc_IntervalSeconds d \<noteq> 0" "sc_SlowIntervalSeconds d \<noteq> 0"
    "\<not> (sl_Enabled (ck_SSL (sc_Checks d)) \<and> sl_WarnDays (ck_SSL (sc_Checks d)) = 0)"
    by (simp_all add: d_def apply_defaults_simps)
  then have f: "default_interval d = d" "default_slow_interval d = d" "default_warn_days d = d"
    by (simp_all only: default_interval_def default_slow_interval_def default_warn_days_def Let_def if_False)
  have "sc_ID d \<noteq> [] \<or> slugify (sc_Name d) = [] \<and> slugify (sc_URL d) = []"
    by (simp add: d_def apply_defaults_ID apply_defaults_simps)
  then have "default_id d = d"
    by (cases d) (auto simp: default_id_def)
  with f have "apply_defaults d = d" unfolding apply_defaults_def by simp
  then show ?thesis by (simp only: d_def)
qed

text \<open>
  Once \<open>ApplyDefaults\<close> has run, a site is never refused for want of an id: the error "id
  could not be derived" cannot occur, and an id that was derived, from the name or from the
  URL, is always a slug.  Defaults fill only what was left zero.
\<close>

theorem derived_id_valid:
  "let d = apply_defaults s; e = validate d in
   e \<noteq> Some No_id \<and> (if sc_ID s = [] then e \<noteq> Some Bad_slug else sc_ID d = sc_ID s) \<and>
   sc_IntervalSeconds d = (if sc_IntervalSeconds s = 0 then 60 else sc_IntervalSeconds s) \<and>
   sc_SlowIntervalSeconds d = (if sc_SlowIntervalSeconds s = 0 then 3600 else sc_SlowIntervalSeconds s) \<and>
   apply_defaults d = d"
proof -
  let ?d = "apply_defaults s"
  have id: "sc_ID ?d \<noteq> []"
    if "url_parse (sc_URL s) = Some u" "u_Scheme u = ''http'' \<or> u_Scheme u = ''https''" for u
    using http_url_slug_nonempty [OF that] by (simp add: apply_defaults_ID)
  have slug: "sc_ID s = [] \<Longrightarrow> sc_ID ?d \<noteq> [] \<Longrightarrow> is_slug (sc_ID ?d)"
    by (simp add: apply_defaults_ID slugify_is_slug split: if_splits)
  have "validate ?d \<noteq> Some No_id"
    using id validate_id_errors [of ?d No_id] by auto
  moreover have "sc_ID s = [] \<Longrightarrow> validate ?d \<noteq> Some Bad_slug"
    using slug validate_id_errors [of ?d Bad_slug] by auto
  moreover have "apply_defaults ?d = ?d"
    using apply_defaults_fixed by simp
  moreover have "sc_ID s \<noteq> [] \<Longrightarrow> sc_ID ?d = sc_ID s" by (simp add: apply_defaults_ID)
  ultimately show ?thesis by (simp only: Let_def apply_defaults_simps(1,2) split: if_split) simp
qed

definition example_site :: site_config where
  "example_site = \<lparr>sc_ID = ''shop'', sc_Name = ''Shop'', sc_URL = ''https://shop.test/'',
     sc_IntervalSeconds = 60, sc_SlowIntervalSeconds = 3600, sc_Enabled = True,
     sc_Checks = no_checks, sc_CreatedAt = 0, sc_UpdatedAt = 0, sc_APIKeyHash = []\<rparr>"

lemma example_site_valid: "validate example_site = None"
  by code_simp

text \<open>
  The durations of a validated site fit \<open>time.Duration\<close>: the interval and the slow interval
  in nanoseconds are the exact products as signed 64-bit values, positive, and the
  slow interval is not the shorter one.
\<close>

theorem validated_durations_fit:
  assumes "validate s = None"
  shows "let iv = word_of_int (sc_IntervalSeconds s) * 1000000000 :: int64;
             slow = word_of_int (sc_SlowIntervalSeconds s) * 1000000000 :: int64
         in sint iv = sc_IntervalSeconds s * 1000000000 \<and>
            sint slow = sc_SlowIntervalSeconds s * 1000000000 \<and> 0 < sint iv \<and> sint iv \<le> sint slow"
proof -
  from validate_accepts [OF assms]
  have b: "5 \<le> sc_IntervalSeconds s" "sc_IntervalSeconds s \<le> sc_SlowIntervalSeconds s"
    "sc_SlowIntervalSeconds s \<le> 86400" by auto
  have fit: "sint (word_of_int n * 1000000000 :: int64) = n * 1000000000" if "0 \<le> n" "n \<le> 86400" for n :: int
  proof -
    have "word_of_int n * 1000000000 = (word_of_int (n * 1000000000) :: int64)" by simp
    moreover have "sint (word_of_int (n * 1000000000) :: int64) = n * 1000000000"
      using that by (simp only: sint_sbintrunc') (simp add: signed_take_bit_int_eq_self)
    ultimately show ?thesis by (simp only:)
  qed
  show ?thesis using b by (simp add: Let_def fit)
qed

theorem validated_durations_fit_witness:
  "sint (word_of_int 60 * 1000000000 :: int64) = 60000000000"
  using validated_durations_fit [OF example_site_valid] by (simp add: Let_def example_site_def)

end
