(* ===== verification/RegistryDb.thy ===== *)
theory RegistryDb
  imports Config Table
begin

section \<open>The registry database (internal/storage: registry.go, session.go, admin.go, alerts.go)\<close>

text \<open>
  \<open>registry.db\<close> holds the sites, the admin accounts and their sessions, and the alert
  channels, rules and deliveries.  One record carries its six tables; the constraints of the
  schema (primary keys, UNIQUE, foreign keys with \<open>ON DELETE CASCADE\<close>, enforced through
  \<open>foreign_keys(ON)\<close>) are part of the operations.  A statement that fails for a reason
  outside the schema is the caller's business: the handlers carry those faults.  The current
  time is an argument.
\<close>

subsection \<open>Rows\<close>

record admin_user =
  au_ID :: int
  au_Username :: string
  au_PasswordHash :: string
  au_CreatedAt :: unix
  au_UpdatedAt :: unix

record session =
  se_ID :: string
  se_UserID :: int
  se_CreatedAt :: unix
  se_ExpiresAt :: unix
  se_LastSeenAt :: unix

record alert_channel =
  ch_ID :: int
  ch_Name :: string
  ch_Type :: string
  ch_Target :: string
  ch_Enabled :: bool
  ch_CreatedAt :: unix
  ch_UpdatedAt :: unix

record alert_rule =
  ru_ID :: int
  ru_SiteID :: "string option"
  ru_ChannelID :: int
  ru_Kind :: string
  ru_Enabled :: bool
  ru_ConfirmAfter :: int
  ru_CreatedAt :: unix
  ru_UpdatedAt :: unix

record alert_delivery =
  de_ID :: int
  de_DedupeKey :: string
  de_SiteID :: string
  de_Kind :: string
  de_ChannelID :: int
  de_IncidentID :: "int option"
  de_Subject :: string
  de_Status :: string
  de_Attempts :: int
  de_Error :: "string option"
  de_CreatedAt :: unix
  de_SentAt :: "unix option"

record registry =
  rg_Sites :: "site_config list"
  rg_Users :: "admin_user list"
  rg_Sessions :: "session list"
  rg_Channels :: "alert_channel list"
  rg_Rules :: "alert_rule list"
  rg_Deliveries :: "alert_delivery list"

definition empty_registry :: registry where
  "empty_registry = \<lparr>rg_Sites = [], rg_Users = [], rg_Sessions = [], rg_Channels = [],
     rg_Rules = [], rg_Deliveries = []\<rparr>"

datatype storage_error =
  ErrNotFound | ErrUserNotFound | ErrSessionNotFound | ErrAlertNotFound | ErrDeliveryClaimed
  | Unique_violation | Foreign_key_violation | Db_failure

subsection \<open>Sites (registry.go)\<close>

definition site_lookup :: "registry \<Rightarrow> string \<Rightarrow> site_config option" where
  "site_lookup db key_id = tbl_find sc_ID key_id (rg_Sites db)"

definition site_insert :: "site_config \<Rightarrow> registry \<Rightarrow> registry option" where
  "site_insert s db = map_option (\<lambda>rows. db\<lparr>rg_Sites := rows\<rparr>) (tbl_insert sc_ID s (rg_Sites db))"

definition site_remove :: "string \<Rightarrow> registry \<Rightarrow> registry" where
  "site_remove key_id db = db\<lparr>rg_Sites := tbl_del sc_ID key_id (rg_Sites db)\<rparr>"

definition registry_list :: "registry \<Rightarrow> site_config list" where
  "registry_list db = sort_key sc_ID (rg_Sites db)"

definition registry_get :: "registry \<Rightarrow> string \<Rightarrow> storage_error + site_config" where
  "registry_get db key_id = (case site_lookup db key_id of None \<Rightarrow> Inl ErrNotFound | Some s \<Rightarrow> Inr s)"

definition registry_exists :: "registry \<Rightarrow> string \<Rightarrow> bool" where
  "registry_exists db key_id = (int (length (filter (\<lambda>s. sc_ID s = key_id) (rg_Sites db))) > 0)"

definition registry_create :: "site_config \<Rightarrow> registry \<Rightarrow> storage_error + registry" where
  "registry_create s db = (case site_insert s db of None \<Rightarrow> Inl Unique_violation | Some db' \<Rightarrow> Inr db')"

text \<open>The columns that the UPDATE sets: everything but the id and the creation time.\<close>

definition set_site_columns :: "site_config \<Rightarrow> site_config \<Rightarrow> site_config" where
  "set_site_columns s old = s\<lparr>sc_ID := sc_ID old, sc_CreatedAt := sc_CreatedAt old\<rparr>"

definition registry_update :: "site_config \<Rightarrow> registry \<Rightarrow> storage_error + registry" where
  "registry_update s db =
     (if tbl_has sc_ID (sc_ID s) (rg_Sites db)
      then Inr (db\<lparr>rg_Sites := tbl_set sc_ID (sc_ID s) (set_site_columns s) (rg_Sites db)\<rparr>)
      else Inl ErrNotFound)"

definition registry_delete :: "string \<Rightarrow> registry \<Rightarrow> storage_error + registry" where
  "registry_delete key_id db =
     (if tbl_has sc_ID key_id (rg_Sites db) then Inr (site_remove key_id db) else Inl ErrNotFound)"

subsection \<open>Sessions (session.go)\<close>

definition session_lookup :: "registry \<Rightarrow> string \<Rightarrow> session option" where
  "session_lookup db key_id = tbl_find se_ID key_id (rg_Sessions db)"

definition session_insert :: "session \<Rightarrow> registry \<Rightarrow> registry option" where
  "session_insert s db = map_option (\<lambda>rows. db\<lparr>rg_Sessions := rows\<rparr>) (tbl_insert se_ID s (rg_Sessions db))"

definition create_session :: "unix \<Rightarrow> string \<Rightarrow> int \<Rightarrow> unix \<Rightarrow> registry \<Rightarrow> storage_error + registry" where
  "create_session now key_id userID expiresAt db =
     (if \<not> tbl_has au_ID userID (rg_Users db) then Inl Foreign_key_violation
      else case session_insert \<lparr>se_ID = key_id, se_UserID = userID, se_CreatedAt = now,
                  se_ExpiresAt = expiresAt, se_LastSeenAt = now\<rparr> db of
             None \<Rightarrow> Inl Unique_violation | Some db' \<Rightarrow> Inr db')"

definition delete_session :: "string \<Rightarrow> registry \<Rightarrow> registry" where
  "delete_session key_id db = db\<lparr>rg_Sessions := tbl_del se_ID key_id (rg_Sessions db)\<rparr>"

definition lookup_session :: "unix \<Rightarrow> string \<Rightarrow> registry \<Rightarrow> registry \<times> (storage_error + session)" where
  "lookup_session now key_id db =
     (case session_lookup db key_id of
        None \<Rightarrow> (db, Inl ErrSessionNotFound)
      | Some s \<Rightarrow>
          if now \<ge> se_ExpiresAt s then (delete_session key_id db, Inl ErrSessionNotFound)
          else (db, Inr s))"

definition touch_session :: "unix \<Rightarrow> string \<Rightarrow> unix \<Rightarrow> registry \<Rightarrow> registry" where
  "touch_session now key_id expiresAt db =
     db\<lparr>rg_Sessions := tbl_set se_ID key_id
          (\<lambda>s. s\<lparr>se_LastSeenAt := now, se_ExpiresAt := expiresAt\<rparr>) (rg_Sessions db)\<rparr>"

definition purge_expired_sessions :: "unix \<Rightarrow> registry \<Rightarrow> int \<times> registry" where
  "purge_expired_sessions now db =
     (int (length (filter (\<lambda>s. se_ExpiresAt s \<le> now) (rg_Sessions db))),
      db\<lparr>rg_Sessions := filter (\<lambda>s. \<not> se_ExpiresAt s \<le> now) (rg_Sessions db)\<rparr>)"

subsection \<open>Admin accounts (admin.go)\<close>

definition normalise_username :: "string \<Rightarrow> string" where
  "normalise_username u = to_lower (trim_space u)"

definition admin_user_count :: "registry \<Rightarrow> int" where
  "admin_user_count db = int (length (rg_Users db))"

definition admin_user_by_name :: "registry \<Rightarrow> string \<Rightarrow> storage_error + admin_user" where
  "admin_user_by_name db username =
     (case tbl_find au_Username (normalise_username username) (rg_Users db) of
        None \<Rightarrow> Inl ErrUserNotFound | Some u \<Rightarrow> Inr u)"

definition admin_user_by_id :: "registry \<Rightarrow> int \<Rightarrow> storage_error + admin_user" where
  "admin_user_by_id db key_id =
     (case tbl_find au_ID key_id (rg_Users db) of None \<Rightarrow> Inl ErrUserNotFound | Some u \<Rightarrow> Inr u)"

definition create_admin_user :: "unix \<Rightarrow> string \<Rightarrow> string \<Rightarrow> registry \<Rightarrow> storage_error + (int \<times> registry)" where
  "create_admin_user now username passwordHash db =
     (if tbl_has au_Username (normalise_username username) (rg_Users db) then Inl Unique_violation
      else let key_id = next_rowid (map au_ID (rg_Users db)) in
        Inr (key_id, db\<lparr>rg_Users := rg_Users db @ [\<lparr>au_ID = key_id, au_Username = normalise_username username,
               au_PasswordHash = passwordHash, au_CreatedAt = now, au_UpdatedAt = now\<rparr>]\<rparr>))"

datatype password_stmt = Pw_begin | Pw_update | Pw_delete_sessions | Pw_commit

text \<open>The transaction: \<open>flt\<close> says which of its statements fail; an error rolls back.\<close>

definition set_admin_password ::
  "(password_stmt \<Rightarrow> bool) \<Rightarrow> unix \<Rightarrow> int \<Rightarrow> string \<Rightarrow> registry \<Rightarrow> registry \<times> storage_error option" where
  "set_admin_password flt now userID passwordHash db =
     (if flt Pw_begin then (db, Some Db_failure)
      else if flt Pw_update then (db, Some Db_failure)
      else
        let tx = db\<lparr>rg_Users := tbl_set au_ID userID
              (\<lambda>u. u\<lparr>au_PasswordHash := passwordHash, au_UpdatedAt := now\<rparr>) (rg_Users db)\<rparr>
        in if \<not> tbl_has au_ID userID (rg_Users db) then (db, Some ErrUserNotFound)
           else if flt Pw_delete_sessions then (db, Some Db_failure)
           else let tx = tx\<lparr>rg_Sessions := filter (\<lambda>s. se_UserID s \<noteq> userID) (rg_Sessions tx)\<rparr>
             in if flt Pw_commit then (db, Some Db_failure) else (tx, None))"

subsection \<open>Alert channels and rules (alerts.go)\<close>

definition AlertSiteDown :: string where "AlertSiteDown = ''site_down''"
definition AlertSiteRecovered :: string where "AlertSiteRecovered = ''site_recovered''"
definition AlertSSLExpiring :: string where "AlertSSLExpiring = ''ssl_expiring''"

definition valid_alert_kind :: "string \<Rightarrow> bool" where
  "valid_alert_kind kind \<longleftrightarrow> kind \<in> {AlertSiteDown, AlertSiteRecovered, AlertSSLExpiring}"

definition DeliveryPending :: string where "DeliveryPending = ''pending''"
definition DeliverySent :: string where "DeliverySent = ''sent''"
definition DeliveryFailed :: string where "DeliveryFailed = ''failed''"

definition list_alert_channels :: "registry \<Rightarrow> alert_channel list" where
  "list_alert_channels db = sort_key ch_ID (rg_Channels db)"

definition get_alert_channel :: "registry \<Rightarrow> int \<Rightarrow> storage_error + alert_channel" where
  "get_alert_channel db key_id =
     (case tbl_find ch_ID key_id (rg_Channels db) of None \<Rightarrow> Inl ErrAlertNotFound | Some c \<Rightarrow> Inr c)"

definition create_alert_channel :: "unix \<Rightarrow> alert_channel \<Rightarrow> registry \<Rightarrow> alert_channel \<times> registry" where
  "create_alert_channel now c db =
     (let c = c\<lparr>ch_ID := next_rowid (map ch_ID (rg_Channels db)), ch_CreatedAt := now, ch_UpdatedAt := now\<rparr>
      in (c, db\<lparr>rg_Channels := rg_Channels db @ [c]\<rparr>))"

definition update_alert_channel :: "unix \<Rightarrow> alert_channel \<Rightarrow> registry \<Rightarrow> storage_error + registry" where
  "update_alert_channel now c db =
     (if tbl_has ch_ID (ch_ID c) (rg_Channels db)
      then Inr (db\<lparr>rg_Channels := tbl_set ch_ID (ch_ID c)
             (\<lambda>old. old\<lparr>ch_Name := ch_Name c, ch_Type := ch_Type c, ch_Target := ch_Target c,
                ch_Enabled := ch_Enabled c, ch_UpdatedAt := now\<rparr>) (rg_Channels db)\<rparr>)
      else Inl ErrAlertNotFound)"

text \<open>Deleting a channel deletes its rules (\<open>ON DELETE CASCADE\<close>); deliveries stay.\<close>

definition delete_alert_channel :: "int \<Rightarrow> registry \<Rightarrow> storage_error + registry" where
  "delete_alert_channel key_id db =
     (if tbl_has ch_ID key_id (rg_Channels db)
      then Inr (db\<lparr>rg_Channels := tbl_del ch_ID key_id (rg_Channels db),
                 rg_Rules := filter (\<lambda>r. ru_ChannelID r \<noteq> key_id) (rg_Rules db)\<rparr>)
      else Inl ErrAlertNotFound)"

definition list_alert_rules :: "registry \<Rightarrow> alert_rule list" where
  "list_alert_rules db = sort_key ru_ID (rg_Rules db)"

text \<open>\<open>RulesFor\<close>: the join yields a rule once per channel row with its channel id.\<close>

definition rules_for :: "registry \<Rightarrow> string \<Rightarrow> string \<Rightarrow> alert_rule list" where
  "rules_for db siteID kind =
     sort_key ru_ID (concat (map (\<lambda>r. map (\<lambda>c. r) (filter (\<lambda>c.
         ch_ID c = ru_ChannelID r \<and> ru_Kind r = kind \<and> ru_Enabled r \<and> ch_Enabled c \<and>
         (ru_SiteID r = None \<or> ru_SiteID r = Some siteID)) (rg_Channels db))) (rg_Rules db)))"

definition get_alert_rule :: "registry \<Rightarrow> int \<Rightarrow> storage_error + alert_rule" where
  "get_alert_rule db key_id =
     (case filter (\<lambda>r. ru_ID r = key_id) (rg_Rules db) of [] \<Rightarrow> Inl ErrAlertNotFound | r # _ \<Rightarrow> Inr r)"

definition create_alert_rule :: "unix \<Rightarrow> alert_rule \<Rightarrow> registry \<Rightarrow> storage_error + (alert_rule \<times> registry)" where
  "create_alert_rule now a db =
     (if \<not> tbl_has ch_ID (ru_ChannelID a) (rg_Channels db) then Inl Foreign_key_violation
      else let a = a\<lparr>ru_ID := next_rowid (map ru_ID (rg_Rules db)), ru_CreatedAt := now, ru_UpdatedAt := now\<rparr>
        in Inr (a, db\<lparr>rg_Rules := rg_Rules db @ [a]\<rparr>))"

definition update_alert_rule :: "unix \<Rightarrow> alert_rule \<Rightarrow> registry \<Rightarrow> storage_error + registry" where
  "update_alert_rule now a db =
     (if \<not> tbl_has ru_ID (ru_ID a) (rg_Rules db) then Inl ErrAlertNotFound
      else if \<not> tbl_has ch_ID (ru_ChannelID a) (rg_Channels db) then Inl Foreign_key_violation
      else Inr (db\<lparr>rg_Rules := tbl_set ru_ID (ru_ID a)
             (\<lambda>old. old\<lparr>ru_SiteID := ru_SiteID a, ru_ChannelID := ru_ChannelID a, ru_Kind := ru_Kind a,
                ru_Enabled := ru_Enabled a, ru_ConfirmAfter := ru_ConfirmAfter a,
                ru_UpdatedAt := now\<rparr>) (rg_Rules db)\<rparr>))"

definition delete_alert_rule :: "int \<Rightarrow> registry \<Rightarrow> storage_error + registry" where
  "delete_alert_rule key_id db =
     (if tbl_has ru_ID key_id (rg_Rules db) then Inr (db\<lparr>rg_Rules := tbl_del ru_ID key_id (rg_Rules db)\<rparr>)
      else Inl ErrAlertNotFound)"

subsection \<open>Deliveries, the dedupe ledger (alerts.go)\<close>

definition delivery_lookup :: "registry \<Rightarrow> string \<Rightarrow> alert_delivery option" where
  "delivery_lookup db key = tbl_find de_DedupeKey key (rg_Deliveries db)"

definition delivery_insert :: "alert_delivery \<Rightarrow> registry \<Rightarrow> registry option" where
  "delivery_insert d db =
     map_option (\<lambda>rows. db\<lparr>rg_Deliveries := rows\<rparr>) (tbl_insert de_DedupeKey d (rg_Deliveries db))"

definition claim_delivery :: "unix \<Rightarrow> alert_delivery \<Rightarrow> registry \<Rightarrow> storage_error + (int \<times> registry)" where
  "claim_delivery now d db =
     (let key_id = next_rowid (map de_ID (rg_Deliveries db)) in
      case delivery_insert (d\<lparr>de_ID := key_id, de_Status := DeliveryPending, de_Attempts := 0,
             de_Error := None, de_CreatedAt := now, de_SentAt := None\<rparr>) db of
        None \<Rightarrow> Inl ErrDeliveryClaimed | Some db' \<Rightarrow> Inr (key_id, db'))"

definition mark_delivery_sent :: "unix \<Rightarrow> int \<Rightarrow> int \<Rightarrow> registry \<Rightarrow> registry" where
  "mark_delivery_sent now key_id attempts db =
     db\<lparr>rg_Deliveries := tbl_set de_ID key_id (\<lambda>d. d\<lparr>de_Status := DeliverySent, de_Attempts := attempts,
          de_SentAt := Some now, de_Error := None\<rparr>) (rg_Deliveries db)\<rparr>"

definition mark_delivery_failed :: "int \<Rightarrow> int \<Rightarrow> string \<Rightarrow> registry \<Rightarrow> registry" where
  "mark_delivery_failed key_id attempts cause db =
     db\<lparr>rg_Deliveries := tbl_set de_ID key_id (\<lambda>d. d\<lparr>de_Status := DeliveryFailed, de_Attempts := attempts,
          de_Error := Some cause\<rparr>) (rg_Deliveries db)\<rparr>"

text \<open>\<open>ORDER BY created_at DESC, id DESC\<close>: a stable sort by the second key, then by the first.\<close>

definition list_alert_deliveries :: "string \<Rightarrow> int \<Rightarrow> registry \<Rightarrow> alert_delivery list" where
  "list_alert_deliveries siteID limit db =
     (let limit = (if limit \<le> 0 \<or> limit > 1000 then 100 else limit);
          rows = (if siteID \<noteq> [] then filter (\<lambda>d. de_SiteID d = siteID) (rg_Deliveries db)
                  else rg_Deliveries db)
      in take (nat limit) (sort_key (\<lambda>d. - de_CreatedAt d) (sort_key (\<lambda>d. - de_ID d) rows)))"

definition delivery_exists :: "registry \<Rightarrow> string \<Rightarrow> bool" where
  "delivery_exists db key = (int (length (filter (\<lambda>d. de_DedupeKey d = key) (rg_Deliveries db))) > 0)"

subsection \<open>The invariant of the schema\<close>

definition reg_inv :: "registry \<Rightarrow> bool" where
  "reg_inv db \<longleftrightarrow>
     unique_by sc_ID (rg_Sites db) \<and> unique_by au_ID (rg_Users db) \<and> unique_by au_Username (rg_Users db) \<and>
     unique_by se_ID (rg_Sessions db) \<and> unique_by ch_ID (rg_Channels db) \<and> unique_by ru_ID (rg_Rules db) \<and>
     unique_by de_ID (rg_Deliveries db) \<and> unique_by de_DedupeKey (rg_Deliveries db) \<and>
     list_all (\<lambda>s. tbl_has au_ID (se_UserID s) (rg_Users db)) (rg_Sessions db) \<and>
     list_all (\<lambda>r. tbl_has ch_ID (ru_ChannelID r) (rg_Channels db)) (rg_Rules db) \<and>
     list_all (\<lambda>u. normalise_username (au_Username u) = au_Username u) (rg_Users db)"

end
