(* ===== verification/RegistryLaws.thy ===== *)
theory RegistryLaws
  imports RegistryDb
begin

section \<open>Laws of the registry\<close>

text \<open>
  Every operation keeps the invariant of the schema, so it holds after any sequence of
  operations (an instance of \<open>stepping\<close>).  The site table, the session table and the delivery
  ledger are instances of the table interfaces; the properties about sessions and passwords
  follow.
\<close>

subsection \<open>Operations as events\<close>

datatype registry_op =
    Create_site site_config | Update_site site_config | Delete_site string
  | Create_session unix string int unix | Lookup_session unix string
  | Touch_session unix string unix | Delete_session string | Purge_sessions unix
  | Create_user unix string string | Set_password "password_stmt \<Rightarrow> bool" unix int string
  | Create_channel unix alert_channel | Update_channel unix alert_channel | Delete_channel int
  | Create_rule unix alert_rule | Update_rule unix alert_rule | Delete_rule int
  | Claim_delivery unix alert_delivery | Mark_sent unix int int | Mark_failed int int string

text \<open>The database after an operation; a failed statement leaves it as it was.\<close>

definition stored :: "registry \<Rightarrow> 'e + registry \<Rightarrow> registry" where
  "stored db r = (case r of Inl _ \<Rightarrow> db | Inr db' \<Rightarrow> db')"

fun reg_exec :: "registry \<Rightarrow> registry_op \<Rightarrow> registry" where
  "reg_exec db (Create_site s) = stored db (registry_create s db)"
| "reg_exec db (Update_site s) = stored db (registry_update s db)"
| "reg_exec db (Delete_site i) = stored db (registry_delete i db)"
| "reg_exec db (Create_session now i u e) = stored db (create_session now i u e db)"
| "reg_exec db (Lookup_session now i) = fst (lookup_session now i db)"
| "reg_exec db (Touch_session now i e) = touch_session now i e db"
| "reg_exec db (Delete_session i) = delete_session i db"
| "reg_exec db (Purge_sessions now) = snd (purge_expired_sessions now db)"
| "reg_exec db (Create_user now u h) = stored db (map_sum (\<lambda>x. x) snd (create_admin_user now u h db))"
| "reg_exec db (Set_password flt now u h) = fst (set_admin_password flt now u h db)"
| "reg_exec db (Create_channel now c) = snd (create_alert_channel now c db)"
| "reg_exec db (Update_channel now c) = stored db (update_alert_channel now c db)"
| "reg_exec db (Delete_channel i) = stored db (delete_alert_channel i db)"
| "reg_exec db (Create_rule now r) = stored db (map_sum (\<lambda>x. x) snd (create_alert_rule now r db))"
| "reg_exec db (Update_rule now r) = stored db (update_alert_rule now r db)"
| "reg_exec db (Delete_rule i) = stored db (delete_alert_rule i db)"
| "reg_exec db (Claim_delivery now d) = stored db (map_sum (\<lambda>x. x) snd (claim_delivery now d db))"
| "reg_exec db (Mark_sent now i n) = mark_delivery_sent now i n db"
| "reg_exec db (Mark_failed i n c) = mark_delivery_failed i n c db"

subsection \<open>The invariant is kept\<close>

lemma reg_inv_empty [simp]: "reg_inv empty_registry"
  by (simp add: reg_inv_def empty_registry_def)

lemma tbl_has_set [simp]: "(\<And>r. key (f r) = key r) \<Longrightarrow> tbl_has key k (tbl_set key' k' f rows) = tbl_has key k rows"
  by (auto simp: tbl_has_def tbl_set_def list_ex_iff)

lemma tbl_has_append [simp]: "tbl_has key k (xs @ ys) \<longleftrightarrow> tbl_has key k xs \<or> tbl_has key k ys"
  by (auto simp: tbl_has_def)

lemma tbl_has_single [simp]: "tbl_has key k [r] \<longleftrightarrow> key r = k"
  by (simp add: tbl_has_def)

lemma tbl_has_del: "tbl_has key k (tbl_del key k' rows) \<longleftrightarrow> k \<noteq> k' \<and> tbl_has key k rows"
  by (auto simp: tbl_has_def tbl_del_def list_ex_iff)

lemma list_all_tbl_set: "list_all P rows \<Longrightarrow> (\<And>r. key r = k \<Longrightarrow> P r \<Longrightarrow> P (f r)) \<Longrightarrow> list_all P (tbl_set key k f rows)"
  by (auto simp: list_all_iff tbl_set_def)

lemma list_all_filter: "list_all P rows \<Longrightarrow> list_all P (filter Q rows)"
  by (auto simp: list_all_iff)

lemma list_all_weaken: "list_all P rows \<Longrightarrow> (\<And>r. r \<in> set rows \<Longrightarrow> P r \<Longrightarrow> Q r) \<Longrightarrow> list_all Q rows"
  by (auto simp: list_all_iff)

lemma next_rowid_new: "\<not> tbl_has key (next_rowid (map key rows)) rows"
  using next_rowid_not_in [of "map key rows"] by (simp add: tbl_has_iff)

lemma map_key_tbl_set_other: "(\<And>r. key (f r) = key r) \<Longrightarrow> map key (tbl_set key' k f rows) = map key rows"
  by (auto simp: tbl_set_def)

lemma unique_by_tbl_set_other:
  "(\<And>r. key (f r) = key r) \<Longrightarrow> unique_by key rows \<Longrightarrow> unique_by key (tbl_set key' k f rows)"
  by (simp add: unique_by_def map_key_tbl_set_other)

lemma tbl_find_filter:
  "unique_by key rows \<Longrightarrow> tbl_find key k (filter P rows) =
     (case tbl_find key k rows of None \<Rightarrow> None | Some r \<Rightarrow> if P r then Some r else None)"
proof (induction rows)
  case Nil
  then show ?case by (simp add: tbl_find_def)
next
  case (Cons r rows)
  show ?case
  proof (cases "key r = k")
    case True
    with Cons.prems have "k \<notin> key ` set (filter P rows)" by (auto simp: unique_by_def)
    then have "tbl_find key k (filter P rows) = None" unfolding tbl_find_None_iff .
    with True show ?thesis by (simp add: tbl_find_def)
  next
    case False
    with Cons show ?thesis by (simp add: tbl_find_def unique_by_def)
  qed
qed

lemma normalise_idem [simp]: "normalise_username (normalise_username u) = normalise_username u"
  by (simp add: normalise_username_def trim_space_to_lower)

lemma site_ops_inv [inv_intros]:
  assumes "reg_inv db"
  shows "reg_inv (stored db (registry_create s db))" "reg_inv (stored db (registry_update s db))"
    "reg_inv (stored db (registry_delete i db))"
  using assms
  by (auto simp: reg_inv_def stored_def registry_create_def site_insert_def tbl_insert_def
      unique_by_snoc registry_update_def registry_delete_def site_remove_def
      set_site_columns_def split: option.splits if_splits)

lemma create_session_inv [inv_intros]:
  "reg_inv db \<Longrightarrow> reg_inv (stored db (create_session now i u e db))"
  by (auto simp: reg_inv_def stored_def create_session_def session_insert_def tbl_insert_def
      unique_by_snoc split: option.splits if_splits)

lemma delete_session_inv [inv_intros]: "reg_inv db \<Longrightarrow> reg_inv (delete_session i db)"
  by (auto simp: reg_inv_def delete_session_def tbl_del_def intro: list_all_filter)

lemma lookup_session_inv [inv_intros]: "reg_inv db \<Longrightarrow> reg_inv (fst (lookup_session now i db))"
  by (simp add: lookup_session_def delete_session_inv split: option.split)

lemma touch_session_inv [inv_intros]: "reg_inv db \<Longrightarrow> reg_inv (touch_session now i e db)"
  by (simp add: reg_inv_def touch_session_def unique_by_set list_all_tbl_set)

lemma purge_sessions_inv [inv_intros]: "reg_inv db \<Longrightarrow> reg_inv (snd (purge_expired_sessions now db))"
  by (auto simp: reg_inv_def purge_expired_sessions_def intro: list_all_filter)

lemma create_user_inv [inv_intros]:
  "reg_inv db \<Longrightarrow> reg_inv (stored db (map_sum (\<lambda>x. x) snd (create_admin_user now u h db)))"
  by (auto simp: reg_inv_def stored_def create_admin_user_def Let_def unique_by_snoc next_rowid_new
      elim: list_all_weaken)

lemma set_password_inv [inv_intros]: "reg_inv db \<Longrightarrow> reg_inv (fst (set_admin_password flt now u h db))"
  by (auto simp: reg_inv_def set_admin_password_def Let_def unique_by_tbl_set_other
      intro!: list_all_filter list_all_tbl_set)

lemma channel_ops_inv [inv_intros]:
  assumes "reg_inv db"
  shows "reg_inv (snd (create_alert_channel now c db))" "reg_inv (stored db (update_alert_channel now c db))"
  using assms
  by (auto simp: reg_inv_def stored_def create_alert_channel_def update_alert_channel_def Let_def
      unique_by_snoc next_rowid_new elim: list_all_weaken)

lemma delete_channel_inv [inv_intros]: "reg_inv db \<Longrightarrow> reg_inv (stored db (delete_alert_channel i db))"
  by (auto simp: reg_inv_def stored_def delete_alert_channel_def tbl_has_del list_all_iff)

lemma create_rule_inv [inv_intros]:
  "reg_inv db \<Longrightarrow> reg_inv (stored db (map_sum (\<lambda>x. x) snd (create_alert_rule now r db)))"
  by (auto simp: reg_inv_def stored_def create_alert_rule_def Let_def unique_by_snoc next_rowid_new)

lemma rule_ops_inv [inv_intros]:
  assumes "reg_inv db"
  shows "reg_inv (stored db (update_alert_rule now r db))" "reg_inv (stored db (delete_alert_rule i db))"
  using assms
  by (auto simp: reg_inv_def stored_def update_alert_rule_def delete_alert_rule_def tbl_del_def
      intro: list_all_filter list_all_tbl_set)

lemma claim_delivery_inv [inv_intros]:
  "reg_inv db \<Longrightarrow> reg_inv (stored db (map_sum (\<lambda>x. x) snd (claim_delivery now d db)))"
  by (auto simp: reg_inv_def stored_def claim_delivery_def Let_def delivery_insert_def tbl_insert_def
      unique_by_snoc next_rowid_new split: option.splits)

lemma mark_delivery_inv [inv_intros]:
  assumes "reg_inv db"
  shows "reg_inv (mark_delivery_sent now i n db)" "reg_inv (mark_delivery_failed i n c db)"
  using assms
  by (simp_all add: reg_inv_def mark_delivery_sent_def mark_delivery_failed_def unique_by_tbl_set_other)

interpretation reg_run: stepping reg_exec reg_inv
proof unfold_locales
  fix db e
  assume "reg_inv db"
  then show "reg_inv (reg_exec db e)" by (cases e) (simp_all add: inv_intros)
qed

text \<open>
  C34: the registry keeps its schema under any sequence of operations: ids, user names, session
  ids and dedupe keys are unique, stored user names are normalised, every session belongs to
  an account, and every rule points at a channel.
\<close>

theorem registry_schema_kept: "reg_inv (foldl reg_exec empty_registry ops)"
  by (rule reg_run.run_inv) (rule reg_inv_empty)

subsection \<open>The tables as interfaces\<close>

interpretation site_table: keyed_table site_lookup site_insert sc_ID "\<lambda>db. unique_by sc_ID (rg_Sites db)" site_remove
  by unfold_locales
    (auto simp: site_lookup_def site_insert_def site_remove_def tbl_insert_def tbl_find_snoc tbl_find_del
      unique_by_snoc tbl_find_None_iff tbl_has_iff split: if_splits)

interpretation session_table: keyed_table session_lookup session_insert se_ID
    "\<lambda>db. unique_by se_ID (rg_Sessions db)" delete_session
  by unfold_locales
    (auto simp: session_lookup_def session_insert_def delete_session_def tbl_insert_def tbl_find_snoc
      tbl_find_del unique_by_snoc tbl_find_None_iff tbl_has_iff split: if_splits)

interpretation ledger: unique_table delivery_lookup delivery_insert de_DedupeKey
    "\<lambda>db. unique_by de_DedupeKey (rg_Deliveries db)"
  by unfold_locales
    (auto simp: delivery_lookup_def delivery_insert_def tbl_insert_def tbl_find_snoc
      unique_by_snoc tbl_find_None_iff tbl_has_iff split: if_splits)

lemma reg_inv_tables [simp]:
  "reg_inv db \<Longrightarrow> unique_by sc_ID (rg_Sites db)" "reg_inv db \<Longrightarrow> unique_by se_ID (rg_Sessions db)"
  "reg_inv db \<Longrightarrow> unique_by de_DedupeKey (rg_Deliveries db)" "reg_inv db \<Longrightarrow> unique_by de_ID (rg_Deliveries db)"
  "reg_inv db \<Longrightarrow> unique_by ch_ID (rg_Channels db)" "reg_inv db \<Longrightarrow> unique_by ru_ID (rg_Rules db)"
  "reg_inv db \<Longrightarrow> unique_by au_ID (rg_Users db)" "reg_inv db \<Longrightarrow> unique_by au_Username (rg_Users db)"
  by (simp_all add: reg_inv_def)

subsection \<open>Sessions\<close>

text \<open>A session that \<open>LookupSession\<close> would return at a given time.\<close>

definition live :: "unix \<Rightarrow> string \<Rightarrow> registry \<Rightarrow> session option" where
  "live now i db = (case snd (lookup_session now i db) of Inl _ \<Rightarrow> None | Inr s \<Rightarrow> Some s)"

lemma live_iff:
  "live now i db = (case session_lookup db i of None \<Rightarrow> None
     | Some s \<Rightarrow> if se_ExpiresAt s \<le> now then None else Some s)"
  by (simp add: live_def lookup_session_def split: option.split)

lemma live_filter:
  assumes "unique_by se_ID (rg_Sessions db)"
  shows "live now i (db'\<lparr>rg_Sessions := filter P (rg_Sessions db)\<rparr>) =
    (case live now i db of None \<Rightarrow> None | Some s \<Rightarrow> if P s then Some s else None)"
  using assms by (cases "tbl_find se_ID i (rg_Sessions db)") (simp_all add: live_iff session_lookup_def tbl_find_filter)

text \<open>
  \<open>SetAdminPassword\<close> revokes and replaces together: without a fault on a known account, no
  session of that account is accepted any more, the sessions of other accounts are untouched
  and the new hash is the one looked up; in every other case nothing changes.
\<close>

theorem password_change_revokes:
  "let db = foldl reg_exec empty_registry ops; (db', err) = set_admin_password flt now u h db in
   if err \<noteq> None then db' = db
   else (\<forall>t i. live t i db' = (case live t i db of None \<Rightarrow> None
                | Some s \<Rightarrow> if se_UserID s = u then None else Some s)) \<and>
     map_sum (\<lambda>_. ()) au_PasswordHash (admin_user_by_id db' u) = Inr h"
proof -
  define db where "db = foldl reg_exec empty_registry ops"
  have inv: "reg_inv db" unfolding db_def by (rule reg_run.run_inv) simp
  obtain db' err where r: "set_admin_password flt now u h db = (db', err)" by fastforce
  show ?thesis
  proof (cases err)
    case (Some e)
    with r have "db' = db" by (auto simp: set_admin_password_def Let_def split: if_splits)
    with Some r show ?thesis by (simp add: Let_def flip: db_def)
  next
    case None
    define users where "users = tbl_set au_ID u (\<lambda>x. x\<lparr>au_PasswordHash := h, au_UpdatedAt := now\<rparr>) (rg_Users db)"
    from None r have db': "db' = db\<lparr>rg_Users := users\<rparr>\<lparr>rg_Sessions := filter (\<lambda>s. se_UserID s \<noteq> u) (rg_Sessions db)\<rparr>"
      and has: "tbl_has au_ID u (rg_Users db)"
      by (auto simp: set_admin_password_def Let_def users_def split: if_splits)
    have "live t i db' = (case live t i db of None \<Rightarrow> None
        | Some s \<Rightarrow> if se_UserID s = u then None else Some s)" for t i
      unfolding db' using inv by (subst live_filter) (auto split: option.split)
    moreover from has obtain x where "tbl_find au_ID u (rg_Users db) = Some x" by (auto simp: tbl_has_find)
    then have "map_sum (\<lambda>_. ()) au_PasswordHash (admin_user_by_id db' u) = Inr h"
      by (simp add: admin_user_by_id_def db' users_def tbl_find_set)
    ultimately show ?thesis using None r by (simp add: Let_def flip: db_def)
  qed
qed

text \<open>
  A session lives exactly from its creation to its expiry or revocation.  In any registry
  the program can reach, looking a session up finds it only before its expiry, and an expired
  row is deleted on the way; after logout the id is refused at every time; touching
  a session moves its expiry and that of no other.
\<close>

theorem session_lifecycle:
  "let db = foldl reg_exec empty_registry ops in
   (case lookup_session now i db of
      (db', Inl _) \<Rightarrow> db' = (if session_lookup db i = None then db else delete_session i db)
    | (db', Inr s) \<Rightarrow> db' = db \<and> se_ID s = i \<and> now < se_ExpiresAt s) \<and>
   live t i (delete_session j db) = (if i = j then None else live t i db) \<and>
   live t i (touch_session now j e db) =
     (if i = j then (case session_lookup db i of None \<Rightarrow> None
        | Some s \<Rightarrow> if e \<le> t then None else Some (s\<lparr>se_LastSeenAt := now, se_ExpiresAt := e\<rparr>))
      else live t i db)"
proof -
  define db where "db = foldl reg_exec empty_registry ops"
  have inv: "reg_inv db" unfolding db_def by (rule reg_run.run_inv) simp
  have "case lookup_session now i db of
      (db', Inl _) \<Rightarrow> db' = (if session_lookup db i = None then db else delete_session i db)
    | (db', Inr s) \<Rightarrow> db' = db \<and> se_ID s = i \<and> now < se_ExpiresAt s"
    by (auto simp: lookup_session_def session_lookup_def dest: tbl_find_Some_key split: option.split)
  moreover have "live t i (delete_session j db) = (if i = j then None else live t i db)"
    using inv by (simp add: live_iff session_table.look_del)
  moreover have "session_lookup (touch_session now j e db) i = (if i = j
      then map_option (\<lambda>s. s\<lparr>se_LastSeenAt := now, se_ExpiresAt := e\<rparr>) (session_lookup db i)
      else session_lookup db i)"
    by (simp add: session_lookup_def touch_session_def tbl_find_set)
  then have "live t i (touch_session now j e db) =
     (if i = j then (case session_lookup db i of None \<Rightarrow> None
        | Some s \<Rightarrow> if e \<le> t then None else Some (s\<lparr>se_LastSeenAt := now, se_ExpiresAt := e\<rparr>))
      else live t i db)"
    by (simp add: live_iff split: option.split)
  ultimately show ?thesis by (simp add: Let_def flip: db_def)
qed

text \<open>
  \<open>RulesFor\<close> selects what its comment says: in any registry the program can reach, the
  enabled rules of the kind for this site or for every site whose channel exists and is enabled,
  each once, in id order.
\<close>

theorem rules_for_selects:
  "let db = foldl reg_exec empty_registry ops; rs = rules_for db site kind in
   set rs = {r \<in> set (rg_Rules db). ru_Kind r = kind \<and> ru_Enabled r \<and>
     (ru_SiteID r = None \<or> ru_SiteID r = Some site) \<and>
     map_sum (\<lambda>_. ()) ch_Enabled (get_alert_channel db (ru_ChannelID r)) = Inr True} \<and>
   distinct rs \<and> sorted (map ru_ID rs)"
proof -
  define db where "db = foldl reg_exec empty_registry ops"
  have inv: "reg_inv db" unfolding db_def by (rule reg_run.run_inv) simp
  define ok where "ok r \<longleftrightarrow> ru_Kind r = kind \<and> ru_Enabled r \<and> (ru_SiteID r = None \<or> ru_SiteID r = Some site) \<and>
    map_sum (\<lambda>_. ()) ch_Enabled (get_alert_channel db (ru_ChannelID r)) = Inr True" for r :: alert_rule
  have one: "map (\<lambda>c. r) (filter (\<lambda>c. ch_ID c = ru_ChannelID r \<and> ru_Kind r = kind \<and> ru_Enabled r \<and> ch_Enabled c \<and>
      (ru_SiteID r = None \<or> ru_SiteID r = Some site)) (rg_Channels db)) = (if ok r then [r] else [])" for r :: alert_rule
  proof -
    have key: "filter (\<lambda>c. ch_ID c = k \<and> P c) rows =
        (case tbl_find ch_ID k rows of None \<Rightarrow> [] | Some c \<Rightarrow> if P c then [c] else [])"
      if "unique_by ch_ID rows" for k P rows
      using that
    proof (induction rows)
      case (Cons c rows)
      have "filter (\<lambda>c'. ch_ID c' = ch_ID c \<and> P c') rows = []"
        using Cons.prems by (auto simp: unique_by_def filter_empty_conv image_iff)
      with Cons show ?case by (auto simp: tbl_find_def unique_by_def)
    qed (simp add: tbl_find_def)
    show ?thesis
      using key [of "rg_Channels db" "ru_ChannelID r" "\<lambda>c. ru_Kind r = kind \<and> ru_Enabled r \<and> ch_Enabled c \<and>
          (ru_SiteID r = None \<or> ru_SiteID r = Some site)"] inv
      by (auto simp: ok_def get_alert_channel_def split: option.splits)
  qed
  have "concat (map (\<lambda>r. if ok r then [r] else []) rows) = filter ok rows" for rows :: "alert_rule list"
    by (induction rows) auto
  then have rs: "rules_for db site kind = sort_key ru_ID (filter ok (rg_Rules db))"
    by (simp add: rules_for_def one)
  have "unique_by ru_ID (rg_Rules db)" using inv by simp
  then have "distinct (rg_Rules db)" by (simp add: unique_by_def distinct_map)
  then show ?thesis by (auto simp: Let_def rs ok_def simp flip: db_def)
qed

end
