(* ===== verification/Dispatch.thy ===== *)
theory Dispatch
  imports RegistryLaws SiteStore
begin

section \<open>The alert dispatcher (internal/alerts/alerts.go)\<close>

text \<open>
  A worker takes an \<open>Event\<close> off the queue and runs \<open>handle\<close>: for every kind the transition
  could trigger, for every rule of that kind, \<open>applyRule\<close> renders the message and its dedupe
  key, claims the key in the registry and sends with retries.  The model threads the registry
  and a log of every call of \<open>Sender.Send\<close>.  What lies outside is an argument: the clock, the
  result of each send, whether a shutdown interrupts a back-off, and which database calls
  fail (\<open>surroundings\<close>).
\<close>

subsection \<open>Events and messages\<close>

record event =
  ev_Site :: site_config
  ev_Transition :: transition
  ev_At :: unix

record message =
  ms_Subject :: string
  ms_Body :: string

text \<open>One call of \<open>Sender.Send\<close>: its arguments, the delivery it is made for, and the result.\<close>

record send_call =
  sd_Delivery :: int
  sd_Key :: string
  sd_To :: string
  sd_Subject :: string
  sd_Body :: string
  sd_Ok :: bool

datatype disp_call =
  Load_rules string | Load_channel int | Check_exists string | Claim string | Mark int

record surroundings =
  su_Now :: unix
  su_NowNs :: int
  su_Send :: "string \<Rightarrow> int \<Rightarrow> string option"
  su_Shutdown :: "string \<Rightarrow> int \<Rightarrow> bool"
  su_Fault :: "disp_call \<Rightarrow> bool"

record dispatcher =
  dp_Registry :: registry
  dp_Sends :: "send_call list"

subsection \<open>Options and the queue\<close>

record options =
  op_QueueSize :: int
  op_Workers :: int
  op_SendTimeout :: int
  op_Retries :: int
  op_RetryDelay :: int

text \<open>Durations in nanoseconds.\<close>

definition with_defaults :: "options \<Rightarrow> options" where
  "with_defaults o1 =
     (let o1 = (if op_QueueSize o1 \<le> 0 then o1\<lparr>op_QueueSize := 256\<rparr> else o1);
          o1 = (if op_Workers o1 \<le> 0 then o1\<lparr>op_Workers := 2\<rparr> else o1);
          o1 = (if op_SendTimeout o1 \<le> 0 then o1\<lparr>op_SendTimeout := 30 * 1000000000\<rparr> else o1);
          o1 = (if op_Retries o1 < 0 then o1\<lparr>op_Retries := 0\<rparr> else o1);
          o1 = (if op_Retries o1 = 0 then o1\<lparr>op_Retries := 2\<rparr> else o1);
          o1 = (if op_RetryDelay o1 \<le> 0 then o1\<lparr>op_RetryDelay := 5 * 1000000000\<rparr> else o1)
      in o1)"

text \<open>The bounded queue between the scheduler and the workers, and the count of dropped events.\<close>

record 'e alert_queue =
  qu_Size :: int
  qu_Items :: "'e list"
  qu_Dropped :: int
  qu_Closed :: bool

definition new_queue :: "options \<Rightarrow> 'e alert_queue" where
  "new_queue opts = \<lparr>qu_Size = op_QueueSize (with_defaults opts), qu_Items = [], qu_Dropped = 0, qu_Closed = False\<rparr>"

text \<open>A send on a closed channel panics: \<open>None\<close>.\<close>

definition enqueue :: "'e \<Rightarrow> 'e alert_queue \<Rightarrow> 'e alert_queue option" where
  "enqueue e q =
     (if qu_Closed q then None
      else if int (length (qu_Items q)) < qu_Size q then Some (q\<lparr>qu_Items := qu_Items q @ [e]\<rparr>)
      else Some (q\<lparr>qu_Dropped := qu_Dropped q + 1\<rparr>))"

definition receive :: "'e alert_queue \<Rightarrow> ('e \<times> 'e alert_queue) option" where
  "receive q = (case qu_Items q of [] \<Rightarrow> None | e # es \<Rightarrow> Some (e, q\<lparr>qu_Items := es\<rparr>))"

definition shutdown_queue :: "'e alert_queue \<Rightarrow> 'e alert_queue" where
  "shutdown_queue q = q\<lparr>qu_Closed := True\<rparr>"

subsection \<open>Rendering\<close>

definition kinds_for :: "event \<Rightarrow> string list" where
  "kinds_for e = (let tr = ev_Transition e in
     (if \<not> tr_Up tr \<and> tr_ConsecutiveFailures tr > 0 then [AlertSiteDown] else [])
     @ (if tr_IncidentResolved tr then [AlertSiteRecovered] else [])
     @ (if tr_SSLChecked tr \<and> tr_SSLExpiresAt tr > 0 then [AlertSSLExpiring] else []))"

definition or_dash :: "string \<Rightarrow> string" where
  "or_dash s = (if trim_space s = [] then ''-'' else s)"

text \<open>\<open>Format("2006-01-02 15:04:05 UTC")\<close> of a UTC time: the proleptic Gregorian calendar.\<close>

definition pad :: "nat \<Rightarrow> int \<Rightarrow> string" where
  "pad w i = (let s = show_int i in replicate (w - length s) (CHR ''0'') @ s)"

definition civil_date :: "int \<Rightarrow> int \<times> int \<times> int" where
  "civil_date days =
     (let z = days + 719468; era = z div 146097; doe = z mod 146097;
          yoe = (doe - doe div 1460 + doe div 36524 - doe div 146096) div 365;
          doy = doe - (365 * yoe + yoe div 4 - yoe div 100);
          mp = (5 * doy + 2) div 153;
          m = (if mp < 10 then mp + 3 else mp - 9)
      in (yoe + era * 400 + (if m \<le> 2 then 1 else 0), m, doy - (153 * mp + 2) div 5 + 1))"

definition format_utc :: "unix \<Rightarrow> string" where
  "format_utc t =
     (let (y, m, d) = civil_date (t div 86400); s = t mod 86400 in
      pad 4 y @ ''-'' @ pad 2 m @ ''-'' @ pad 2 d @ '' '' @
      pad 2 (s div 3600) @ '':'' @ pad 2 (s div 60 mod 60) @ '':'' @ pad 2 (s mod 60) @ '' UTC'')"

definition nl :: string where "nl = [CHR 0x0A]"

text \<open>\<open>fmt.Sprintf("down:%s:%d:%d", ...)\<close> and its siblings.\<close>

definition dedupe_key :: "string \<Rightarrow> string \<Rightarrow> int \<Rightarrow> int \<Rightarrow> string" where
  "dedupe_key tag site a b = tag @ '':'' @ site @ '':'' @ show_int a @ '':'' @ show_int b"

definition down_key :: "string \<Rightarrow> int \<Rightarrow> int \<Rightarrow> string" where
  "down_key site inc ch = dedupe_key ''down'' site inc ch"

definition up_key :: "string \<Rightarrow> int \<Rightarrow> int \<Rightarrow> string" where
  "up_key site inc ch = dedupe_key ''up'' site inc ch"

definition ssl_key :: "string \<Rightarrow> unix \<Rightarrow> int \<Rightarrow> string" where
  "ssl_key site expiry ch = dedupe_key ''ssl'' site expiry ch"

definition down_message :: "event \<Rightarrow> message" where
  "down_message e = (let site = ev_Site e; tr = ev_Transition e in
     \<lparr>ms_Subject = ''[DOWN] '' @ sc_Name site,
      ms_Body = sc_Name site @ '' is DOWN.'' @ nl @ nl
        @ ''URL:      '' @ sc_URL site @ nl
        @ ''Detected: '' @ format_utc (ev_At e) @ nl
        @ ''Failures: '' @ show_int (tr_ConsecutiveFailures tr) @ '' consecutive'' @ nl
        @ ''Error:    '' @ or_dash (tr_Error tr) @ nl\<rparr>)"

definition up_message :: "event \<Rightarrow> message" where
  "up_message e = (let site = ev_Site e in
     \<lparr>ms_Subject = ''[RECOVERED] '' @ sc_Name site,
      ms_Body = sc_Name site @ '' is back UP.'' @ nl @ nl
        @ ''URL:       '' @ sc_URL site @ nl
        @ ''Recovered: '' @ format_utc (ev_At e) @ nl\<rparr>)"

definition ssl_message :: "event \<Rightarrow> int \<Rightarrow> message" where
  "ssl_message e daysLeft = (let site = ev_Site e; expiry = tr_SSLExpiresAt (ev_Transition e) in
     \<lparr>ms_Subject = ''[SSL] '' @ sc_Name site @ '' certificate expires in '' @ show_int daysLeft @ '' day(s)'',
      ms_Body = ''The TLS certificate for '' @ sc_Name site @ '' expires soon.'' @ nl @ nl
        @ ''URL:     '' @ sc_URL site @ nl
        @ ''Expires: '' @ format_utc expiry @ '' ('' @ show_int daysLeft @ '' day(s))'' @ nl
        @ ''Checked: '' @ format_utc (ev_At e) @ nl\<rparr>)"

definition confirm_threshold :: "alert_rule \<Rightarrow> int" where
  "confirm_threshold rule = (if ru_ConfirmAfter rule < 1 then 1 else ru_ConfirmAfter rule)"

definition ssl_warn_days :: "site_config \<Rightarrow> int" where
  "ssl_warn_days site = (let warn = sl_WarnDays (ck_SSL (sc_Checks site)) in
     if warn \<le> 0 then DefaultSSLWarnDays else warn)"

text \<open>\<open>None\<close>: the rule does not fire.\<close>

definition render :: "surroundings \<Rightarrow> registry \<Rightarrow> event \<Rightarrow> string \<Rightarrow> alert_rule \<Rightarrow> alert_channel \<Rightarrow>
    (message \<times> string) option" where
  "render su db e kind rule ch =
     (let site = ev_Site e; tr = ev_Transition e in
      if kind = AlertSiteDown then
        (if tr_ConsecutiveFailures tr \<noteq> confirm_threshold rule then None
         else Some (down_message e, down_key (sc_ID site) (tr_IncidentID tr) (ch_ID ch)))
      else if kind = AlertSiteRecovered then
        (let downKey = down_key (sc_ID site) (tr_IncidentID tr) (ch_ID ch) in
         if su_Fault su (Check_exists downKey) then None
         else if \<not> delivery_exists db downKey then None
         else Some (up_message e, up_key (sc_ID site) (tr_IncidentID tr) (ch_ID ch)))
      else if kind = AlertSSLExpiring then
        (let daysLeft = days_left (su_NowNs su) (tr_SSLExpiresAt tr) in
         if daysLeft > ssl_warn_days site then None
         else Some (ssl_message e daysLeft, ssl_key (sc_ID site) (tr_SSLExpiresAt tr) (ch_ID ch)))
      else None)"

subsection \<open>Delivering\<close>

text \<open>
  The retry loop: \<open>Inr n\<close> when attempt \<open>n\<close> succeeded, \<open>Inl err\<close> with the last error when the
  loop ended; the list holds the result of each \<open>Send\<close> in order.
\<close>

function send_loop :: "(int \<Rightarrow> string option) \<Rightarrow> (int \<Rightarrow> bool) \<Rightarrow> int \<Rightarrow> int \<Rightarrow> string \<Rightarrow>
    (string + int) \<times> bool list" where
  "send_loop send stop retries attempt lastErr =
     (if attempt \<le> retries + 1 then
        (case send attempt of
           None \<Rightarrow> (Inr attempt, [True])
         | Some err \<Rightarrow>
             let attempt' = (if attempt \<le> retries \<and> stop attempt then retries + 1 else attempt);
                 (r, oks) = send_loop send stop retries (attempt' + 1) err
             in (r, False # oks))
      else (Inl lastErr, []))"
  by pat_completeness auto
termination
  by (relation "measure (\<lambda>(_, _, retries, attempt, _). nat (retries + 2 - attempt))") auto

declare send_loop.simps [simp del]

definition deliver :: "surroundings \<Rightarrow> int \<Rightarrow> int \<Rightarrow> string \<Rightarrow> alert_channel \<Rightarrow> message \<Rightarrow>
    dispatcher \<Rightarrow> dispatcher" where
  "deliver su retries deliveryID key ch msg d =
     (let (r, oks) = send_loop (su_Send su key) (su_Shutdown su key) retries 1 [];
          calls = map (\<lambda>ok. \<lparr>sd_Delivery = deliveryID, sd_Key = key, sd_To = ch_Target ch,
             sd_Subject = ms_Subject msg, sd_Body = ms_Body msg, sd_Ok = ok\<rparr>) oks;
          d = d\<lparr>dp_Sends := dp_Sends d @ calls\<rparr>
      in if su_Fault su (Mark deliveryID) then d
         else case r of
           Inr attempt \<Rightarrow> d\<lparr>dp_Registry := mark_delivery_sent (su_Now su) deliveryID attempt (dp_Registry d)\<rparr>
         | Inl err \<Rightarrow> d\<lparr>dp_Registry := mark_delivery_failed deliveryID (retries + 1) err (dp_Registry d)\<rparr>)"

definition claim_of :: "event \<Rightarrow> string \<Rightarrow> alert_channel \<Rightarrow> message \<Rightarrow> string \<Rightarrow> alert_delivery" where
  "claim_of e kind ch msg key =
     \<lparr>de_ID = 0, de_DedupeKey = key, de_SiteID = sc_ID (ev_Site e), de_Kind = kind, de_ChannelID = ch_ID ch,
      de_IncidentID = (let v = tr_IncidentID (ev_Transition e) in if v \<noteq> 0 then Some v else None),
      de_Subject = ms_Subject msg, de_Status = [], de_Attempts = 0, de_Error = None,
      de_CreatedAt = 0, de_SentAt = None\<rparr>"

definition apply_rule :: "surroundings \<Rightarrow> int \<Rightarrow> event \<Rightarrow> string \<Rightarrow> dispatcher \<Rightarrow> alert_rule \<Rightarrow> dispatcher" where
  "apply_rule su retries e kind d rule =
     (if su_Fault su (Load_channel (ru_ChannelID rule)) then d
      else case get_alert_channel (dp_Registry d) (ru_ChannelID rule) of
        Inl _ \<Rightarrow> d
      | Inr ch \<Rightarrow>
          (case render su (dp_Registry d) e kind rule ch of
             None \<Rightarrow> d
           | Some (msg, key) \<Rightarrow>
               if su_Fault su (Claim key) then d
               else case claim_delivery (su_Now su) (claim_of e kind ch msg key) (dp_Registry d) of
                 Inl _ \<Rightarrow> d
               | Inr (deliveryID, db) \<Rightarrow> deliver su retries deliveryID key ch msg (d\<lparr>dp_Registry := db\<rparr>)))"

definition handle_kind :: "surroundings \<Rightarrow> int \<Rightarrow> event \<Rightarrow> dispatcher \<Rightarrow> string \<Rightarrow> dispatcher" where
  "handle_kind su retries e d k =
     (if su_Fault su (Load_rules k) then d
      else foldl (apply_rule su retries e k) d (rules_for (dp_Registry d) (sc_ID (ev_Site e)) k))"

definition handle :: "surroundings \<Rightarrow> int \<Rightarrow> dispatcher \<Rightarrow> event \<Rightarrow> dispatcher" where
  "handle su retries d e = foldl (handle_kind su retries e) d (kinds_for e)"

end
