(* ===== verification/DispatchLaws.thy ===== *)
theory DispatchLaws
  imports Dispatch "HOL-Library.Sublist"
begin

section \<open>Properties of the dispatcher\<close>

text \<open>
  What deduplication promises: a key is claimed once under any interleaving of registry
  operations, an alert is sent successfully at most once, with a bounded number of
  attempts, and a recovery goes only to a channel that was told of the outage.  The queue
  loses nothing it does not count.
\<close>

subsection \<open>Dedupe keys\<close>

lemma dedupe_key_rest: "dedupe_key tag site a b = dedupe_key tag site' a' b' \<Longrightarrow>
    dedupe_key tag' site a b = dedupe_key tag' site' a' b'"
  by (simp add: dedupe_key_def)

lemma dedupe_key_inj:
  assumes "CHR '':'' \<notin> set tag" "CHR '':'' \<notin> set tag'" "CHR '':'' \<notin> set s" "CHR '':'' \<notin> set s'"
    and "dedupe_key tag s a b = dedupe_key tag' s' a' b'"
  shows "tag = tag' \<and> s = s' \<and> a = a' \<and> b = b'"
proof -
  from assms(5) have eq: "tag @ CHR '':'' # (s @ CHR '':'' # (show_int a @ CHR '':'' # show_int b))
      = tag' @ CHR '':'' # (s' @ CHR '':'' # (show_int a' @ CHR '':'' # show_int b'))"
    by (simp add: dedupe_key_def)
  from append_sep_inj [OF eq assms(1,2)] have 1: "tag = tag'"
    "s @ CHR '':'' # (show_int a @ CHR '':'' # show_int b) = s' @ CHR '':'' # (show_int a' @ CHR '':'' # show_int b')"
    by auto
  from append_sep_inj [OF 1(2) assms(3,4)] have 2: "s = s'"
    "show_int a @ CHR '':'' # show_int b = show_int a' @ CHR '':'' # show_int b'" by auto
  from append_sep_inj [OF 2(2)] have "a = a'" "b = b'" by (auto simp: show_int_inj)
  with 1 2 show ?thesis by simp
qed

text \<open>
  C33: alerts that are different never share a dedupe key: for sites whose ids are slugs, equal
  keys mean the same kind of alert, the same site, the same incident or expiry date, and the
  same channel.
\<close>

theorem dedupe_keys_distinguish:
  assumes "is_slug s" "is_slug s'"
  shows "(down_key s i c = down_key s' i' c' \<longleftrightarrow> s = s' \<and> i = i' \<and> c = c') \<and>
    (up_key s i c = up_key s' i' c' \<longleftrightarrow> s = s' \<and> i = i' \<and> c = c') \<and>
    (ssl_key s i c = ssl_key s' i' c' \<longleftrightarrow> s = s' \<and> i = i' \<and> c = c') \<and>
    down_key s i c \<noteq> up_key s' i' c' \<and> down_key s i c \<noteq> ssl_key s' i' c' \<and> up_key s i c \<noteq> ssl_key s' i' c'"
proof -
  note c = slug_no_colon [OF assms(1)] slug_no_colon [OF assms(2)]
  have same: "dedupe_key t s i c = dedupe_key t s' i' c' \<longleftrightarrow> s = s' \<and> i = i' \<and> c = c'"
    if "CHR '':'' \<notin> set t" for t
    using dedupe_key_inj [OF that that c] by auto
  have "dedupe_key t x i c \<noteq> dedupe_key t' y i' c'" if "hd t \<noteq> hd t'" "t \<noteq> []" "t' \<noteq> []" for t t' x y
    using that by (cases t; cases t') (auto simp: dedupe_key_def)
  then show ?thesis by (simp add: down_key_def up_key_def ssl_key_def same)
qed

theorem dedupe_keys_distinguish_witness: "down_key ''shop'' 1 23 \<noteq> down_key ''shop'' 12 3"
proof -
  have "is_slug ''shop''" by (simp add: is_slug_def slug_char_def byte_defs)
  from dedupe_keys_distinguish [OF this this] show ?thesis by simp
qed

subsection \<open>The ledger under interleaving\<close>

text \<open>The keys whose claim succeeded in a run of registry operations, in order.\<close>

fun claims_won :: "registry \<Rightarrow> registry_op list \<Rightarrow> string list" where
  "claims_won db [] = []"
| "claims_won db (e # es) =
     (case e of
        Claim_delivery now d \<Rightarrow> (case claim_delivery now d db of Inl _ \<Rightarrow> [] | Inr _ \<Rightarrow> [de_DedupeKey d])
      | _ \<Rightarrow> []) @ claims_won (reg_exec db e) es"

abbreviation ledger_keys :: "registry \<Rightarrow> string list" where
  "ledger_keys db \<equiv> map de_DedupeKey (rg_Deliveries db)"

lemma claim_delivery_cases:
  "claim_delivery now d db =
     (if de_DedupeKey d \<in> set (ledger_keys db) then Inl ErrDeliveryClaimed
      else Inr (next_rowid (map de_ID (rg_Deliveries db)),
        db\<lparr>rg_Deliveries := rg_Deliveries db @ [d\<lparr>de_ID := next_rowid (map de_ID (rg_Deliveries db)),
          de_Status := DeliveryPending, de_Attempts := 0, de_Error := None, de_CreatedAt := now,
          de_SentAt := None\<rparr>]\<rparr>))"
  by (auto simp: claim_delivery_def Let_def delivery_insert_def tbl_insert_def tbl_has_iff)

lemma ledger_keys_mark [simp]:
  "ledger_keys (mark_delivery_sent now i n db) = ledger_keys db"
  "ledger_keys (mark_delivery_failed i n c db) = ledger_keys db"
  by (simp_all add: mark_delivery_sent_def mark_delivery_failed_def map_key_tbl_set_other)

lemma delivery_exists_iff: "delivery_exists db k \<longleftrightarrow> k \<in> set (ledger_keys db)"
  by (auto simp: delivery_exists_def filter_empty_conv)

text \<open>Operations other than a claim leave the ledger's keys alone.\<close>

lemma ledger_keys_exec:
  "ledger_keys (reg_exec db e) = ledger_keys db @ claims_won db [e]"
proof (cases e)
  case (Claim_delivery now d)
  then show ?thesis by (simp add: claim_delivery_cases stored_def)
qed (auto simp: stored_def registry_create_def site_insert_def registry_update_def registry_delete_def
    site_remove_def create_session_def session_insert_def lookup_session_def delete_session_def
    touch_session_def purge_expired_sessions_def create_admin_user_def set_admin_password_def Let_def
    create_alert_channel_def update_alert_channel_def delete_alert_channel_def create_alert_rule_def
    update_alert_rule_def delete_alert_rule_def split: option.splits if_splits)

lemma ledger_keys_run: "ledger_keys (foldl reg_exec db es) = ledger_keys db @ claims_won db es"
proof (induction es arbitrary: db)
  case (Cons e es)
  then show ?case using ledger_keys_exec [of db e] by simp
qed simp

text \<open>
  The right to send an alert is granted once, for ever.  In any sequence of registry
  operations, hence under any interleaving of workers, handlers and restarts, no dedupe key is
  claimed successfully twice, and a further claim succeeds exactly when its key was
  never claimed before.
\<close>

theorem claim_exactly_once:
  "let db = foldl reg_exec empty_registry es in
   distinct (claims_won empty_registry es) \<and>
   is_err (claim_delivery now d db) = (de_DedupeKey d \<in> set (claims_won empty_registry es)) \<and>
   delivery_exists db k = (k \<in> set (claims_won empty_registry es))"
proof -
  define db where "db = foldl reg_exec empty_registry es"
  have inv: "reg_inv db" unfolding db_def by (rule reg_run.run_inv) simp
  have keys: "ledger_keys db = claims_won empty_registry es"
    using ledger_keys_run [of empty_registry es] by (simp add: db_def empty_registry_def)
  have "distinct (ledger_keys db)" using inv by (simp add: reg_inv_def unique_by_def)
  moreover note delivery_exists_iff [of db k]
  moreover have "is_err (claim_delivery now d db) = (de_DedupeKey d \<in> set (ledger_keys db))"
    by (simp add: claim_delivery_cases)
  ultimately show ?thesis by (simp add: Let_def keys flip: db_def)
qed

subsection \<open>One delivery\<close>

text \<open>What the retry loop returns when it stands before attempt \<open>a\<close>.\<close>

lemma send_loop_spec:
  assumes "send_loop send stop retries a e = (r, oks)"
  shows "(case r of
      Inr n \<Rightarrow> a \<le> n \<and> n \<le> retries + 1 \<and> send n = None \<and>
        list_all (\<lambda>i. send i \<noteq> None \<and> \<not> stop i) [a..n - 1] \<and> oks = replicate (nat (n - a)) False @ [True]
    | Inl err \<Rightarrow> list_all Not oks \<and> length oks \<le> nat (retries + 2 - a) \<and>
        (if a \<le> retries + 1 then oks \<noteq> [] \<and> send (a + int (length oks) - 1) = Some err \<and>
           (if length oks = nat (retries + 2 - a) then True else stop (a + int (length oks) - 1))
         else oks = [] \<and> err = e))"
  using assms
proof (induction send stop retries a e arbitrary: r oks rule: send_loop.induct)
  case (1 send stop retries a e)
  show ?case
  proof (cases "a \<le> retries + 1")
    case False
    with "1.prems" show ?thesis by (auto simp: send_loop.simps [of send stop retries a e])
  next
    case in_range: True
    show ?thesis
    proof (cases "send a")
      case None
      with "1.prems" in_range show ?thesis by (auto simp: send_loop.simps [of send stop retries a e])
    next
      case (Some err)
      define a' where "a' = (if a \<le> retries \<and> stop a then retries + 1 else a)"
      obtain r' oks' where rec: "send_loop send stop retries (a' + 1) err = (r', oks')" by fastforce
      from "1.prems" in_range Some rec have r: "r = r'" "oks = False # oks'"
        by (auto simp: send_loop.simps [of send stop retries a e] Let_def a'_def)
      note IH = "1.IH" [OF in_range Some a'_def rec]
      show ?thesis
      proof (cases "a \<le> retries \<and> stop a")
        case True
        then have "a' = retries + 1" by (simp add: a'_def)
        with rec have "r' = Inl err" "oks' = []" by (auto simp: send_loop.simps)
        moreover have "Suc 0 \<le> nat (retries + 2 - a)" using in_range by linarith
        ultimately show ?thesis using True r Some in_range by simp
      next
        case False
        then have a': "a' = a" by (simp add: a'_def)
        show ?thesis
        proof (cases r')
          case (Inr n)
          with IH a' have n: "a + 1 \<le> n" "n \<le> retries + 1" "send n = None"
            "list_all (\<lambda>i. send i \<noteq> None \<and> \<not> stop i) [a + 1..n - 1]"
            "oks' = replicate (nat (n - (a + 1))) False @ [True]" by auto
          from n(1,2) have "a \<le> retries" by simp
          with False have "\<not> stop a" by simp
          moreover have "[a..n - 1] = a # [a + 1..n - 1]" using n(1) by (simp add: upto_rec1)
          moreover have "nat (n - a) = Suc (nat (n - (a + 1)))" using n(1) by simp
          ultimately show ?thesis using n r Inr Some by simp
        next
          case (Inl err')
          show ?thesis
          proof (cases "a + 1 \<le> retries + 1")
            case True
            with IH a' Inl have "list_all Not oks'" "length oks' \<le> nat (retries + 2 - (a + 1))" "oks' \<noteq> []"
              "send (a + 1 + int (length oks') - 1) = Some err'"
              "if length oks' = nat (retries + 2 - (a + 1)) then True else stop (a + 1 + int (length oks') - 1)"
              by auto
            with True r Inl show ?thesis by (auto simp: algebra_simps split: if_splits)
          next
            case False
            with IH a' Inl have "oks' = []" "err' = err" by auto
            with False in_range r Inl Some show ?thesis by simp
          qed
        qed
      qed
    qed
  qed
qed

text \<open>
  C36: one delivery makes at most \<open>retries + 1\<close> attempts and stops at the first success.  It
  succeeds at attempt \<open>n\<close> exactly after \<open>n - 1\<close> failures, none of them followed by a shutdown;
  it gives up only with the error of its last attempt, and before the last permitted attempt
  only because a shutdown interrupted the back-off.
\<close>

theorem send_loop_outcome:
  "case send_loop send stop retries 1 [] of
     (Inr n, oks) \<Rightarrow> 1 \<le> n \<and> n \<le> retries + 1 \<and> send n = None \<and>
       list_all (\<lambda>i. send i \<noteq> None \<and> \<not> stop i) [1..n - 1] \<and> oks = replicate (nat (n - 1)) False @ [True]
   | (Inl err, oks) \<Rightarrow> list_all Not oks \<and> length oks \<le> nat (retries + 1) \<and>
       (if 0 \<le> retries then oks \<noteq> [] \<and> send (int (length oks)) = Some err \<and>
          (length oks = nat (retries + 1) \<or> stop (int (length oks)))
        else oks = [])"
proof -
  obtain r oks where "send_loop send stop retries 1 [] = (r, oks)" by fastforce
  with send_loop_spec [OF this] show ?thesis by (cases r) (auto split: if_splits)
qed

lemma send_loop_counts:
  assumes "send_loop send stop retries 1 e = (r, oks)"
  shows "length oks \<le> nat (retries + 1)" "length (filter (\<lambda>b. b) oks) \<le> 1"
    "(\<exists>n. r = Inr n) \<longleftrightarrow> True \<in> set oks"
proof -
  from send_loop_spec [OF assms] have "length oks \<le> nat (retries + 1) \<and> length (filter (\<lambda>b. b) oks) \<le> 1 \<and>
      ((\<exists>n. r = Inr n) \<longleftrightarrow> True \<in> set oks)"
  proof (cases r)
    case (Inl err)
    with send_loop_spec [OF assms] have n: "list_all Not oks" "length oks \<le> nat (retries + 2 - 1)" by auto
    then have "filter (\<lambda>b. b) oks = []" by (auto simp: list_all_iff filter_empty_conv)
    with n Inl show ?thesis by (auto simp: list_all_iff)
  next
    case (Inr n)
    with send_loop_spec [OF assms] have "1 \<le> n" "n \<le> retries + 1" "oks = replicate (nat (n - 1)) False @ [True]"
      by auto
    with Inr show ?thesis by (auto simp: filter_replicate)
  qed
  then show "length oks \<le> nat (retries + 1)" "length (filter (\<lambda>b. b) oks) \<le> 1"
    "(\<exists>n. r = Inr n) \<longleftrightarrow> True \<in> set oks" by auto
qed

subsection \<open>One rule\<close>

abbreviation disp_keys :: "dispatcher \<Rightarrow> string list" where
  "disp_keys d \<equiv> ledger_keys (dp_Registry d)"

definition same_config :: "registry \<Rightarrow> registry \<Rightarrow> bool" where
  "same_config db db' \<longleftrightarrow> rg_Sites db' = rg_Sites db \<and> rg_Users db' = rg_Users db \<and>
     rg_Sessions db' = rg_Sessions db \<and> rg_Channels db' = rg_Channels db \<and> rg_Rules db' = rg_Rules db"

lemma same_config_refl [simp]: "same_config db db"
  by (simp add: same_config_def)

lemma same_config_trans: "same_config a b \<Longrightarrow> same_config b c \<Longrightarrow> same_config a c"
  by (simp add: same_config_def)

lemma deliver_effect:
  obtains calls where
    "dp_Sends (deliver su retries i key ch msg d) = dp_Sends d @ calls"
    "disp_keys (deliver su retries i key ch msg d) = disp_keys d"
    "same_config (dp_Registry d) (dp_Registry (deliver su retries i key ch msg d))"
    "list_all (\<lambda>c. sd_Key c = key) calls" "length calls \<le> nat (retries + 1)"
    "length (filter sd_Ok calls) \<le> 1"
proof -
  obtain r oks where l: "send_loop (su_Send su key) (su_Shutdown su key) retries 1 [] = (r, oks)" by fastforce
  define calls where "calls = map (\<lambda>ok. \<lparr>sd_Delivery = i, sd_Key = key, sd_To = ch_Target ch,
             sd_Subject = ms_Subject msg, sd_Body = ms_Body msg, sd_Ok = ok\<rparr>) oks"
  have sends: "dp_Sends (deliver su retries i key ch msg d) = dp_Sends d @ calls"
    by (simp add: deliver_def l calls_def Let_def split: sum.split)
  moreover have "disp_keys (deliver su retries i key ch msg d) = disp_keys d"
    by (simp add: deliver_def l Let_def split: sum.split)
  moreover have "same_config (dp_Registry d) (dp_Registry (deliver su retries i key ch msg d))"
    by (simp add: deliver_def l Let_def same_config_def mark_delivery_sent_def mark_delivery_failed_def
        split: sum.split)
  moreover have "list_all (\<lambda>c. sd_Key c = key) calls" by (simp add: calls_def list_all_iff)
  moreover have "length calls \<le> nat (retries + 1)" "length (filter sd_Ok calls) \<le> 1"
    using send_loop_counts [OF l] by (simp_all add: calls_def filter_map comp_def)
  ultimately show thesis by (rule that)
qed

text \<open>Either a rule changes nothing, or it claims one new key and makes the calls for it.\<close>

lemma apply_rule_effect:
  obtains (nothing) "apply_rule su retries e k d rule = d"
  | (fires) ch msg key calls where
    "get_alert_channel (dp_Registry d) (ru_ChannelID rule) = Inr ch"
    "render su (dp_Registry d) e k rule ch = Some (msg, key)"
    "key \<notin> set (disp_keys d)"
    "disp_keys (apply_rule su retries e k d rule) = disp_keys d @ [key]"
    "same_config (dp_Registry d) (dp_Registry (apply_rule su retries e k d rule))"
    "dp_Sends (apply_rule su retries e k d rule) = dp_Sends d @ calls"
    "list_all (\<lambda>c. sd_Key c = key) calls" "length calls \<le> nat (retries + 1)"
    "length (filter sd_Ok calls) \<le> 1"
proof (cases "apply_rule su retries e k d rule = d")
  case True
  then show thesis by (rule nothing)
next
  case False
  then obtain ch msg key i db where ch: "get_alert_channel (dp_Registry d) (ru_ChannelID rule) = Inr ch"
    and msg: "render su (dp_Registry d) e k rule ch = Some (msg, key)"
    and claim: "claim_delivery (su_Now su) (claim_of e k ch msg key) (dp_Registry d) = Inr (i, db)"
    and ap: "apply_rule su retries e k d rule = deliver su retries i key ch msg (d\<lparr>dp_Registry := db\<rparr>)"
    by (auto simp: apply_rule_def split: sum.splits option.splits if_splits)
  from claim have new: "key \<notin> set (disp_keys d)" and keys: "ledger_keys db = disp_keys d @ [key]"
    and cfg: "same_config (dp_Registry d) db"
    by (auto simp: claim_delivery_cases claim_of_def same_config_def split: if_splits)
  obtain calls where c:
    "dp_Sends (deliver su retries i key ch msg (d\<lparr>dp_Registry := db\<rparr>)) = dp_Sends (d\<lparr>dp_Registry := db\<rparr>) @ calls"
    "disp_keys (deliver su retries i key ch msg (d\<lparr>dp_Registry := db\<rparr>)) = disp_keys (d\<lparr>dp_Registry := db\<rparr>)"
    "same_config (dp_Registry (d\<lparr>dp_Registry := db\<rparr>))
       (dp_Registry (deliver su retries i key ch msg (d\<lparr>dp_Registry := db\<rparr>)))"
    "list_all (\<lambda>c. sd_Key c = key) calls" "length calls \<le> nat (retries + 1)" "length (filter sd_Ok calls) \<le> 1"
    by (rule deliver_effect)
  show thesis
    using ch msg new by (rule fires) (use c keys same_config_trans [OF cfg] in \<open>simp_all add: ap\<close>)
qed

subsection \<open>The invariant of the dispatcher\<close>

definition calls_for :: "string \<Rightarrow> dispatcher \<Rightarrow> send_call list" where
  "calls_for k d = filter (\<lambda>c. sd_Key c = k) (dp_Sends d)"

definition disp_inv :: "int \<Rightarrow> dispatcher \<Rightarrow> bool" where
  "disp_inv retries d \<longleftrightarrow> distinct (disp_keys d) \<and>
     (\<forall>k. (if k \<in> set (disp_keys d)
           then length (calls_for k d) \<le> nat (retries + 1) \<and> length (filter sd_Ok (calls_for k d)) \<le> 1
           else calls_for k d = [])) \<and>
     (\<forall>s i c. up_key s i c \<in> set (disp_keys d) \<longrightarrow> down_key s i c \<in> set (disp_keys d))"

lemma disp_invD:
  assumes "disp_inv retries d"
  shows "length (calls_for k d) \<le> nat (retries + 1)" "length (filter sd_Ok (calls_for k d)) \<le> 1"
    "calls_for k d \<noteq> [] \<Longrightarrow> k \<in> set (disp_keys d)"
    "up_key s i c \<in> set (disp_keys d) \<Longrightarrow> down_key s i c \<in> set (disp_keys d)"
proof -
  have "if k \<in> set (disp_keys d)
      then length (calls_for k d) \<le> nat (retries + 1) \<and> length (filter sd_Ok (calls_for k d)) \<le> 1
      else calls_for k d = []"
    using assms unfolding disp_inv_def by blast
  then show "length (calls_for k d) \<le> nat (retries + 1)" "length (filter sd_Ok (calls_for k d)) \<le> 1"
    "calls_for k d \<noteq> [] \<Longrightarrow> k \<in> set (disp_keys d)"
    by (simp_all split: if_splits)
  show "up_key s i c \<in> set (disp_keys d) \<Longrightarrow> down_key s i c \<in> set (disp_keys d)"
    using assms unfolding disp_inv_def by blast
qed

lemma disp_inv_cong: "disp_keys d' = disp_keys d \<Longrightarrow> dp_Sends d' = dp_Sends d \<Longrightarrow> disp_inv retries d' = disp_inv retries d"
  by (simp only: disp_inv_def calls_for_def)

lemma up_key_not_down: "up_key s i c \<noteq> down_key s' i' c'" "up_key s i c \<noteq> ssl_key s' i' c'"
  by (simp_all add: up_key_def down_key_def ssl_key_def dedupe_key_def)

lemma render_up:
  assumes "render su db e k rule ch = Some (msg, key)" "key = up_key s i c"
  shows "down_key s i c \<in> set (ledger_keys db)"
proof -
  let ?s = "sc_ID (ev_Site e)" and ?i = "tr_IncidentID (ev_Transition e)" and ?c = "ch_ID ch"
  from assms have "key = up_key ?s ?i ?c \<and> delivery_exists db (down_key ?s ?i ?c)"
    by (auto simp: render_def Let_def up_key_not_down up_key_not_down [symmetric] split: if_splits)
  then have k: "up_key s i c = up_key ?s ?i ?c" "down_key ?s ?i ?c \<in> set (ledger_keys db)"
    using assms(2) by (simp_all add: delivery_exists_iff)
  from k(1) have "down_key s i c = down_key ?s ?i ?c"
    unfolding up_key_def down_key_def by (rule dedupe_key_rest)
  with k(2) show ?thesis by simp
qed

lemma apply_rule_inv: "disp_inv retries d \<Longrightarrow> disp_inv retries (apply_rule su retries e k d rule)"
proof (cases rule: apply_rule_effect [of su retries e k d rule])
  case nothing
  moreover assume "disp_inv retries d"
  ultimately show ?thesis by simp
next
  case (fires ch msg key calls)
  assume inv: "disp_inv retries d"
  let ?d = "apply_rule su retries e k d rule"
  have sends: "calls_for k' ?d = calls_for k' d @ (if k' = key then calls else [])" for k'
    using fires(7) by (auto simp: calls_for_def fires(6) list_all_iff filter_empty_conv)
  have "calls_for key d = []" using inv fires(3) by (auto simp: disp_inv_def split: if_splits)
  then have "if k' \<in> set (disp_keys ?d)
      then length (calls_for k' ?d) \<le> nat (retries + 1) \<and> length (filter sd_Ok (calls_for k' ?d)) \<le> 1
      else calls_for k' ?d = []" for k'
    using inv fires(8,9) by (cases "k' = key") (auto simp: disp_inv_def sends fires(4) split: if_splits)
  moreover have "down_key s i c \<in> set (disp_keys ?d)" if "up_key s i c \<in> set (disp_keys ?d)" for s i c
    using that inv render_up [OF fires(2), of s i c] by (auto simp: disp_inv_def fires(4))
  moreover have "distinct (disp_keys ?d)" using inv fires(3) by (simp add: disp_inv_def fires(4))
  ultimately show ?thesis unfolding disp_inv_def by blast
qed

interpretation rules_run: stepping "apply_rule su retries e k" "disp_inv retries" for su retries e k
  by unfold_locales (rule apply_rule_inv)

interpretation kinds_run: stepping "handle_kind su retries e" "disp_inv retries" for su retries e
  by unfold_locales (simp add: handle_kind_def rules_run.run_inv)

text \<open>
  The life of the system as the dispatcher sees it: events handled, each in its own
  surroundings, and between them any operation on the registry other than the dispatcher's
  own (the API's changes to sites, channels and rules).  A restart changes neither the registry
  nor the log of what was sent.
\<close>

datatype disp_step = Handle surroundings event | Operate registry_op

fun dispatcher_op :: "registry_op \<Rightarrow> bool" where
  "dispatcher_op (Claim_delivery _ _) = True"
| "dispatcher_op (Mark_sent _ _ _) = True"
| "dispatcher_op (Mark_failed _ _ _) = True"
| "dispatcher_op _ = False"

fun disp_exec :: "int \<Rightarrow> dispatcher \<Rightarrow> disp_step \<Rightarrow> dispatcher" where
  "disp_exec retries d (Handle su e) = handle su retries d e"
| "disp_exec retries d (Operate ro) =
     (if dispatcher_op ro then d else d\<lparr>dp_Registry := reg_exec (dp_Registry d) ro\<rparr>)"

definition start_dispatcher :: "registry \<Rightarrow> dispatcher" where
  "start_dispatcher db = \<lparr>dp_Registry = db, dp_Sends = []\<rparr>"

lemma ledger_keys_operate: "\<not> dispatcher_op ro \<Longrightarrow> ledger_keys (reg_exec db ro) = ledger_keys db"
  using ledger_keys_exec [of db ro] by (cases ro) simp_all

interpretation system_run: stepping "disp_exec retries" "disp_inv retries" for retries
proof unfold_locales
  fix d s
  assume inv: "disp_inv retries d"
  show "disp_inv retries (disp_exec retries d s)"
  proof (cases s)
    case (Handle su e)
    with inv show ?thesis by (simp add: handle_def kinds_run.run_inv)
  next
    case (Operate ro)
    have "disp_inv retries (disp_exec retries d (Operate ro)) = disp_inv retries d"
      by (rule disp_inv_cong) (simp_all add: ledger_keys_operate)
    with inv Operate show ?thesis by simp
  qed
qed

lemma start_dispatcher_inv: "disp_inv retries (start_dispatcher empty_registry)"
  by (simp add: disp_inv_def start_dispatcher_def empty_registry_def calls_for_def)

lemmas run_inv_start = system_run.run_inv [OF start_dispatcher_inv]

text \<open>
  C10: no alert is delivered twice.  Whatever events arrive, however sends fail, time out or are
  interrupted, and whatever is changed through the API in between, each dedupe key is sent
  successfully at most once, over at most \<open>retries + 1\<close> attempts, and only when it is in
  the ledger.
\<close>

theorem alert_sent_at_most_once:
  "let d = foldl (disp_exec retries) (start_dispatcher empty_registry) steps;
       calls = filter (\<lambda>c. sd_Key c = k) (dp_Sends d)
   in length (filter sd_Ok calls) \<le> 1 \<and> length calls \<le> nat (retries + 1) \<and>
      (if calls \<noteq> [] then delivery_exists (dp_Registry d) k else True)"
  using disp_invD [OF run_inv_start [of retries steps], of k]
  by (simp only: Let_def delivery_exists_iff calls_for_def) simp

text \<open>
  A channel is never told that a site came back unless that channel was told that it went
  down in the same incident: a recovery in the ledger has its outage in the ledger.
\<close>

theorem recovery_only_if_announced:
  "let db = dp_Registry (foldl (disp_exec retries) (start_dispatcher empty_registry) steps)
   in if delivery_exists db (up_key site inc ch) then delivery_exists db (down_key site inc ch) else True"
  using disp_invD(4) [OF run_inv_start [of retries steps], of site inc ch]
  by (simp only: Let_def delivery_exists_iff split: if_split) simp

subsection \<open>The queue\<close>

datatype 'e queue_op = Enqueue 'e | Receive

text \<open>A run of the queue with what the workers received, in order.\<close>

fun queue_step :: "'e alert_queue \<times> 'e list \<Rightarrow> 'e queue_op \<Rightarrow> 'e alert_queue \<times> 'e list" where
  "queue_step (q, got) (Enqueue e) = (case enqueue e q of None \<Rightarrow> (q, got) | Some q' \<Rightarrow> (q', got))"
| "queue_step (q, got) Receive = (case receive q of None \<Rightarrow> (q, got) | Some (e, q') \<Rightarrow> (q', got @ [e]))"

definition offered :: "'e queue_op list \<Rightarrow> 'e list" where
  "offered ops = concat (map (\<lambda>x. case x of Enqueue e \<Rightarrow> [e] | Receive \<Rightarrow> []) ops)"

lemma offered_snoc [simp]:
  "offered [] = []" "offered (ops @ [Enqueue e]) = offered ops @ [e]" "offered (ops @ [Receive]) = offered ops"
  by (simp_all add: offered_def)

interpretation queue_run: stepping queue_step "\<lambda>(q, got). \<not> qu_Closed q"
proof unfold_locales
  fix s :: "'e alert_queue \<times> 'e list" and e
  assume "case s of (q, got) \<Rightarrow> \<not> qu_Closed q"
  then show "case queue_step s e of (q, got) \<Rightarrow> \<not> qu_Closed q"
    by (cases s; cases e) (auto simp: enqueue_def receive_def split: list.split)
qed

text \<open>
  \<open>Enqueue\<close> never blocks and never loses an event silently: the queue stays within its size;
  what the workers received followed by what still waits is the offered events in order
  with some left out, and the number left out is the count that \<open>Dropped\<close> reports.
\<close>

theorem queue_accounts_for_every_event:
  "let (q, got) = foldl queue_step (new_queue opts, []) ops in
   int (length (qu_Items q)) \<le> qu_Size q \<and> 0 < qu_Size q \<and>
   subseq (got @ qu_Items q) (offered ops) \<and>
   int (length (offered ops)) = int (length (got @ qu_Items q)) + qu_Dropped q"
proof (induction ops rule: rev_induct)
  case Nil
  then show ?case by (simp add: new_queue_def with_defaults_def Let_def)
next
  case (snoc x ops)
  obtain q got where run: "foldl queue_step (new_queue opts, []) ops = (q, got)" by fastforce
  have "case foldl queue_step (new_queue opts, []) ops of (q, got) \<Rightarrow> \<not> qu_Closed q"
    by (rule queue_run.run_inv) (simp add: new_queue_def)
  with run have open_queue: "\<not> qu_Closed q" by simp
  show ?case
  proof (cases x)
    case (Enqueue e)
    have "subseq (got @ qu_Items q) (offered ops @ [e])"
      using snoc run by (simp add: subseq_rev_drop_many list_emb_append2)
    then show ?thesis using snoc run Enqueue open_queue
      by (auto simp: enqueue_def simp flip: append_assoc intro: list_emb_append_mono)
  next
    case Receive
    with snoc run show ?thesis by (auto simp: receive_def split: list.split)
  qed
qed

end
