(* ===== verification/Pipeline.thy ===== *)
theory Pipeline
  imports Outages DispatchLaws
begin

section \<open>From ticks to mail (scheduler tick, RecordTick, OnTransition hook, dispatcher)\<close>

text \<open>
  The path of one site's outage through three packages: the scheduler records the tick, the
  hook of \<open>cmd/monitor\<close> enqueues the transition, a worker handles it.  Here the events are
  handled in order and none is dropped (the queue theorem counts the drops).  Two results:
  with an immediate rule every outage and every recovery is announced once;
  with a rule that waits for confirmation the key loses the incident, so at most the first
  outage is announced and no recovery ever.
\<close>

text \<open>
  One round: the tick with the statements that fail, the dispatcher's surroundings and the time
  of the event.  A tick whose transaction fails notifies nobody.
\<close>

record round =
  ro_Fault :: "tick_stmt \<Rightarrow> bool"
  ro_Tick :: tick
  ro_Around :: surroundings
  ro_At :: unix

definition monitor_round :: "site_config \<Rightarrow> int \<Rightarrow> site_db \<times> dispatcher \<Rightarrow> round \<Rightarrow> site_db \<times> dispatcher" where
  "monitor_round site retries st r =
     (let (sdb, d) = st; (sdb', tr, err) = record_tick (ro_Fault r) (ro_Tick r) sdb in
      if err \<noteq> None then (sdb', d)
      else (sdb', handle (ro_Around r) retries d
             \<lparr>ev_Site = site, ev_Transition = tr, ev_At = ro_At r\<rparr>))"

definition monitor_run :: "site_config \<Rightarrow> int \<Rightarrow> site_db \<times> dispatcher \<Rightarrow> round list \<Rightarrow> site_db \<times> dispatcher" where
  "monitor_run site retries st rs = foldl (monitor_round site retries) st rs"

definition round_event :: "site_config \<Rightarrow> tick list \<Rightarrow> round \<Rightarrow> event" where
  "round_event site ts r =
     \<lparr>ev_Site = site, ev_Transition = history_transition ts (ro_Tick r), ev_At = ro_At r\<rparr>"

lemma monitor_round_history:
  "monitor_round site retries (history_db now ts, d) r =
     (if commits (ro_Fault r, ro_Tick r) (history_db now ts)
      then (history_db now (ts @ [ro_Tick r]), handle (ro_Around r) retries d (round_event site ts r))
      else (history_db now ts, d))"
proof -
  obtain sdb' tr err where r: "record_tick (ro_Fault r) (ro_Tick r) (history_db now ts) = (sdb', tr, err)"
    by (cases "record_tick (ro_Fault r) (ro_Tick r) (history_db now ts)") auto
  show ?thesis
  proof (cases err)
    case None
    with r have "record_tick (\<lambda>_. False) (ro_Tick r) (history_db now ts) = (sdb', tr, None)"
      by (metis record_tick_commit)
    with r None show ?thesis
      by (simp add: monitor_round_def round_event_def commits_def record_tick_history)
  next
    case (Some s)
    with r have "sdb' = history_db now ts" by (metis record_tick_error_keeps_db)
    with r Some show ?thesis by (simp add: monitor_round_def commits_def)
  qed
qed

subsection \<open>Handling with a fixed configuration\<close>

lemma apply_rule_config: "same_config (dp_Registry d) (dp_Registry (apply_rule su retries e k d rule))"
  by (cases rule: apply_rule_effect [of su retries e k d rule]) simp_all

lemma rules_for_config: "same_config db db' \<Longrightarrow> rules_for db' s k = rules_for db s k"
  by (simp add: same_config_def rules_for_def)

lemma rules_for_mem: "r \<in> set (rules_for db s k) \<Longrightarrow> r \<in> set (rg_Rules db) \<and> ru_Kind r = k"
  by (auto simp: rules_for_def)

text \<open>A property of the dispatcher that every firing of a configured rule keeps.\<close>

locale firing =
  fixes P :: "dispatcher \<Rightarrow> bool"
    and db0 :: registry
    and su :: surroundings and retries :: int and e :: event
  assumes fire: "P d \<Longrightarrow> same_config db0 (dp_Registry d) \<Longrightarrow> rule \<in> set (rg_Rules db0) \<Longrightarrow> k \<in> set (kinds_for e) \<Longrightarrow>
    ru_Kind rule = k \<Longrightarrow> P (apply_rule su retries e k d rule)"
begin

lemma rules_keep:
  assumes "P d" "same_config db0 (dp_Registry d)" "k \<in> set (kinds_for e)"
    and "\<forall>r\<in>set rs. r \<in> set (rg_Rules db0) \<and> ru_Kind r = k"
  shows "P (foldl (apply_rule su retries e k) d rs) \<and>
    same_config db0 (dp_Registry (foldl (apply_rule su retries e k) d rs))"
  using assms
proof (induction rs arbitrary: d)
  case (Cons r rs)
  let ?d = "apply_rule su retries e k d r"
  have "P ?d" using Cons.prems by (intro fire) auto
  moreover have "same_config db0 (dp_Registry ?d)"
    using Cons.prems(2) apply_rule_config by (rule same_config_trans)
  ultimately show ?case using Cons by simp
qed simp

lemma kinds_keep:
  assumes "P d" "same_config db0 (dp_Registry d)" "set ks \<subseteq> set (kinds_for e)"
  shows "P (foldl (handle_kind su retries e) d ks) \<and>
    same_config db0 (dp_Registry (foldl (handle_kind su retries e) d ks))"
  using assms
proof (induction ks arbitrary: d)
  case (Cons k ks)
  have "\<forall>r\<in>set (rules_for (dp_Registry d) (sc_ID (ev_Site e)) k). r \<in> set (rg_Rules db0) \<and> ru_Kind r = k"
    using Cons.prems(2) by (auto simp: same_config_def dest: rules_for_mem)
  with Cons.prems rules_keep [of d k]
  have "P (handle_kind su retries e d k) \<and> same_config db0 (dp_Registry (handle_kind su retries e d k))"
    by (simp add: handle_kind_def)
  with Cons show ?case by simp
qed simp

lemma handle_keeps:
  "P d \<Longrightarrow> same_config db0 (dp_Registry d) \<Longrightarrow>
   P (handle su retries d e) \<and> same_config db0 (dp_Registry (handle su retries d e))"
  unfolding handle_def by (rule kinds_keep) simp_all

end

text \<open>Handling an event never changes the channels, the rules or the sites.\<close>

interpretation config_kept: firing "\<lambda>_. True" db su retries e for db su retries e
  by unfold_locales simp

subsection \<open>Rules that wait for confirmation\<close>

text \<open>The keys that can occur in the ledger when every rule of the site waits for at least two failures.\<close>

definition collapsed :: "string \<Rightarrow> dispatcher \<Rightarrow> bool" where
  "collapsed s d \<longleftrightarrow> (\<forall>k\<in>set (disp_keys d). (\<exists>c. k = down_key s 0 c) \<or> (\<exists>x c. k = ssl_key s x c))"

lemma history_incident_id:
  "tr_ConsecutiveFailures (history_transition ts t) \<ge> 2 \<Longrightarrow> tr_IncidentID (history_transition ts t) = 0"
  by (auto simp: history_transition_def down_at_end_iff_run split: if_splits)

lemma history_resolved_id:
  "tr_IncidentResolved (history_transition ts t) \<Longrightarrow> 1 \<le> tr_IncidentID (history_transition ts t)"
  using outages_open [of ts] by (auto simp: history_transition_def Suc_le_eq)

lemma down_key_same_tag: "down_key s i c = down_key s' i' c' \<longleftrightarrow> dedupe_key [] s i c = dedupe_key [] s' i' c'"
  by (simp add: down_key_def dedupe_key_def)

lemma down_key_incident: "CHR '':'' \<notin> set s \<Longrightarrow> down_key s i c = down_key s i' c' \<longleftrightarrow> i = i' \<and> c = c'"
  using dedupe_key_inj [of "''down''" "''down''" s s i c i' c'] by (auto simp: down_key_def)

lemma down_not_ssl: "down_key s i c \<noteq> ssl_key s' i' c'"
  by (simp add: down_key_def ssl_key_def dedupe_key_def)

lemma collapsed_no_up: "collapsed s d \<Longrightarrow> up_key s' i c \<notin> set (disp_keys d)"
  unfolding collapsed_def using up_key_not_down by metis

lemma collapsed_down:
  "collapsed s d \<Longrightarrow> CHR '':'' \<notin> set s \<Longrightarrow> down_key s i c \<in> set (disp_keys d) \<Longrightarrow> i = 0"
  unfolding collapsed_def using down_not_ssl down_key_incident by metis

lemma collapsed_firing:
  assumes "list_all (\<lambda>r. 2 \<le> ru_ConfirmAfter r) (rg_Rules db0)" "is_slug (sc_ID site)"
  shows "firing (collapsed (sc_ID site)) db0 su retries (round_event site ts r)"
proof
  fix d rule k
  let ?s = "sc_ID site" and ?e = "round_event site ts r"
  let ?tr = "history_transition ts (ro_Tick r)"
  assume d: "collapsed ?s d" and cfg: "same_config db0 (dp_Registry d)" and rule: "rule \<in> set (rg_Rules db0)"
    and k: "k \<in> set (kinds_for ?e)"
  have two: "2 \<le> ru_ConfirmAfter rule" using assms(1) rule by (auto simp: list_all_iff)
  have colon: "CHR '':'' \<notin> set ?s" by (rule slug_no_colon) (rule assms(2))
  show "collapsed ?s (apply_rule su retries ?e k d rule)"
  proof (cases rule: apply_rule_effect [of su retries ?e k d rule])
    case nothing
    with d show ?thesis by simp
  next
    case (fires ch msg key calls)
    have "(\<exists>c. key = down_key ?s 0 c) \<or> (\<exists>x c. key = ssl_key ?s x c)"
    proof -
      from k consider "k = AlertSiteDown" | "k = AlertSiteRecovered" "tr_IncidentResolved ?tr" | "k = AlertSSLExpiring"
        by (auto simp: kinds_for_def Let_def round_event_def split: if_splits)
      then show ?thesis
      proof cases
        case 1
        with fires(2) two have "tr_ConsecutiveFailures ?tr \<ge> 2 \<and> key = down_key ?s (tr_IncidentID ?tr) (ch_ID ch)"
          by (auto simp: render_def Let_def confirm_threshold_def round_event_def split: if_splits)
        then show ?thesis using history_incident_id by auto
      next
        case 2
        with fires(2) have "delivery_exists (dp_Registry d) (down_key ?s (tr_IncidentID ?tr) (ch_ID ch))"
          by (auto simp: render_def Let_def round_event_def AlertSiteDown_def AlertSiteRecovered_def split: if_splits)
        then have "down_key ?s (tr_IncidentID ?tr) (ch_ID ch) \<in> set (disp_keys d)"
          by (simp only: delivery_exists_iff)
        with d obtain c where "down_key ?s (tr_IncidentID ?tr) (ch_ID ch) = down_key ?s 0 c"
          unfolding collapsed_def using down_not_ssl by metis
        then have "tr_IncidentID ?tr = 0" using down_key_incident [OF colon] by blast
        with history_resolved_id [OF 2(2)] show ?thesis by simp
      next
        case 3
        with fires(2) show ?thesis
          by (auto simp: render_def Let_def round_event_def AlertSiteDown_def AlertSiteRecovered_def
              AlertSSLExpiring_def split: if_splits)
      qed
    qed
    with d fires(4) show ?thesis by (auto simp: collapsed_def)
  qed
qed

lemma monitor_run_keeps:
  assumes "\<And>su ts r. firing P db0 su retries (round_event site ts r)"
    and "P d" "same_config db0 (dp_Registry d)"
  shows "P (snd (monitor_run site retries (history_db now ts, d) rs)) \<and>
    same_config db0 (dp_Registry (snd (monitor_run site retries (history_db now ts, d) rs)))"
  using assms(2,3)
proof (induction rs arbitrary: ts d)
  case Nil
  then show ?case by (simp add: monitor_run_def)
next
  case (Cons r rs)
  note k = firing.handle_keeps [OF assms(1), OF Cons.prems]
  show ?case
    using Cons.IH [of "handle (ro_Around r) retries d (round_event site ts r)" "ts @ [ro_Tick r]"]
      Cons.IH [of d ts] Cons.prems k
    by (simp add: monitor_run_def monitor_round_history)
qed

text \<open>
  What holds of the ledger throughout when every rule of the configuration waits: the keys are
  distinct and collapsed.
\<close>

definition waiting :: "registry \<Rightarrow> site_config \<Rightarrow> dispatcher \<Rightarrow> bool" where
  "waiting db site d \<longleftrightarrow> list_all (\<lambda>r. 2 \<le> ru_ConfirmAfter r) (rg_Rules db) \<and> is_slug (sc_ID site) \<and>
     collapsed (sc_ID site) d \<and> distinct (disp_keys d)"

interpretation confirmed: firing "waiting db site" db su retries "round_event site ts r"
  for db site su retries ts r
proof
  fix d rule k
  assume w: "waiting db site d" and kept: "same_config db (dp_Registry d)" "rule \<in> set (rg_Rules db)"
    "k \<in> set (kinds_for (round_event site ts r))" "ru_Kind rule = k"
  have "distinct (disp_keys (apply_rule su retries (round_event site ts r) k d rule))"
    using w by (cases rule: apply_rule_effect [of su retries "round_event site ts r" k d rule])
      (simp_all add: waiting_def)
  then show "waiting db site (apply_rule su retries (round_event site ts r) k d rule)"
    using w kept firing.fire [OF collapsed_firing] unfolding waiting_def by blast
qed

text \<open>
  C9: with rules that wait for confirmation (\<open>confirm_after\<close> of 2 or more, 2 being the default),
  the outage is lost from the dedupe key.  The tick that reaches the threshold carries no
  incident id, so every [DOWN] alert of a channel for this site has the key with incident 0:
  whatever happens afterwards, at most one is ever claimed, and since a recovery looks
  for the key with the real incident, no recovery is ever claimed.
\<close>

theorem confirmed_alerts_lose_their_incident:
  assumes "list_all (\<lambda>r. 2 \<le> ru_ConfirmAfter r) (rg_Rules db)" "rg_Deliveries db = []" "is_slug (sc_ID site)"
  shows "let db' = dp_Registry (snd (monitor_run site retries (fresh_site_db now, start_dispatcher db) rs)) in
    \<not> delivery_exists db' (up_key (sc_ID site) inc c) \<and>
    (if inc = 0 then True else \<not> delivery_exists db' (down_key (sc_ID site) inc c)) \<and>
    length (filter (\<lambda>k. k = down_key (sc_ID site) 0 c) (map de_DedupeKey (rg_Deliveries db'))) \<le> 1"
proof -
  let ?s = "sc_ID site"
  define d where "d = snd (monitor_run site retries (fresh_site_db now, start_dispatcher db) rs)"
  from monitor_run_keeps [OF confirmed.firing_axioms, of db site "start_dispatcher db" retries now "[]" rs]
  have "collapsed ?s d" "distinct (disp_keys d)"
    using assms by (simp_all add: waiting_def d_def start_dispatcher_def collapsed_def history_db_Nil)
  moreover have "length (filter (\<lambda>k. k = x) ks) \<le> 1" if "distinct ks" for x and ks :: "string list"
    using that by (induction ks) (auto simp: filter_empty_conv)
  ultimately have "up_key ?s inc c \<notin> set (disp_keys d)"
    "inc \<noteq> 0 \<Longrightarrow> down_key ?s inc c \<notin> set (disp_keys d)"
    "length (filter (\<lambda>k. k = down_key ?s 0 c) (disp_keys d)) \<le> 1"
    using collapsed_no_up collapsed_down [OF _ slug_no_colon [OF assms(3)]] by blast+
  then show ?thesis unfolding Let_def delivery_exists_iff d_def [symmetric] by simp
qed

definition quiet :: "int \<Rightarrow> surroundings" where
  "quiet now_ns = \<lparr>su_Now = 0, su_NowNs = now_ns, su_Send = (\<lambda>_ _. None), su_Shutdown = (\<lambda>_ _. False),
     su_Fault = (\<lambda>_. False)\<rparr>"

definition plain_round :: "unix \<Rightarrow> bool \<Rightarrow> round" where
  "plain_round ts up = \<lparr>ro_Fault = (\<lambda>_. False),
     ro_Tick = \<lparr>tk_TS = ts, tk_Up = up, tk_StatusCode = (if up then 200 else 500), tk_ResponseMs = 10,
       tk_FailedChecks = (if up then [] else [''http'']), tk_Error = (if up then [] else ''HTTP 500''),
       tk_Errors = [], tk_SSLChecked = False, tk_SSLExpiresAt = 0\<rparr>,
     ro_Around = quiet 0, ro_At = ts\<rparr>"

definition example_channel :: alert_channel where
  "example_channel = \<lparr>ch_ID = 1, ch_Name = ''ops'', ch_Type = ''email'', ch_Target = ''ops@shop.test'',
     ch_Enabled = True, ch_CreatedAt = 0, ch_UpdatedAt = 0\<rparr>"

definition example_rule :: "int \<Rightarrow> string \<Rightarrow> int \<Rightarrow> alert_rule" where
  "example_rule i kind confirm = \<lparr>ru_ID = i, ru_SiteID = None, ru_ChannelID = 1, ru_Kind = kind,
     ru_Enabled = True, ru_ConfirmAfter = confirm, ru_CreatedAt = 0, ru_UpdatedAt = 0\<rparr>"

definition example_registry :: "int \<Rightarrow> registry" where
  "example_registry confirm = empty_registry\<lparr>rg_Channels := [example_channel],
     rg_Rules := [example_rule 1 AlertSiteDown confirm, example_rule 2 AlertSiteRecovered 2]\<rparr>"

text \<open>Two outages of two failing checks each, each followed by a recovery.\<close>

definition two_outages :: "round list" where
  "two_outages = [plain_round 60 False, plain_round 120 False, plain_round 180 True,
     plain_round 240 False, plain_round 300 False, plain_round 360 True]"

lemma two_outages_history: "length (outages (map ro_Tick two_outages)) = 2"
  by code_simp

theorem confirmed_alerts_lose_their_incident_witness:
  "let (sdb, d) = monitor_run example_site 2 (fresh_site_db 0, start_dispatcher (example_registry 2)) two_outages
   in \<not> delivery_exists (dp_Registry d) (up_key ''shop'' 1 1) \<and>
      \<not> delivery_exists (dp_Registry d) (down_key ''shop'' 2 1)"
proof -
  have h: "list_all (\<lambda>r. 2 \<le> ru_ConfirmAfter r) (rg_Rules (example_registry 2))"
    "rg_Deliveries (example_registry 2) = []" "is_slug (sc_ID example_site)"
    using validate_accepts [OF example_site_valid]
    by (simp_all add: example_registry_def example_rule_def empty_registry_def)
  have shop: "sc_ID example_site = ''shop''" by (simp add: example_site_def)
  from confirmed_alerts_lose_their_incident [OF h, of 2 0 two_outages 1 1]
    confirmed_alerts_lose_their_incident [OF h, of 2 0 two_outages 2 1]
  show ?thesis by (simp add: Let_def case_prod_beta shop)
qed

subsection \<open>Rules that fire at once\<close>

definition immediate_config :: "string \<Rightarrow> registry \<Rightarrow> alert_channel \<Rightarrow> bool" where
  "immediate_config s db ch \<longleftrightarrow>
     rg_Channels db = [ch] \<and> ch_Enabled ch \<and>
     (case rg_Rules db of
        [rd, rr] \<Rightarrow> ru_Kind rd = AlertSiteDown \<and> ru_ConfirmAfter rd \<le> 1 \<and> ru_Kind rr = AlertSiteRecovered \<and>
          list_all (\<lambda>r. ru_Enabled r \<and> ru_ChannelID r = ch_ID ch \<and> ru_SiteID r \<in> {None, Some s}) [rd, rr]
      | _ \<Rightarrow> False)"

text \<open>The alerts that the outages of a history call for, in order.\<close>

definition wanted_alerts :: "string \<Rightarrow> int \<Rightarrow> outage list \<Rightarrow> string list" where
  "wanted_alerts s c os = concat (number (\<lambda>i o1.
     down_key s i c # (if og_end o1 = None then [] else [up_key s i c])) os)"

lemma wanted_alerts_snoc:
  "wanted_alerts s c (os @ [o1]) = wanted_alerts s c os @
     down_key s (int (length os) + 1) c # (if og_end o1 = None then [] else [up_key s (int (length os) + 1) c])"
  by (simp add: wanted_alerts_def)

lemma wanted_alerts_close:
  assumes "down_at_end ts"
  shows "wanted_alerts s c (map (close_outage x) (outages ts)) =
    wanted_alerts s c (outages ts) @ [up_key s (int (length (outages ts))) c]"
proof -
  from outages_open [of ts] assms have ne: "outages ts \<noteq> []" and l: "og_end (last (outages ts)) = None"
    by simp_all
  define os where "os = butlast (outages ts)"
  have os: "outages ts = os @ [last (outages ts)]" using ne by (simp add: os_def)
  have "wanted_alerts s c (map (close_outage x) (outages ts)) =
      wanted_alerts s c (os @ [(last (outages ts))\<lparr>og_end := Some x\<rparr>])"
    using close_outages_open [OF assms] by (simp add: os_def)
  also have "\<dots> = wanted_alerts s c (os @ [last (outages ts)]) @ [up_key s (int (length os) + 1) c]"
    using l by (simp add: wanted_alerts_snoc)
  finally show ?thesis using os by (metis length_append_singleton of_nat_Suc add.commute)
qed

lemma wanted_alerts_ids:
  assumes "CHR '':'' \<notin> set s"
  shows "down_key s i c \<in> set (wanted_alerts s c os) \<Longrightarrow> 1 \<le> i \<and> i \<le> int (length os)"
    and "up_key s i c \<in> set (wanted_alerts s c os) \<Longrightarrow>
      1 \<le> i \<and> i \<le> int (length os) \<and> og_end (os ! nat (i - 1)) \<noteq> None"
proof -
  have up: "up_key s a c = up_key s b c \<longleftrightarrow> a = b" for a b
    using dedupe_key_inj [of "''up''" "''up''" s s a c b c] assms by (auto simp: up_key_def)
  show "down_key s i c \<in> set (wanted_alerts s c os) \<Longrightarrow> 1 \<le> i \<and> i \<le> int (length os)"
    by (auto simp: wanted_alerts_def number_def down_key_incident [OF assms] up_key_not_down [symmetric]
        split: if_splits)
  show "up_key s i c \<in> set (wanted_alerts s c os) \<Longrightarrow>
      1 \<le> i \<and> i \<le> int (length os) \<and> og_end (os ! nat (i - 1)) \<noteq> None"
    by (auto simp: wanted_alerts_def number_def up up_key_not_down split: if_splits)
qed

lemma send_loop_ok: "0 \<le> retries \<Longrightarrow> send_loop (\<lambda>_. None) stop retries 1 e = (Inr 1, [True])"
  by (simp add: send_loop.simps)

lemma apply_rule_sends:
  assumes "su_Fault su = (\<lambda>_. False)" "su_Send su = (\<lambda>_ _. None)" "0 \<le> retries"
    and "get_alert_channel (dp_Registry d) (ru_ChannelID rule) = Inr ch"
    and "render su (dp_Registry d) e k rule ch = Some (msg, key)" and "key \<notin> set (disp_keys d)"
  shows "disp_keys (apply_rule su retries e k d rule) = disp_keys d @ [key] \<and>
    map (\<lambda>c. (sd_Key c, sd_To c, sd_Ok c)) (dp_Sends (apply_rule su retries e k d rule)) =
      map (\<lambda>c. (sd_Key c, sd_To c, sd_Ok c)) (dp_Sends d) @ [(key, ch_Target ch, True)]"
  using assms by (simp add: apply_rule_def claim_delivery_cases claim_of_def deliver_def send_loop_ok Let_def)

lemma kind_names [simp]:
  "AlertSiteDown \<noteq> AlertSiteRecovered" "AlertSiteDown \<noteq> AlertSSLExpiring"
  "AlertSiteRecovered \<noteq> AlertSSLExpiring" "AlertSiteRecovered \<noteq> AlertSiteDown"
  "AlertSSLExpiring \<noteq> AlertSiteDown" "AlertSSLExpiring \<noteq> AlertSiteRecovered"
  by (simp_all add: AlertSiteDown_def AlertSiteRecovered_def AlertSSLExpiring_def)

lemma rules_for_immediate:
  assumes "immediate_config s db ch" "same_config db db'"
  obtains rd rr where "rules_for db' s AlertSiteDown = [rd]" "rules_for db' s AlertSiteRecovered = [rr]"
    "rules_for db' s AlertSSLExpiring = []" "confirm_threshold rd = 1"
    "get_alert_channel db' (ru_ChannelID rd) = Inr ch" "get_alert_channel db' (ru_ChannelID rr) = Inr ch"
proof -
  from assms obtain rd rr where r: "rg_Rules db' = [rd, rr]" "rg_Channels db' = [ch]" "ch_Enabled ch"
    "ru_Kind rd = AlertSiteDown" "ru_Kind rr = AlertSiteRecovered" "ru_ConfirmAfter rd \<le> 1"
    "ru_Enabled rd" "ru_Enabled rr" "ru_ChannelID rd = ch_ID ch" "ru_ChannelID rr = ch_ID ch"
    "ru_SiteID rd \<in> {None, Some s}" "ru_SiteID rr \<in> {None, Some s}"
    by (auto simp: immediate_config_def same_config_def split: list.splits)
  show thesis
    by (rule that [of rd rr])
      (use r in \<open>auto simp: rules_for_def get_alert_channel_def tbl_find_def confirm_threshold_def\<close>)
qed

definition announced :: "string \<Rightarrow> alert_channel \<Rightarrow> outage list \<Rightarrow> dispatcher \<Rightarrow> bool" where
  "announced s ch os d \<longleftrightarrow> disp_keys d = wanted_alerts s (ch_ID ch) os \<and>
     map (\<lambda>c. (sd_Key c, sd_To c, sd_Ok c)) (dp_Sends d) =
       map (\<lambda>k. (k, ch_Target ch, True)) (wanted_alerts s (ch_ID ch) os)"

lemma announced_more:
  "announced s ch os d \<Longrightarrow>
   disp_keys d' = disp_keys d @ [key] \<and>
     map (\<lambda>c. (sd_Key c, sd_To c, sd_Ok c)) (dp_Sends d') =
       map (\<lambda>c. (sd_Key c, sd_To c, sd_Ok c)) (dp_Sends d) @ [(key, ch_Target ch, True)] \<Longrightarrow>
   wanted_alerts s (ch_ID ch) os' = wanted_alerts s (ch_ID ch) os @ [key] \<Longrightarrow>
   announced s ch os' d'"
  by (simp add: announced_def)

lemma announced_keys: "announced s ch os d \<Longrightarrow> disp_keys d = wanted_alerts s (ch_ID ch) os"
  by (simp add: announced_def)

lemma quiet_simps [simp]: "su_Fault (quiet ns) = (\<lambda>_. False)" "su_Send (quiet ns) = (\<lambda>_ _. None)"
  by (simp_all add: quiet_def)

text \<open>The first failing tick of an outage announces it; the next ones do nothing.\<close>

lemma immediate_down:
  assumes "CHR '':'' \<notin> set (sc_ID site)" "0 \<le> retries" "announced (sc_ID site) ch (outages ts) d"
    and rule: "confirm_threshold rd = 1" "get_alert_channel (dp_Registry d) (ru_ChannelID rd) = Inr ch"
    and down: "\<not> tk_Up (ro_Tick r)"
  shows "announced (sc_ID site) ch (outages (ts @ [ro_Tick r]))
    (apply_rule (quiet ns) retries (round_event site ts r) AlertSiteDown d rd)"
proof (cases "down_at_end ts")
  case True
  then have "tr_ConsecutiveFailures (history_transition ts (ro_Tick r)) \<noteq> 1"
    using down by (simp add: history_transition_def down_at_end_iff_run)
  then have "apply_rule (quiet ns) retries (round_event site ts r) AlertSiteDown d rd = d"
    by (simp add: apply_rule_def rule render_def Let_def round_event_def)
  with assms(3) True down show ?thesis by (simp add: outages_snoc)
next
  case False
  let ?key = "down_key (sc_ID site) (int (length (outages ts)) + 1) (ch_ID ch)"
  have "render (quiet ns) (dp_Registry d) (round_event site ts r) AlertSiteDown rd ch =
      Some (down_message (round_event site ts r), ?key)"
    using False down
    by (simp add: render_def Let_def rule history_transition_def failing_run_zero round_event_def)
  moreover have "?key \<notin> set (disp_keys d)"
    unfolding announced_keys [OF assms(3)] using wanted_alerts_ids(1) [OF assms(1)] by fastforce
  ultimately have "disp_keys (apply_rule (quiet ns) retries (round_event site ts r) AlertSiteDown d rd) =
        disp_keys d @ [?key] \<and>
      map (\<lambda>c. (sd_Key c, sd_To c, sd_Ok c))
        (dp_Sends (apply_rule (quiet ns) retries (round_event site ts r) AlertSiteDown d rd)) =
      map (\<lambda>c. (sd_Key c, sd_To c, sd_Ok c)) (dp_Sends d) @ [(?key, ch_Target ch, True)]"
    using assms(2) rule by (intro apply_rule_sends) simp_all
  with assms(3) show ?thesis
    by (rule announced_more) (use False down in \<open>simp add: outages_snoc wanted_alerts_snoc\<close>)
qed

lemma wanted_alerts_open:
  assumes "down_at_end ts"
  shows "down_key s (int (length (outages ts))) c \<in> set (wanted_alerts s c (outages ts))"
    and "CHR '':'' \<notin> set s \<Longrightarrow> up_key s (int (length (outages ts))) c \<notin> set (wanted_alerts s c (outages ts))"
proof -
  from outages_open [of ts] assms have ne: "outages ts \<noteq> []" and l: "og_end (last (outages ts)) = None"
    by simp_all
  have "wanted_alerts s c (outages ts) =
      wanted_alerts s c (butlast (outages ts)) @ [down_key s (int (length (outages ts))) c]"
    using wanted_alerts_snoc [of s c "butlast (outages ts)" "last (outages ts)"] ne l
    by (simp add: of_nat_diff Suc_le_eq)
  then show "down_key s (int (length (outages ts))) c \<in> set (wanted_alerts s c (outages ts))" by simp
  show "up_key s (int (length (outages ts))) c \<notin> set (wanted_alerts s c (outages ts))"
    if "CHR '':'' \<notin> set s"
  proof
    assume "up_key s (int (length (outages ts))) c \<in> set (wanted_alerts s c (outages ts))"
    then have "og_end (outages ts ! nat (int (length (outages ts)) - 1)) \<noteq> None"
      using wanted_alerts_ids(2) [OF that] by blast
    moreover have "nat (int (length (outages ts)) - 1) = length (outages ts) - 1" by simp
    ultimately show False using l last_conv_nth [OF ne] by simp
  qed
qed

text \<open>The tick that ends an outage announces the recovery.\<close>

lemma immediate_up:
  assumes "CHR '':'' \<notin> set (sc_ID site)" "0 \<le> retries" "announced (sc_ID site) ch (outages ts) d"
    and rule: "get_alert_channel (dp_Registry d) (ru_ChannelID rr) = Inr ch"
    and up: "tk_Up (ro_Tick r)" "down_at_end ts"
  shows "announced (sc_ID site) ch (outages (ts @ [ro_Tick r]))
    (apply_rule (quiet ns) retries (round_event site ts r) AlertSiteRecovered d rr)"
proof -
  let ?key = "up_key (sc_ID site) (int (length (outages ts))) (ch_ID ch)"
  note keys = announced_keys [OF assms(3)]
  have "delivery_exists (dp_Registry d) (down_key (sc_ID site) (int (length (outages ts))) (ch_ID ch))"
    unfolding delivery_exists_iff keys by (rule wanted_alerts_open(1)) (rule up(2))
  then have "render (quiet ns) (dp_Registry d) (round_event site ts r) AlertSiteRecovered rr ch =
      Some (up_message (round_event site ts r), ?key)"
    using up by (simp add: render_def Let_def history_transition_def round_event_def)
  moreover have "?key \<notin> set (disp_keys d)"
    unfolding keys by (rule wanted_alerts_open(2)) (rule up(2), rule assms(1))
  ultimately have "disp_keys (apply_rule (quiet ns) retries (round_event site ts r) AlertSiteRecovered d rr) =
        disp_keys d @ [?key] \<and>
      map (\<lambda>c. (sd_Key c, sd_To c, sd_Ok c))
        (dp_Sends (apply_rule (quiet ns) retries (round_event site ts r) AlertSiteRecovered d rr)) =
      map (\<lambda>c. (sd_Key c, sd_To c, sd_Ok c)) (dp_Sends d) @ [(?key, ch_Target ch, True)]"
    using assms(2) rule by (intro apply_rule_sends) simp_all
  with assms(3) show ?thesis
    by (rule announced_more) (use up in \<open>simp add: outages_snoc wanted_alerts_close\<close>)
qed

lemma handle_immediate:
  assumes cfg: "immediate_config (sc_ID site) db ch" "same_config db (dp_Registry d)"
    and colon: "CHR '':'' \<notin> set (sc_ID site)" and ret: "0 \<le> retries"
    and d: "announced (sc_ID site) ch (outages ts) d"
  shows "announced (sc_ID site) ch (outages (ts @ [ro_Tick r]))
    (handle (quiet ns) retries d (round_event site ts r))"
proof -
  let ?s = "sc_ID site" and ?t = "ro_Tick r" and ?e = "round_event site ts r"
  have site: "sc_ID (ev_Site ?e) = ?s" by (simp add: round_event_def)
  define k0 where "k0 = (if tk_SSLChecked ?t \<and> tk_SSLExpiresAt ?t > 0 then [AlertSSLExpiring] else [])"
  have k0: "foldl (handle_kind (quiet ns) retries ?e) x k0 = x" if "same_config db (dp_Registry x)" for x
    by (rule rules_for_immediate [OF cfg(1) that]) (simp add: k0_def handle_kind_def site)
  have after: "same_config db (dp_Registry (apply_rule (quiet ns) retries ?e k d rule))" for k rule
    using cfg(2) apply_rule_config by (rule same_config_trans)
  obtain rd rr where rules: "rules_for (dp_Registry d) ?s AlertSiteDown = [rd]"
    "rules_for (dp_Registry d) ?s AlertSiteRecovered = [rr]" "confirm_threshold rd = 1"
    "get_alert_channel (dp_Registry d) (ru_ChannelID rd) = Inr ch"
    "get_alert_channel (dp_Registry d) (ru_ChannelID rr) = Inr ch"
    by (rule rules_for_immediate [OF cfg])
  have kinds: "kinds_for ?e = (if \<not> tk_Up ?t then [AlertSiteDown] else []) @
      (if tk_Up ?t \<and> down_at_end ts then [AlertSiteRecovered] else []) @ k0"
    by (simp add: kinds_for_def Let_def k0_def history_transition_def round_event_def)
  show ?thesis
  proof (cases "tk_Up ?t")
    case False
    then have "handle (quiet ns) retries d ?e = apply_rule (quiet ns) retries ?e AlertSiteDown d rd"
      by (simp add: handle_def kinds handle_kind_def site rules k0 after)
    with immediate_down [OF colon ret d rules(3,4) False] show ?thesis by simp
  next
    case True
    show ?thesis
    proof (cases "down_at_end ts")
      case False
      with True have "handle (quiet ns) retries d ?e = d" by (simp add: handle_def kinds k0 cfg(2))
      with d True False show ?thesis by (simp add: outages_snoc close_outages_closed)
    next
      case was_down: True
      with True have "handle (quiet ns) retries d ?e = apply_rule (quiet ns) retries ?e AlertSiteRecovered d rr"
        by (simp add: handle_def kinds handle_kind_def site rules k0 after)
      with immediate_up [OF colon ret d rules(5) True was_down] show ?thesis by simp
    qed
  qed
qed

lemma monitor_run_immediate:
  assumes "immediate_config (sc_ID site) db ch" "CHR '':'' \<notin> set (sc_ID site)" "0 \<le> retries"
    and "same_config db (dp_Registry d)" "announced (sc_ID site) ch (outages ts) d"
    and "list_all (\<lambda>r. ro_Around r = quiet (su_NowNs (ro_Around r))) rs"
  shows "announced (sc_ID site) ch
    (outages (ts @ committed (history_db now ts) (map (\<lambda>r. (ro_Fault r, ro_Tick r)) rs)))
    (snd (monitor_run site retries (history_db now ts, d) rs))"
  using assms(4-6)
proof (induction rs arbitrary: ts d)
  case Nil
  then show ?case by (simp add: monitor_run_def)
next
  case (Cons r rs)
  from Cons.prems(3) obtain ns where q: "ro_Around r = quiet ns" by auto
  show ?case
  proof (cases "commits (ro_Fault r, ro_Tick r) (history_db now ts)")
    case True
    let ?d = "handle (ro_Around r) retries d (round_event site ts r)"
    have "announced (sc_ID site) ch (outages (ts @ [ro_Tick r])) ?d"
      unfolding q by (rule handle_immediate [OF assms(1) Cons.prems(1) assms(2,3) Cons.prems(2)])
    moreover have "same_config db (dp_Registry ?d)"
      using config_kept.handle_keeps [OF _ Cons.prems(1)] by blast
    ultimately show ?thesis
      using Cons.IH [of ?d "ts @ [ro_Tick r]"] Cons.prems(3) True
      by (simp add: monitor_run_def monitor_round_history tick_step_history)
  next
    case False
    with Cons show ?thesis by (simp add: monitor_run_def monitor_round_history tick_step_history)
  qed
qed



text \<open>
  Deleting a site with \<open>purge=true\<close> removes its database file, so a site created again under the
  same id counts its incidents from 1; the ledger in the registry is kept.  The first
  outage of the new site then meets the key of the old one and is not announced.
\<close>

lemma recreated_site_outage_unannounced:
  "let (old_db, d) = monitor_run example_site 2 (fresh_site_db 0, start_dispatcher (example_registry 1))
         [plain_round 60 False, plain_round 120 True];
       (new_db, d') = monitor_run example_site 2 (fresh_site_db 1000, d) [plain_round 1060 False]
   in ss_current_incident_id (db_state new_db) = Some 1 \<and> dp_Sends d' = dp_Sends d"
  by code_simp

end
