(* ===== verification/Migrate.thy ===== *)
theory Migrate
  imports Table
begin

section \<open>Schema migrations (internal/storage/migrate.go)\<close>

text \<open>
  \<open>applyMigrations\<close> on a database that is its \<open>user_version\<close>, its tables with their rows, and
  its indexes.  The statements of the migration lists are values of \<open>ddl\<close>; \<open>exec_ddl\<close> is what
  SQLite documents for them.  Each database call may fail, at a place given by a predicate, and a
  transaction that is not committed leaves nothing behind.
\<close>

subsection \<open>Databases and statements\<close>

datatype cell = V_null | V_int int | V_text string

datatype column_key = Plain | Primary_key | Unique_key | Single_row

record column =
  cl_Name :: string
  cl_Type :: string
  cl_NotNull :: bool
  cl_Key :: column_key
  cl_Default :: cell

record foreign_key =
  fk_Column :: string
  fk_Table :: string
  fk_Target :: string
  fk_Cascade :: bool

record sql_table =
  tb_Columns :: "column list"
  tb_Foreign :: "foreign_key list"
  tb_Rows :: "cell list list"

record sql_db =
  db_Version :: int
  db_Tables :: "string \<rightharpoonup> sql_table"
  db_Indexes :: "string list"

definition fresh_db :: sql_db where
  "fresh_db = \<lparr>db_Version = 0, db_Tables = Map.empty, db_Indexes = []\<rparr>"

text \<open>All \<open>CREATE\<close> statements of the lists say \<open>IF NOT EXISTS\<close>.\<close>

datatype ddl =
    Create_table string "column list" "foreign_key list"
  | Add_column string column
  | Create_index string string string

fun exec_ddl :: "ddl \<Rightarrow> sql_db \<Rightarrow> sql_db option" where
  "exec_ddl (Create_table n cs fks) db =
     (case db_Tables db n of
        Some _ \<Rightarrow> Some db
      | None \<Rightarrow> Some (db\<lparr>db_Tables := (db_Tables db)(n \<mapsto> \<lparr>tb_Columns = cs, tb_Foreign = fks, tb_Rows = []\<rparr>)\<rparr>))"
| "exec_ddl (Add_column n c) db =
     (case db_Tables db n of
        None \<Rightarrow> None
      | Some t \<Rightarrow>
          if cl_Name c \<in> cl_Name ` set (tb_Columns t) then None
          else if cl_NotNull c \<and> cl_Default c = V_null then None
          else Some (db\<lparr>db_Tables := (db_Tables db)(n \<mapsto> t\<lparr>tb_Columns := tb_Columns t @ [c],
                 tb_Rows := map (\<lambda>r. r @ [cl_Default c]) (tb_Rows t)\<rparr>)\<rparr>))"
| "exec_ddl (Create_index i n col) db =
     (if i \<in> set (db_Indexes db) then Some db
      else case db_Tables db n of
        None \<Rightarrow> None
      | Some t \<Rightarrow> if col \<in> cl_Name ` set (tb_Columns t) then Some (db\<lparr>db_Indexes := db_Indexes db @ [i]\<rparr>) else None)"

record migration =
  mg_Version :: int
  mg_Stmts :: "ddl list"

subsection \<open>applyMigrations\<close>

datatype migration_call = Read_version | Begin int | Exec_stmt int nat | Set_version int | Commit_tx int

datatype migration_error = Version_unreadable | Tx_failed int | Stmt_failed int | Version_not_set int | Commit_failed int

text \<open>The statements of one migration inside its transaction.\<close>

fun exec_stmts :: "(migration_call \<Rightarrow> bool) \<Rightarrow> int \<Rightarrow> nat \<Rightarrow> ddl list \<Rightarrow> sql_db \<Rightarrow> sql_db option" where
  "exec_stmts flt v i [] tx = Some tx"
| "exec_stmts flt v i (st # sts) tx =
     (if flt (Exec_stmt v i) then None
      else case exec_ddl st tx of None \<Rightarrow> None | Some tx \<Rightarrow> exec_stmts flt v (Suc i) sts tx)"

fun migrate_loop :: "(migration_call \<Rightarrow> bool) \<Rightarrow> int \<Rightarrow> migration list \<Rightarrow> sql_db \<Rightarrow> migration_error option \<times> sql_db" where
  "migrate_loop flt current [] db = (None, db)"
| "migrate_loop flt current (m # ms) db =
     (if mg_Version m \<le> current then migrate_loop flt current ms db
      else if flt (Begin (mg_Version m)) then (Some (Tx_failed (mg_Version m)), db)
      else case exec_stmts flt (mg_Version m) 0 (mg_Stmts m) db of
        None \<Rightarrow> (Some (Stmt_failed (mg_Version m)), db)
      | Some tx \<Rightarrow>
          if flt (Set_version (mg_Version m)) then (Some (Version_not_set (mg_Version m)), db)
          else if flt (Commit_tx (mg_Version m)) then (Some (Commit_failed (mg_Version m)), db)
          else migrate_loop flt current ms (tx\<lparr>db_Version := mg_Version m\<rparr>))"

definition apply_migrations :: "(migration_call \<Rightarrow> bool) \<Rightarrow> migration list \<Rightarrow> sql_db \<Rightarrow> migration_error option \<times> sql_db" where
  "apply_migrations flt migs db =
     (if flt Read_version then (Some Version_unreadable, db) else migrate_loop flt (db_Version db) migs db)"

subsection \<open>The two schema histories\<close>

definition col :: "string \<Rightarrow> string \<Rightarrow> column" where
  "col n t = \<lparr>cl_Name = n, cl_Type = t, cl_NotNull = False, cl_Key = Plain, cl_Default = V_null\<rparr>"

definition keyed :: "column_key \<Rightarrow> column \<Rightarrow> column" where "keyed k c = c\<lparr>cl_Key := k\<rparr>"
definition not_null :: "column \<Rightarrow> column" where "not_null c = c\<lparr>cl_NotNull := True\<rparr>"
definition default_to :: "int \<Rightarrow> column \<Rightarrow> column" where "default_to i c = c\<lparr>cl_Default := V_int i\<rparr>"
definition int_col :: "string \<Rightarrow> column" where "int_col n = col n ''INTEGER''"
definition text_col :: "string \<Rightarrow> column" where "text_col n = col n ''TEXT''"
definition int_req :: "string \<Rightarrow> column" where "int_req n = not_null (int_col n)"
definition text_req :: "string \<Rightarrow> column" where "text_req n = not_null (text_col n)"
definition rowid_col :: column where "rowid_col = keyed Primary_key (int_col ''id'')"

lemmas column_defs = col_def keyed_def not_null_def default_to_def int_col_def text_col_def int_req_def text_req_def rowid_col_def

definition registry_migrations :: "migration list" where
  "registry_migrations =
     [\<lparr>mg_Version = 1, mg_Stmts =
        [Create_table ''sites''
           [keyed Primary_key (text_col ''id''), text_req ''name'', text_req ''url'', int_req ''interval_seconds'',
            int_req ''slow_interval_seconds'', int_req ''enabled'', text_req ''checks_json'',
            int_req ''created_at'', int_req ''updated_at''] []]\<rparr>,
      \<lparr>mg_Version = 2, mg_Stmts = [Add_column ''sites'' (text_col ''api_key_hash'')]\<rparr>,
      \<lparr>mg_Version = 3, mg_Stmts =
        [Create_table ''admin_users''
           [rowid_col, keyed Unique_key (text_req ''username''), text_req ''password_hash'',
            int_req ''created_at'', int_req ''updated_at''] []]\<rparr>,
      \<lparr>mg_Version = 4, mg_Stmts =
        [Create_table ''sessions''
           [keyed Primary_key (text_col ''id''), int_req ''user_id'', int_req ''created_at'',
            int_req ''expires_at'', int_req ''last_seen_at'']
           [\<lparr>fk_Column = ''user_id'', fk_Table = ''admin_users'', fk_Target = ''id'', fk_Cascade = True\<rparr>],
         Create_index ''idx_sessions_user'' ''sessions'' ''user_id'',
         Create_index ''idx_sessions_expires'' ''sessions'' ''expires_at'']\<rparr>,
      \<lparr>mg_Version = 5, mg_Stmts =
        [Create_table ''alert_channels''
           [rowid_col, text_req ''name'', text_req ''type'', text_req ''target'',
            default_to 1 (int_req ''enabled''), int_req ''created_at'', int_req ''updated_at''] [],
         Create_table ''alert_rules''
           [rowid_col, text_col ''site_id'', int_req ''channel_id'', text_req ''kind'',
            default_to 1 (int_req ''enabled''), default_to 2 (int_req ''confirm_after''),
            int_req ''created_at'', int_req ''updated_at'']
           [\<lparr>fk_Column = ''channel_id'', fk_Table = ''alert_channels'', fk_Target = ''id'', fk_Cascade = True\<rparr>],
         Create_index ''idx_alert_rules_site'' ''alert_rules'' ''site_id'',
         Create_table ''alert_deliveries''
           [rowid_col, keyed Unique_key (text_req ''dedupe_key''), text_req ''site_id'', text_req ''kind'',
            int_req ''channel_id'', int_col ''incident_id'', text_req ''subject'', text_req ''status'',
            default_to 0 (int_req ''attempts''), text_col ''error'', int_req ''created_at'', int_col ''sent_at''] [],
         Create_index ''idx_alert_deliveries_created'' ''alert_deliveries'' ''created_at'',
         Create_index ''idx_alert_deliveries_site'' ''alert_deliveries'' ''site_id'']\<rparr>]"

definition site_migrations :: "migration list" where
  "site_migrations =
     [\<lparr>mg_Version = 1, mg_Stmts =
        [Create_table ''check_results''
           [rowid_col, int_req ''ts'', int_req ''up'', int_col ''status_code'', int_col ''response_ms'',
            text_col ''failed_checks'', text_col ''error''] [],
         Create_table ''incidents''
           [rowid_col, int_req ''started_at'', int_col ''resolved_at'', text_col ''cause''] [],
         Create_table ''errors''
           [rowid_col, int_req ''ts'', text_col ''check_type'', text_col ''message''] [],
         Create_table ''site_state''
           [keyed Single_row (int_col ''id''), int_col ''monitoring_started_at'', int_col ''last_check_ts'',
            int_col ''current_up'', int_col ''current_incident_id'', int_col ''ssl_expires_at'',
            int_col ''ssl_last_checked''] []]\<rparr>,
      \<lparr>mg_Version = 2, mg_Stmts =
        [Add_column ''site_state'' (default_to 0 (int_req ''consecutive_failures''))]\<rparr>]"

subsection \<open>Interrupted migrations\<close>

abbreviation no_fault :: "migration_call \<Rightarrow> bool" where "no_fault \<equiv> \<lambda>_. False"

lemma exec_stmts_clean: "exec_stmts flt v i sts db = Some tx \<Longrightarrow> exec_stmts no_fault v j sts db = Some tx"
  by (induction sts arbitrary: i j db) (auto split: if_splits option.splits)

lemma migrate_loop_current:
  "\<forall>m\<in>set ms. mg_Version m \<le> c \<longleftrightarrow> mg_Version m \<le> c' \<Longrightarrow> migrate_loop flt c ms db = migrate_loop flt c' ms db"
  by (induction ms arbitrary: db) (auto split: option.splits)

lemma exec_ddl_version: "exec_ddl st db = Some db' \<Longrightarrow> db_Version db' = db_Version db"
  by (cases st) (auto split: option.splits if_splits)

lemma exec_stmts_version: "exec_stmts flt v i sts db = Some tx \<Longrightarrow> db_Version tx = db_Version db"
  by (induction sts arbitrary: i db) (auto split: if_splits option.splits dest: exec_ddl_version)

definition increasing :: "migration list \<Rightarrow> bool" where
  "increasing ms \<longleftrightarrow> sorted_wrt (\<lambda>a b. mg_Version a < mg_Version b) ms"

text \<open>What is left of a list of migrations once the database is at its version.\<close>

definition at_version :: "int \<Rightarrow> migration list \<Rightarrow> sql_db \<Rightarrow> bool" where
  "at_version current ms db \<longleftrightarrow> current \<le> db_Version db \<and> (\<forall>m\<in>set ms. mg_Version m \<le> current \<longleftrightarrow> mg_Version m \<le> db_Version db)"

lemma at_version_next:
  "increasing (m # ms) \<Longrightarrow> \<not> mg_Version m \<le> current \<Longrightarrow> at_version current (m # ms) db \<Longrightarrow>
   at_version current ms (tx\<lparr>db_Version := mg_Version m\<rparr>)"
  by (auto simp: at_version_def increasing_def)

lemma migrate_step_cases:
  assumes "\<not> mg_Version m \<le> current"
  obtains (failed) e where "migrate_loop flt current (m # ms) db = (Some e, db)"
  | (applied) tx where "exec_stmts flt (mg_Version m) 0 (mg_Stmts m) db = Some tx"
      "migrate_loop flt current (m # ms) db = migrate_loop flt current ms (tx\<lparr>db_Version := mg_Version m\<rparr>)"
proof (cases "exec_stmts flt (mg_Version m) 0 (mg_Stmts m) db")
  case None
  with assms failed show ?thesis by (cases "flt (Begin (mg_Version m))") auto
next
  case (Some tx)
  with assms failed applied show ?thesis
    by (cases "flt (Begin (mg_Version m))"; cases "flt (Set_version (mg_Version m))"; cases "flt (Commit_tx (mg_Version m))") auto
qed

lemma migrate_loop_version_mono:
  "increasing ms \<Longrightarrow> at_version current ms db \<Longrightarrow> db_Version db \<le> db_Version (snd (migrate_loop flt current ms db))"
proof (induction ms arbitrary: db)
  case (Cons m ms)
  have inc: "increasing ms" using Cons.prems(1) by (simp add: increasing_def)
  show ?case
  proof (cases "mg_Version m \<le> current")
    case True
    with Cons.IH [OF inc] Cons.prems(2) show ?thesis by (simp add: at_version_def)
  next
    case False
    then show ?thesis
    proof (cases rule: migrate_step_cases [of m current flt ms db, case_names failed applied])
      case (applied tx)
      from Cons.IH [OF inc at_version_next [OF Cons.prems(1) False Cons.prems(2)], of tx]
      have "mg_Version m \<le> db_Version (snd (migrate_loop flt current ms (tx\<lparr>db_Version := mg_Version m\<rparr>)))" by simp
      moreover have "db_Version db < mg_Version m" using False Cons.prems(2) by (auto simp: at_version_def)
      ultimately show ?thesis using applied(2) by simp
    qed simp
  qed
qed simp

lemma migrate_resume:
  "increasing ms \<Longrightarrow> at_version current ms db \<Longrightarrow> migrate_loop flt current ms db = (e, db') \<Longrightarrow>
   migrate_loop no_fault (db_Version db') ms db' = migrate_loop no_fault current ms db"
proof (induction ms arbitrary: db)
  case (Cons m ms)
  have inc: "increasing ms" using Cons.prems(1) by (simp add: increasing_def)
  show ?case
  proof (cases "mg_Version m \<le> current")
    case True
    have "mg_Version m \<le> db_Version db'"
      using migrate_loop_version_mono [OF Cons.prems(1,2), of flt] Cons.prems(2,3) True by (auto simp: at_version_def)
    moreover have "at_version current ms db" using Cons.prems(2) by (simp add: at_version_def)
    ultimately show ?thesis using Cons.IH [OF inc] Cons.prems(3) True by simp
  next
    case False
    then show ?thesis
    proof (cases rule: migrate_step_cases [of m current flt ms db, case_names failed applied])
      case (failed e')
      then have "db' = db" using Cons.prems(3) by simp
      moreover have "migrate_loop no_fault (db_Version db) (m # ms) db = migrate_loop no_fault current (m # ms) db"
        by (rule migrate_loop_current) (use Cons.prems(2) in \<open>auto simp: at_version_def\<close>)
      ultimately show ?thesis by (simp only:)
    next
      case (applied tx)
      note at = at_version_next [OF Cons.prems(1) False Cons.prems(2), of tx]
      have "mg_Version m \<le> db_Version db'"
        using migrate_loop_version_mono [OF inc at, of flt] applied(2) Cons.prems(3) by simp
      with Cons.IH [OF inc at] applied(2) Cons.prems(3) False exec_stmts_clean [OF applied(1)] show ?thesis by simp
    qed
  qed
qed simp

lemma apply_resume:
  assumes "increasing ms"
  shows "apply_migrations no_fault ms (snd (apply_migrations flt ms db)) = apply_migrations no_fault ms db"
proof (cases "flt Read_version")
  case False
  obtain e db' where r: "migrate_loop flt (db_Version db) ms db = (e, db')" by fastforce
  have "at_version (db_Version db) ms db" by (simp add: at_version_def)
  from migrate_resume [OF assms this r] False r show ?thesis by (simp add: apply_migrations_def)
qed (simp add: apply_migrations_def)

subsection \<open>Nothing is lost\<close>

text \<open>A table keeps its columns and rows; new columns come after the old ones, filled with their default.\<close>

definition extends_table :: "sql_table \<Rightarrow> sql_table \<Rightarrow> bool" where
  "extends_table t t' \<longleftrightarrow> (\<exists>cs. tb_Columns t' = tb_Columns t @ cs \<and>
     tb_Rows t' = map (\<lambda>r. r @ map cl_Default cs) (tb_Rows t))"

definition extends_db :: "sql_db \<Rightarrow> sql_db \<Rightarrow> bool" where
  "extends_db db db' \<longleftrightarrow> (\<forall>n. case db_Tables db n of None \<Rightarrow> True
     | Some t \<Rightarrow> (case db_Tables db' n of None \<Rightarrow> False | Some t' \<Rightarrow> extends_table t t'))"

lemma extends_table_refl [simp]: "extends_table t t"
  by (auto simp: extends_table_def intro: exI [of _ "[]"])

lemma extends_table_trans: "extends_table t u \<Longrightarrow> extends_table u v \<Longrightarrow> extends_table t v"
proof -
  assume "extends_table t u" "extends_table u v"
  then obtain cs ds where "tb_Columns u = tb_Columns t @ cs" "tb_Rows u = map (\<lambda>r. r @ map cl_Default cs) (tb_Rows t)"
    "tb_Columns v = tb_Columns u @ ds" "tb_Rows v = map (\<lambda>r. r @ map cl_Default ds) (tb_Rows u)"
    by (auto simp: extends_table_def)
  then show ?thesis unfolding extends_table_def by (intro exI [of _ "cs @ ds"]) simp
qed

lemma extends_db_refl [simp]: "extends_db db db"
  by (simp add: extends_db_def split: option.split)

lemma extends_db_trans: "extends_db a b \<Longrightarrow> extends_db b c \<Longrightarrow> extends_db a c"
proof -
  assume ab: "extends_db a b" and bc: "extends_db b c"
  show ?thesis unfolding extends_db_def
  proof
    fix n
    show "case db_Tables a n of None \<Rightarrow> True
     | Some t \<Rightarrow> (case db_Tables c n of None \<Rightarrow> False | Some t' \<Rightarrow> extends_table t t')"
      using ab [unfolded extends_db_def, rule_format, of n] bc [unfolded extends_db_def, rule_format, of n]
      by (auto split: option.splits intro: extends_table_trans)
  qed
qed

lemma extends_db_version [simp]: "extends_db db (tx\<lparr>db_Version := v\<rparr>) = extends_db db tx"
  by (simp add: extends_db_def cong: option.case_cong)

lemma extends_added: "extends_table t (t\<lparr>tb_Columns := tb_Columns t @ [c], tb_Rows := map (\<lambda>r. r @ [cl_Default c]) (tb_Rows t)\<rparr>)"
  by (auto simp: extends_table_def intro: exI [of _ "[c]"])

lemma exec_ddl_extends: "exec_ddl st db = Some db' \<Longrightarrow> extends_db db db'"
  by (cases st) (auto simp: extends_db_def extends_added split: option.splits if_splits)

lemma exec_stmts_extends: "exec_stmts flt v i sts db = Some tx \<Longrightarrow> extends_db db tx"
proof (induction sts arbitrary: i db)
  case (Cons st sts)
  then show ?case by (auto split: if_splits option.splits intro: extends_db_trans exec_ddl_extends)
qed simp

lemma migrate_loop_extends: "extends_db db (snd (migrate_loop flt current ms db))"
proof (induction ms arbitrary: db)
  case (Cons m ms)
  show ?case
  proof (cases "mg_Version m \<le> current")
    case False
    then show ?thesis
    proof (cases rule: migrate_step_cases [of m current flt ms db, case_names failed applied])
      case (applied tx)
      have "extends_db db (tx\<lparr>db_Version := mg_Version m\<rparr>)" using exec_stmts_extends [OF applied(1)] by simp
      with Cons.IH [of "tx\<lparr>db_Version := mg_Version m\<rparr>"] applied(2) show ?thesis by (metis extends_db_trans)
    qed simp
  qed (use Cons.IH in simp)
qed simp

subsection \<open>Starting and restarting\<close>

lemma histories_increasing: "increasing registry_migrations" "increasing site_migrations"
  by (simp_all add: increasing_def registry_migrations_def site_migrations_def)

interpretation migration_runs: stepping "\<lambda>db flt. snd (apply_migrations flt ms db)" "extends_db db0" for ms db0
  by unfold_locales (simp add: apply_migrations_def extends_db_trans [OF _ migrate_loop_extends])

lemma apply_resume_all:
  "increasing ms \<Longrightarrow> apply_migrations no_fault ms (foldl (\<lambda>db flt. snd (apply_migrations flt ms db)) db flts) =
     apply_migrations no_fault ms db"
  by (induction flts arbitrary: db) (simp_all add: apply_resume)

text \<open>
  Migrations can be interrupted anywhere.  After any number of starts, each failing at any
  database calls, one start without a failure brings either database to exactly the schema and the
  data that an undisturbed first start would have reached; and at every moment in between all
  tables, columns and rows are still there, only followed by new columns.
\<close>

theorem migrations_resumable:
  "let run = \<lambda>ms. foldl (\<lambda>db flt. snd (apply_migrations flt ms db)) db flts in
   extends_db db (run registry_migrations) \<and> extends_db db (run site_migrations) \<and>
   apply_migrations (\<lambda>_. False) registry_migrations (run registry_migrations) =
     apply_migrations (\<lambda>_. False) registry_migrations db \<and>
   apply_migrations (\<lambda>_. False) site_migrations (run site_migrations) =
     apply_migrations (\<lambda>_. False) site_migrations db"
  using apply_resume_all [OF histories_increasing(1)] apply_resume_all [OF histories_increasing(2)]
    migration_runs.run_inv [OF extends_db_refl]
  by (simp add: Let_def)

text \<open>A registry from before there were migrations: version 0, and the baseline table with its rows.\<close>

definition legacy_registry :: "cell list list \<Rightarrow> sql_db" where
  "legacy_registry rows = fresh_db\<lparr>db_Tables := [''sites'' \<mapsto>
     \<lparr>tb_Columns = [keyed Primary_key (text_col ''id''), text_req ''name'', text_req ''url'', int_req ''interval_seconds'',
        int_req ''slow_interval_seconds'', int_req ''enabled'', text_req ''checks_json'',
        int_req ''created_at'', int_req ''updated_at''], tb_Foreign = [], tb_Rows = rows\<rparr>]\<rparr>"

text \<open>
  The baseline migration is safe on databases older than the migrations.  Whatever rows the
  old \<open>sites\<close> table holds, the upgrade succeeds, ends at the same version, indexes, columns and
  keys as a new database, and keeps every row with no key set.
\<close>

theorem legacy_registry_upgraded:
  "let (err, db) = apply_migrations (\<lambda>_. False) registry_migrations (legacy_registry rows);
       (err', new) = apply_migrations (\<lambda>_. False) registry_migrations fresh_db in
   err = None \<and> err' = None \<and> db_Version db = 5 \<and> db_Version new = 5 \<and> db_Indexes db = db_Indexes new \<and>
   (\<forall>n. map_option (\<lambda>t. (tb_Columns t, tb_Foreign t)) (db_Tables db n) =
        map_option (\<lambda>t. (tb_Columns t, tb_Foreign t)) (db_Tables new n)) \<and>
   map_option tb_Rows (db_Tables db ''sites'') = Some (map (\<lambda>r. r @ [V_null]) rows)"
  by (simp add: apply_migrations_def registry_migrations_def fresh_db_def legacy_registry_def column_defs)

end
