(* ===== verification/Stores.thy ===== *)
theory Stores
  imports RegistryDb SiteSeries
begin

section \<open>The site databases together (internal/storage/manager.go, overview.go)\<close>

text \<open>
  \<open>Manager\<close> maps a site id to its database file \<open><dir>/<id>.db\<close>, opened on first use and
  cached.  The files are a map from ids to databases, the cache the set of ids with an open
  handle; a handle reads and writes the file.  \<open>Overview\<close> is the dashboard: one row per
  registered site, put together from the registry and the site databases.  \<open>DataDir\<close> compares the
  map with the directory.
\<close>

subsection \<open>Paths\<close>

text \<open>\<open>path.Clean\<close> and \<open>filepath.Base\<close> on Unix, on the elements between the slashes.\<close>

abbreviation slash :: char where "slash \<equiv> CHR ''/''"

fun clean_elems :: "bool \<Rightarrow> string list \<Rightarrow> string list \<Rightarrow> string list" where
  "clean_elems rooted out [] = rev out"
| "clean_elems rooted out (e # es) =
     (if e = [] \<or> e = ''.'' then clean_elems rooted out es
      else if e = ''..'' then
        (if out \<noteq> [] \<and> hd out \<noteq> ''..'' then clean_elems rooted (tl out) es
         else if rooted then clean_elems rooted out es
         else clean_elems rooted (e # out) es)
      else clean_elems rooted (e # out) es)"

definition path_clean :: "string \<Rightarrow> string" where
  "path_clean p =
     (let rooted = has_prefix ''/'' p; es = clean_elems rooted [] (split_on slash p)
      in if rooted then slash # join ''/'' es else if es = [] then ''.'' else join ''/'' es)"

definition path_base :: "string \<Rightarrow> string" where
  "path_base p =
     (if p = [] then ''.''
      else let q = rev (dropWhile (\<lambda>c. c = slash) (rev p)); e = rev (takeWhile (\<lambda>c. c \<noteq> slash) (rev q))
        in if e = [] then ''/'' else e)"

definition safe_id :: "string \<Rightarrow> bool" where
  "safe_id site \<longleftrightarrow> site \<noteq> [] \<and> site \<noteq> ''.'' \<and> site \<noteq> ''..'' \<and>
     site = path_base site \<and> \<not> list_ex (\<lambda>c. c = slash \<or> c = CHR 0x5C) site"

text \<open>\<open>filepath.Join\<close> of a directory and a name; an empty directory is left out.\<close>

definition file_join :: "string \<Rightarrow> string \<Rightarrow> string" where
  "file_join dir f = (if dir = [] then path_clean f else path_clean (dir @ ''/'' @ f))"

definition manager_path :: "string \<Rightarrow> string \<Rightarrow> string" where
  "manager_path dir site = file_join dir (site @ ''.db'')"

subsection \<open>The manager\<close>

record store_manager =
  sm_Files :: "string \<rightharpoonup> site_db"
  sm_Cache :: "string set"

definition new_manager :: "(string \<rightharpoonup> site_db) \<Rightarrow> store_manager" where
  "new_manager files = \<lparr>sm_Files = files, sm_Cache = {}\<rparr>"

datatype store_error = Invalid_site_id | Open_failed | Remove_failed

text \<open>\<open>broken\<close> names the sites whose file cannot be opened or migrated.\<close>

definition manager_get :: "(string \<Rightarrow> bool) \<Rightarrow> unix \<Rightarrow> string \<Rightarrow> store_manager \<Rightarrow>
    (store_error + site_db) \<times> store_manager" where
  "manager_get broken now site m =
     (if \<not> safe_id site then (Inl Invalid_site_id, m)
      else case (if site \<in> sm_Cache m then sm_Files m site else None) of
             Some db \<Rightarrow> (Inr db, m)
           | None \<Rightarrow>
               if broken site then (Inl Open_failed, m)
               else let db = open_site_store now (sm_Files m site) in
                 (Inr db, m\<lparr>sm_Files := (sm_Files m)(site \<mapsto> db), sm_Cache := insert site (sm_Cache m)\<rparr>))"

text \<open>\<open>rm_fails\<close> says for which of the three files, by suffix, \<open>os.Remove\<close> fails other than by
  absence.  The sidecars carry no state of their own once the handle is closed.\<close>

definition manager_delete :: "(string \<Rightarrow> bool) \<Rightarrow> string \<Rightarrow> store_manager \<Rightarrow>
    store_error option \<times> store_manager" where
  "manager_delete rm_fails site m =
     (if \<not> safe_id site then (Some Invalid_site_id, m)
      else let m = m\<lparr>sm_Cache := sm_Cache m - {site}\<rparr>;
               m' = (if rm_fails [] then m else m\<lparr>sm_Files := (sm_Files m)(site := None)\<rparr>)
        in (if list_ex rm_fails [[], ''-wal'', ''-shm''] then Some Remove_failed else None, m'))"

definition manager_close :: "store_manager \<Rightarrow> store_manager" where
  "manager_close m = m\<lparr>sm_Cache := {}\<rparr>"

subsection \<open>The overview\<close>

record site_overview =
  ov_Site :: site_config
  ov_Up :: "bool option"
  ov_LastCheckTS :: "unix option"
  ov_OngoingIncidentID :: "int option"
  ov_SSLExpiresAt :: "unix option"
  ov_Window :: string
  ov_Checks :: int
  ov_Failed :: int
  ov_UptimePercent :: rat
  ov_AvgMs :: rat
  ov_Error :: string

definition blank_overview :: "site_config \<Rightarrow> string \<Rightarrow> site_overview" where
  "blank_overview s window = \<lparr>ov_Site = s, ov_Up = None, ov_LastCheckTS = None,
     ov_OngoingIncidentID = None, ov_SSLExpiresAt = None, ov_Window = window, ov_Checks = 0,
     ov_Failed = 0, ov_UptimePercent = 0, ov_AvgMs = 0, ov_Error = []\<rparr>"

text \<open>The reads of a site database that may fail, by site.\<close>

datatype overview_read = Read_status | Read_metrics | Read_uptime

definition overview_row :: "(overview_read \<Rightarrow> string \<Rightarrow> bool) \<Rightarrow> string \<Rightarrow> unix \<Rightarrow> site_config \<Rightarrow>
    store_error + site_db \<Rightarrow> site_overview" where
  "overview_row fails window since s got =
     (let row = blank_overview s window in
      case got of
        Inl _ \<Rightarrow> row\<lparr>ov_Error := ''site data unavailable''\<rparr>
      | Inr db \<Rightarrow>
          if fails Read_status (sc_ID s) then row\<lparr>ov_Error := ''site status unavailable''\<rparr>
          else let st = site_status db;
                   row = row\<lparr>ov_Up := st_Up st, ov_LastCheckTS := st_LastCheckTS st,
                     ov_OngoingIncidentID := st_OngoingIncidentID st, ov_SSLExpiresAt := st_SSLExpiresAt st\<rparr>
          in if fails Read_metrics (sc_ID s) then row\<lparr>ov_Error := ''site metrics unavailable''\<rparr>
          else let m = site_metrics window since db;
                   row = row\<lparr>ov_Checks := me_Checks m, ov_Failed := me_Failed m, ov_AvgMs := me_AvgMs m\<rparr>
          in if fails Read_uptime (sc_ID s) then row\<lparr>ov_Error := ''site uptime unavailable''\<rparr>
          else row\<lparr>ov_UptimePercent := up_Percent (site_uptime window since db)\<rparr>)"

fun overview_loop :: "(overview_read \<Rightarrow> string \<Rightarrow> bool) \<Rightarrow> (string \<Rightarrow> bool) \<Rightarrow> unix \<Rightarrow> string \<Rightarrow> unix \<Rightarrow>
    site_config list \<Rightarrow> store_manager \<Rightarrow> site_overview list \<times> store_manager" where
  "overview_loop fails broken now window since [] m = ([], m)"
| "overview_loop fails broken now window since (s # ss) m =
     (let (got, m1) = manager_get broken now (sc_ID s) m;
          (rows, m2) = overview_loop fails broken now window since ss m1
      in (overview_row fails window since s got # rows, m2))"

definition overview :: "(overview_read \<Rightarrow> string \<Rightarrow> bool) \<Rightarrow> (string \<Rightarrow> bool) \<Rightarrow> unix \<Rightarrow> string \<Rightarrow> unix \<Rightarrow>
    registry \<Rightarrow> store_manager \<Rightarrow> site_overview list \<times> store_manager" where
  "overview fails broken now window since reg m =
     overview_loop fails broken now window since (registry_list reg) m"

subsection \<open>Safe ids\<close>

lemma path_base_simple:
  assumes "s \<noteq> []" "slash \<notin> set s"
  shows "path_base s = s"
proof -
  have "hd (rev s) \<noteq> slash" using assms by (metis hd_in_set rev_is_Nil_conv set_rev)
  then have "dropWhile (\<lambda>c. c = slash) (rev s) = rev s" by (intro dropWhile_fixed) simp
  moreover have "takeWhile (\<lambda>c. c \<noteq> slash) (rev s) = rev s"
    by (subst takeWhile_eq_all_conv) (use assms in auto)
  ultimately show ?thesis using assms(1) by (simp only: path_base_def Let_def rev_rev_ident if_False)
qed

lemma slug_char_safe: "slug_char c \<Longrightarrow> c \<noteq> slash \<and> c \<noteq> CHR 0x5C \<and> c \<noteq> CHR ''.''"
  by (auto simp: slug_char_def byte_defs)

lemma slug_no_special: "is_slug s \<Longrightarrow> c \<in> set s \<Longrightarrow> c \<noteq> slash \<and> c \<noteq> CHR 0x5C \<and> c \<noteq> CHR ''.''"
  using slug_char_safe by (fastforce simp: is_slug_iff list_all_iff)

lemma slug_safe: "is_slug s \<Longrightarrow> safe_id s"
proof -
  assume s: "is_slug s"
  then have "s \<noteq> []" "slash \<notin> set s" "CHR 0x5C \<notin> set s" "CHR ''.'' \<notin> set s"
    using slug_no_special [OF s] by (auto simp: is_slug_iff)
  then show ?thesis by (auto simp: safe_id_def path_base_simple list_ex_iff)
qed

lemma clean_elems_append:
  "(\<And>e. e \<in> set es' \<Longrightarrow> e \<noteq> [] \<and> e \<noteq> ''.'' \<and> e \<noteq> ''..'') \<Longrightarrow>
   clean_elems rooted out (es @ es') = clean_elems rooted out es @ es'"
proof (induction rooted out es rule: clean_elems.induct)
  case (1 rooted out)
  then show ?case by (induction es' arbitrary: out) auto
qed auto

text \<open>The entries of a directory lie in it, and different names are different paths.\<close>

definition entry_name :: "string \<Rightarrow> bool" where
  "entry_name f \<longleftrightarrow> f \<noteq> [] \<and> f \<noteq> ''.'' \<and> f \<noteq> ''..'' \<and> slash \<notin> set f"

lemma clean_entry: "entry_name f \<Longrightarrow>
    clean_elems r [] (split_on slash (dir @ ''/'' @ f)) = clean_elems r [] (split_on slash dir) @ [f]"
  using clean_elems_append [of "[f]" r "[]" "split_on slash dir"] by (simp add: entry_name_def split_on_append split_on_none)

lemma has_prefix_entry: "dir \<noteq> [] \<Longrightarrow> has_prefix ''/'' (dir @ x) = has_prefix ''/'' dir"
  by (cases dir) (simp_all add: has_prefix_def)

lemma file_join_entry:
  assumes "entry_name f"
  shows "file_join dir f =
    (let es = clean_elems (has_prefix ''/'' dir) [] (split_on slash dir); p = join ''/'' (es @ [f])
     in if has_prefix ''/'' dir then slash # p else p)"
proof (cases "dir = []")
  case True
  have "\<not> has_prefix ''/'' f" using assms by (cases f) (auto simp: entry_name_def has_prefix_def)
  moreover have "split_on slash f = [f]" using assms by (simp add: entry_name_def split_on_none)
  ultimately show ?thesis
    using assms True by (simp add: file_join_def path_clean_def Let_def entry_name_def) (simp add: has_prefix_def)
next
  case False
  then show ?thesis
    using clean_entry [OF assms] by (simp add: file_join_def path_clean_def Let_def has_prefix_entry)
qed

lemma join_snoc: "join s (es @ [f]) = (if es = [] then f else join s es @ s @ f)"
proof (induction es)
  case (Cons e es)
  then show ?case by (cases es) simp_all
qed simp

lemma file_join_inj: "entry_name f \<Longrightarrow> entry_name g \<Longrightarrow> file_join dir f = file_join dir g \<longleftrightarrow> f = g"
  by (auto simp: file_join_entry Let_def join_snoc split: if_splits)

lemma safe_entry: "safe_id site \<Longrightarrow> entry_name (site @ ''.db'')"
  by (auto simp: safe_id_def entry_name_def list_ex_iff Cons_eq_append_conv append_eq_Cons_conv)

lemma manager_path_inj: "safe_id a \<Longrightarrow> safe_id b \<Longrightarrow> manager_path dir a = manager_path dir b \<longleftrightarrow> a = b"
  by (simp add: manager_path_def file_join_inj safe_entry)

subsection \<open>The manager: laws\<close>

definition stores_inv :: "store_manager \<Rightarrow> bool" where
  "stores_inv m \<longleftrightarrow> sm_Cache m \<subseteq> dom (sm_Files m)"

lemma manager_get_inv [inv_intros]: "stores_inv m \<Longrightarrow> stores_inv (snd (manager_get broken now site m))"
  by (auto simp: manager_get_def stores_inv_def Let_def split: option.splits if_splits)

lemma manager_delete_inv [inv_intros]: "stores_inv m \<Longrightarrow> stores_inv (snd (manager_delete rm_fails site m))"
  by (auto simp: manager_delete_def stores_inv_def Let_def)

lemma manager_get_other: "site' \<noteq> site \<Longrightarrow> sm_Files (snd (manager_get broken now site m)) site' = sm_Files m site'"
  by (auto simp: manager_get_def Let_def split: option.splits if_splits)

lemma manager_get_keeps: "sm_Files m k = Some db \<Longrightarrow> sm_Files (snd (manager_get broken now site m)) k = Some db"
  by (auto simp: manager_get_def Let_def open_site_store_def split: option.splits if_splits)

text \<open>What a successful \<open>Get\<close> returns, and that it is stable.\<close>

lemma manager_get_result:
  assumes "fst (manager_get broken now site m) = Inr db"
  shows "sm_Files (snd (manager_get broken now site m)) site = Some db"
    "db = open_site_store now (sm_Files m site)" "safe_id site"
  using assms by (auto simp: manager_get_def Let_def open_site_store_def split: option.splits if_splits)

lemma manager_get_ok: "safe_id site \<Longrightarrow> \<not> broken site \<Longrightarrow>
    fst (manager_get broken now site m) = Inr (open_site_store now (sm_Files m site))"
  by (auto simp: manager_get_def Let_def open_site_store_def split: option.splits)

text \<open>Opening one store changes no answer for any store.\<close>

lemma manager_get_again:
  "fst (manager_get broken now site' (snd (manager_get broken now site m))) = fst (manager_get broken now site' m)"
  by (cases "site' = site") (auto simp: manager_get_def Let_def open_site_store_def split: option.splits if_splits)

lemma overview_loop_map:
  "fst (overview_loop fails broken now window since ss m) =
     map (\<lambda>s. overview_row fails window since s (fst (manager_get broken now (sc_ID s) m))) ss"
  by (induction ss arbitrary: m) (simp_all add: Let_def split_beta manager_get_again)

lemma overview_loop_inv [inv_intros]:
  "stores_inv m \<Longrightarrow> stores_inv (snd (overview_loop fails broken now window since ss m))"
  by (induction ss arbitrary: m) (auto simp: Let_def split_beta intro: inv_intros)

lemma overview_loop_keeps:
  "sm_Files m k = Some db \<Longrightarrow> sm_Files (snd (overview_loop fails broken now window since ss m)) k = Some db"
  by (induction ss arbitrary: m) (auto simp: Let_def split_beta manager_get_keeps)

lemma overview_row_error:
  "ov_Error (overview_row fails window since s got) = [] \<longleftrightarrow>
     \<not> is_err got \<and> \<not> fails Read_status (sc_ID s) \<and> \<not> fails Read_metrics (sc_ID s) \<and> \<not> fails Read_uptime (sc_ID s)"
  by (cases got) (simp_all add: overview_row_def blank_overview_def Let_def)

text \<open>
  The dashboard has exactly one row per registered site, in id order, and each row is
  computed from its own site alone: it carries no error exactly when that site's database
  opens and can be read, whatever the other sites do, and then shows its state and figures.
\<close>

theorem overview_isolates_failures:
  "let rows = fst (overview fails broken now window since reg m);
       own = (\<lambda>s. fst (manager_get broken now (sc_ID s) m)) in
   rows = map (\<lambda>s. overview_row fails window since s (own s)) (registry_list reg) \<and>
   (\<forall>s. ov_Error (overview_row fails window since s (own s)) = [] \<longleftrightarrow>
      (case own s of
         Inl _ \<Rightarrow> False
       | Inr db \<Rightarrow> \<not> fails Read_status (sc_ID s) \<and> \<not> fails Read_metrics (sc_ID s) \<and> \<not> fails Read_uptime (sc_ID s) \<and>
           (let row = overview_row fails window since s (own s) in
            ov_Up row = st_Up (site_status db) \<and>
            ov_Checks row = up_Checks (site_uptime window since db) \<and>
            ov_Failed row = up_Failed (site_uptime window since db) \<and>
            ov_UptimePercent row = up_Percent (site_uptime window since db))))"
proof -
  have d: "(case got of Inl _ \<Rightarrow> False
       | Inr db \<Rightarrow> \<not> fails Read_status (sc_ID s) \<and> \<not> fails Read_metrics (sc_ID s) \<and> \<not> fails Read_uptime (sc_ID s) \<and>
           (let row = overview_row fails window since s got in
            ov_Up row = st_Up (site_status db) \<and>
            ov_Checks row = up_Checks (site_uptime window since db) \<and>
            ov_Failed row = up_Failed (site_uptime window since db) \<and>
            ov_UptimePercent row = up_Percent (site_uptime window since db)))
      \<longleftrightarrow> ov_Error (overview_row fails window since s got) = []" for s and got :: "store_error + site_db"
    unfolding overview_row_error
    by (cases got) (auto simp: overview_row_def Let_def site_metrics_def site_uptime_def)
  show ?thesis
    unfolding Let_def overview_def overview_loop_map
    by (intro conjI allI refl d [unfolded Let_def, symmetric])
qed

end
