(* ===== verification/Limiter.thy ===== *)
theory Limiter
  imports Prelude
begin

section \<open>Login throttling (internal/auth/ratelimit.go)\<close>

text \<open>
  \<open>Limiter\<close> keeps, per key, the times of recent failures and prunes them on every read.  Times
  and durations are nanoseconds; the clock is an argument of every operation.  The theorems
  compare it with the whole history of failures: pruning never changes an answer, and
  \<open>RetryAfter\<close> is the time until the answer can change.
\<close>

definition DefaultMaxAttempts :: int where "DefaultMaxAttempts = 5"
definition DefaultWindow :: int where "DefaultWindow = 15 * 60 * 1000000000"

record limiter =
  lm_Max :: int
  lm_Window :: int
  lm_Attempts :: "string \<rightharpoonup> int list"

definition new_limiter :: "int \<Rightarrow> int \<Rightarrow> limiter" where
  "new_limiter maxAttempts window =
     \<lparr>lm_Max = (if maxAttempts \<le> 0 then DefaultMaxAttempts else maxAttempts),
      lm_Window = (if window \<le> 0 then DefaultWindow else window), lm_Attempts = Map.empty\<rparr>"

text \<open>\<open>liveLocked\<close>: the attempts after the cutoff; the older ones are dropped from the map.\<close>

definition attempts_of :: "limiter \<Rightarrow> string \<Rightarrow> int list" where
  "attempts_of l k = (case lm_Attempts l k of None \<Rightarrow> [] | Some ts \<Rightarrow> ts)"

definition live_locked :: "string \<Rightarrow> int \<Rightarrow> limiter \<Rightarrow> int list \<times> limiter" where
  "live_locked k cutoff l =
     (let ts = dropWhile (\<lambda>t. \<not> t > cutoff) (attempts_of l k)
      in (ts, l\<lparr>lm_Attempts := (if ts = [] then (lm_Attempts l)(k := None)
                              else (lm_Attempts l)(k \<mapsto> ts))\<rparr>))"

fun allowed_keys :: "int \<Rightarrow> string list \<Rightarrow> limiter \<Rightarrow> bool \<times> limiter" where
  "allowed_keys cutoff [] l = (True, l)"
| "allowed_keys cutoff (k # ks) l =
     (let (live, l') = live_locked k cutoff l in
      if int (length live) \<ge> lm_Max l then (False, l') else allowed_keys cutoff ks l')"

definition allowed :: "int \<Rightarrow> string list \<Rightarrow> limiter \<Rightarrow> bool \<times> limiter" where
  "allowed now ks l = allowed_keys (now - lm_Window l) ks l"

definition record_failure :: "int \<Rightarrow> string list \<Rightarrow> limiter \<Rightarrow> limiter" where
  "record_failure now ks l = foldl (\<lambda>l k.
     let (live, l') = live_locked k (now - lm_Window l) l
     in l'\<lparr>lm_Attempts := (lm_Attempts l')(k \<mapsto> live @ [now])\<rparr>) l ks"

definition reset :: "string list \<Rightarrow> limiter \<Rightarrow> limiter" where
  "reset ks l = foldl (\<lambda>l k. l\<lparr>lm_Attempts := (lm_Attempts l)(k := None)\<rparr>) l ks"

text \<open>One round of the loop of \<open>RetryAfter\<close>, with the longest wait so far.\<close>

definition retry_key :: "int \<Rightarrow> int \<times> limiter \<Rightarrow> string \<Rightarrow> int \<times> limiter" where
  "retry_key now acc k =
     (let longest = fst acc; l = snd acc; live = fst (live_locked k (now - lm_Window l) l);
          l' = snd (live_locked k (now - lm_Window l) l); d = hd live + lm_Window l - now
      in if int (length live) < lm_Max l then (longest, l')
         else (if d > longest then d else longest, l'))"

definition retry_after :: "int \<Rightarrow> string list \<Rightarrow> limiter \<Rightarrow> int \<times> limiter" where
  "retry_after now ks l = foldl (retry_key now) (0, l) ks"

subsection \<open>Histories\<close>

text \<open>
  A run is a sequence of calls, each some time after the one before (Go's clock readings within a
  process are monotonic).
\<close>

datatype limiter_call = Allowed "string list" | Record_failure "string list" | Reset "string list"
  | Retry_after "string list"

fun limiter_step :: "int \<times> limiter \<Rightarrow> nat \<times> limiter_call \<Rightarrow> int \<times> limiter" where
  "limiter_step (now, l) (dt, c) =
     (let now = now + int dt in
      (now, case c of
         Allowed ks \<Rightarrow> snd (allowed now ks l)
       | Record_failure ks \<Rightarrow> record_failure now ks l
       | Reset ks \<Rightarrow> reset ks l
       | Retry_after ks \<Rightarrow> snd (retry_after now ks l)))"

text \<open>The failures of a key since its last reset, with no pruning.\<close>

definition note_call :: "int \<Rightarrow> limiter_call \<Rightarrow> (string \<Rightarrow> int list) \<Rightarrow> string \<Rightarrow> int list" where
  "note_call now c h k =
     (case c of
        Record_failure ks \<Rightarrow> h k @ replicate (count_list ks k) now
      | Reset ks \<Rightarrow> if k \<in> set ks then [] else h k
      | _ \<Rightarrow> h k)"

fun history_step :: "int \<times> (string \<Rightarrow> int list) \<Rightarrow> nat \<times> limiter_call \<Rightarrow> int \<times> (string \<Rightarrow> int list)" where
  "history_step (now, h) (dt, c) = (now + int dt, note_call (now + int dt) c h)"

text \<open>
  The limiter at a time agrees with a history: the stored attempts are sorted, in the past, and
  give the same recent failures for every window that ends now or later.
\<close>

definition agrees :: "int \<Rightarrow> limiter \<Rightarrow> (string \<Rightarrow> int list) \<Rightarrow> bool" where
  "agrees now l h \<longleftrightarrow> (\<forall>k. sorted (attempts_of l k) \<and> sorted (h k) \<and> (\<forall>t\<in>set (h k). t \<le> now) \<and>
     (\<forall>t\<in>set (attempts_of l k). t \<le> now) \<and>
     (\<forall>c. now - lm_Window l \<le> c \<longrightarrow> filter (\<lambda>t. t > c) (attempts_of l k) = filter (\<lambda>t. t > c) (h k)))"

lemma dropWhile_sorted: "sorted ts \<Longrightarrow> dropWhile (\<lambda>t. \<not> t > c) ts = filter (\<lambda>t. t > (c :: int)) ts"
proof (induction ts)
  case (Cons t ts)
  show ?case
  proof (cases "t > c")
    case True
    with Cons.prems have "\<forall>x\<in>set ts. x > c" by auto
    with True show ?thesis by (simp add: filter_id_conv)
  next
    case False
    with Cons show ?thesis by simp
  qed
qed simp

lemma live_locked_attempts:
  "attempts_of (snd (live_locked k c l)) k' =
     (if k' = k then dropWhile (\<lambda>t. \<not> t > c) (attempts_of l k) else attempts_of l k')"
proof -
  define ts where "ts = dropWhile (\<lambda>t. \<not> t > c) (attempts_of l k)"
  show ?thesis
    unfolding live_locked_def ts_def [symmetric] Let_def snd_conv by (simp add: attempts_of_def)
qed

lemma live_locked_simps [simp]:
  "fst (live_locked k c l) = dropWhile (\<lambda>t. \<not> t > c) (attempts_of l k)"
  "lm_Max (snd (live_locked k c l)) = lm_Max l" "lm_Window (snd (live_locked k c l)) = lm_Window l"
  by (simp_all add: live_locked_def Let_def)

text \<open>Pruning at a cutoff of the past keeps the agreement.\<close>

lemma agrees_live:
  assumes "agrees now l h" "c \<le> now - lm_Window l"
  shows "agrees now (snd (live_locked k c l)) h"
proof -
  have s: "sorted (attempts_of l k')" for k' using assms(1) by (simp add: agrees_def)
  have d: "attempts_of (snd (live_locked k c l)) k' =
      (if k' = k then filter (\<lambda>t. t > c) (attempts_of l k) else attempts_of l k')" for k'
    using s [of k] by (simp add: live_locked_attempts dropWhile_sorted)
  have f: "filter (\<lambda>t. t > x) (filter (\<lambda>t. t > c) ts) = filter (\<lambda>t. t > x) ts" if "c \<le> x" for x ts
    using that by (induction ts) auto
  show ?thesis
    unfolding agrees_def
  proof (intro allI conjI ballI impI)
    fix k'
    show "sorted (attempts_of (snd (live_locked k c l)) k')"
      using s by (simp add: d sorted_wrt_filter)
    show "sorted (h k')" using assms(1) by (simp add: agrees_def)
    show "t \<le> now" if "t \<in> set (h k')" for t using that assms(1) by (simp add: agrees_def)
    show "t \<le> now" if "t \<in> set (attempts_of (snd (live_locked k c l)) k')" for t
      using that assms(1) by (auto simp: d agrees_def split: if_splits)
    show "filter (\<lambda>t. t > x) (attempts_of (snd (live_locked k c l)) k') = filter (\<lambda>t. t > x) (h k')"
      if "now - lm_Window (snd (live_locked k c l)) \<le> x" for x
    proof -
      have "now - lm_Window l \<le> x" using that by (simp add: live_locked_def Let_def)
      then have e: "filter (\<lambda>t. t > x) (attempts_of l k') = filter (\<lambda>t. t > x) (h k')" "c \<le> x"
        using assms by (auto simp: agrees_def)
      show ?thesis
      proof (cases "k' = k")
        case True
        with e f [OF e(2), of "attempts_of l k"] show ?thesis by (simp only: d simp_thms if_True)
      next
        case False
        with e(1) show ?thesis by (simp only: d simp_thms if_False)
      qed
    qed
  qed
qed

lemma agrees_live_length:
  assumes "agrees now l h"
  shows "dropWhile (\<lambda>t. \<not> t > now - lm_Window l) (attempts_of l k) = filter (\<lambda>t. t > now - lm_Window l) (h k)"
  using assms by (auto simp: agrees_def dropWhile_sorted)

text \<open>A failure count that is allowed: fewer than the maximum within the window.\<close>

definition recent :: "int \<Rightarrow> int \<Rightarrow> (string \<Rightarrow> int list) \<Rightarrow> string \<Rightarrow> int list" where
  "recent now window h k = filter (\<lambda>t. t > now - window) (h k)"

lemma allowed_agrees:
  assumes "agrees now l h"
  shows "fst (allowed now ks l) = list_all (\<lambda>k. int (length (recent now (lm_Window l) h k)) < lm_Max l) ks"
    and "agrees now (snd (allowed now ks l)) h" and "lm_Window (snd (allowed now ks l)) = lm_Window l"
    and "lm_Max (snd (allowed now ks l)) = lm_Max l"
proof -
  have "fst (allowed_keys (now - lm_Window l) ks l) =
      list_all (\<lambda>k. int (length (recent now (lm_Window l) h k)) < lm_Max l) ks \<and>
    agrees now (snd (allowed_keys (now - lm_Window l) ks l)) h \<and>
    lm_Window (snd (allowed_keys (now - lm_Window l) ks l)) = lm_Window l \<and>
    lm_Max (snd (allowed_keys (now - lm_Window l) ks l)) = lm_Max l"
    using assms
  proof (induction ks arbitrary: l)
    case (Cons k ks)
    let ?l = "snd (live_locked k (now - lm_Window l) l)"
    have "agrees now ?l h" using Cons.prems by (rule agrees_live) simp
    note IH = Cons.IH [OF this]
    have "fst (live_locked k (now - lm_Window l) l) = recent now (lm_Window l) h k"
      using agrees_live_length [OF Cons.prems] by (simp add: recent_def)
    with IH \<open>agrees now ?l h\<close> show ?case by (auto simp: case_prod_beta)
  qed simp
  then show "fst (allowed now ks l) = list_all (\<lambda>k. int (length (recent now (lm_Window l) h k)) < lm_Max l) ks"
    "agrees now (snd (allowed now ks l)) h" "lm_Window (snd (allowed now ks l)) = lm_Window l"
    "lm_Max (snd (allowed now ks l)) = lm_Max l" by (simp_all add: allowed_def)
qed

lemma record_failure_agrees:
  assumes "agrees now l h"
  shows "agrees now (record_failure now ks l) (note_call now (Record_failure ks) h) \<and>
    lm_Window (record_failure now ks l) = lm_Window l \<and> lm_Max (record_failure now ks l) = lm_Max l"
  using assms
proof (induction ks arbitrary: l h)
  case Nil
  then show ?case by (simp add: record_failure_def note_call_def)
next
  case (Cons k ks)
  let ?p = "snd (live_locked k (now - lm_Window l) l)"
  let ?live = "fst (live_locked k (now - lm_Window l) l)"
  let ?l = "?p\<lparr>lm_Attempts := (lm_Attempts ?p)(k \<mapsto> ?live @ [now])\<rparr>"
  let ?h = "\<lambda>k'. h k' @ (if k' = k then [now] else [])"
  have p: "agrees now ?p h" using Cons.prems by (rule agrees_live) simp
  have live: "?live = filter (\<lambda>t. t > now - lm_Window l) (h k)"
    using agrees_live_length [OF Cons.prems] by simp
  have "attempts_of ?l k' = (if k' = k then ?live @ [now] else attempts_of ?p k')" for k'
    by (simp add: attempts_of_def)
  moreover have "attempts_of ?p k = ?live" by (simp add: live_locked_attempts)
  ultimately have "attempts_of ?l k' = attempts_of ?p k' @ (if k' = k then [now] else [])" for k' by simp
  then have "agrees now ?l ?h"
    using p by (auto simp: agrees_def sorted_append)
  from Cons.IH [OF this]
  have "agrees now (record_failure now ks ?l) (note_call now (Record_failure ks) ?h)"
    "lm_Window (record_failure now ks ?l) = lm_Window l" "lm_Max (record_failure now ks ?l) = lm_Max l"
    by simp_all
  moreover have "note_call now (Record_failure ks) ?h = note_call now (Record_failure (k # ks)) h"
    by (auto simp: note_call_def fun_eq_iff replicate_append_same)
  moreover have "record_failure now (k # ks) l = record_failure now ks ?l"
    by (simp add: record_failure_def case_prod_beta)
  ultimately show ?case by simp
qed

lemma reset_attempts:
  "lm_Attempts (reset ks l) k = (if k \<in> set ks then None else lm_Attempts l k)"
  "lm_Window (reset ks l) = lm_Window l" "lm_Max (reset ks l) = lm_Max l"
  by (induction ks arbitrary: l) (auto simp: reset_def)

lemma reset_agrees: "agrees now l h \<Longrightarrow> agrees now (reset ks l) (note_call now (Reset ks) h)"
  by (auto simp: agrees_def attempts_of_def reset_attempts note_call_def)

text \<open>Moving on in time keeps the agreement: windows only move forward.\<close>

lemma agrees_later: "agrees now l h \<Longrightarrow> now \<le> now' \<Longrightarrow> agrees now' l h"
  unfolding agrees_def by (meson diff_right_mono order_trans)

text \<open>The wait that a key alone would call for.\<close>

definition key_wait :: "int \<Rightarrow> int \<Rightarrow> int \<Rightarrow> int list \<Rightarrow> int" where
  "key_wait now window maxi live = (if int (length live) < maxi then 0 else hd live + window - now)"

lemma fold_max_nonneg: "0 \<le> v \<Longrightarrow> 0 \<le> fold max xs (v :: int)"
  by (induction xs arbitrary: v) auto

lemma retry_key_wait:
  assumes "agrees now l h" "0 \<le> longest"
  shows "retry_key now (longest, l) k =
    (max (key_wait now (lm_Window l) (lm_Max l) (recent now (lm_Window l) h k)) longest,
     snd (live_locked k (now - lm_Window l) l))"
proof -
  have "fst (live_locked k (now - lm_Window l) l) = recent now (lm_Window l) h k"
    using agrees_live_length [OF assms(1)] by (simp add: recent_def)
  then show ?thesis using assms(2) by (auto simp: retry_key_def Let_def key_wait_def max_def)
qed

lemma retry_after_agrees:
  assumes "agrees now l h"
  shows "agrees now (snd (retry_after now ks l)) h \<and> lm_Window (snd (retry_after now ks l)) = lm_Window l \<and>
    lm_Max (snd (retry_after now ks l)) = lm_Max l \<and>
    fst (retry_after now ks l) =
      fold max (map (\<lambda>k. key_wait now (lm_Window l) (lm_Max l) (recent now (lm_Window l) h k)) ks) 0"
proof (induction ks rule: rev_induct)
  case Nil
  with assms show ?case by (simp add: retry_after_def)
next
  case (snoc k ks)
  obtain longest l1 where r: "retry_after now ks l = (longest, l1)" by fastforce
  with snoc have IH: "agrees now l1 h" "lm_Window l1 = lm_Window l" "lm_Max l1 = lm_Max l"
    "longest = fold max (map (\<lambda>k. key_wait now (lm_Window l) (lm_Max l) (recent now (lm_Window l) h k)) ks) 0"
    by simp_all
  have nonneg: "0 \<le> longest" unfolding IH(4) by (rule fold_max_nonneg) simp
  have agr: "agrees now (snd (live_locked k (now - lm_Window l1) l1)) h" using IH(1) by (rule agrees_live) simp
  have "retry_after now (ks @ [k]) l = retry_key now (longest, l1) k"
    using r by (simp add: retry_after_def)
  with retry_key_wait [OF IH(1) nonneg, of k] IH agr show ?case by simp
qed

subsection \<open>Runs\<close>

lemma limiter_step_agrees:
  assumes "agrees now l h"
  shows "agrees (fst (limiter_step (now, l) e)) (snd (limiter_step (now, l) e)) (snd (history_step (now, h) e)) \<and>
    fst (history_step (now, h) e) = fst (limiter_step (now, l) e) \<and>
    lm_Max (snd (limiter_step (now, l) e)) = lm_Max l \<and> lm_Window (snd (limiter_step (now, l) e)) = lm_Window l"
proof -
  obtain dt c where e: "e = (dt, c)" by fastforce
  have now: "agrees (now + int dt) l h" by (rule agrees_later [OF assms]) simp
  have same: "note_call (now + int dt) (Allowed ks) h = h" "note_call (now + int dt) (Retry_after ks) h = h" for ks
    by (simp_all add: note_call_def fun_eq_iff)
  show ?thesis
    using allowed_agrees [OF now] record_failure_agrees [OF now] reset_agrees [OF now] retry_after_agrees [OF now]
    by (cases c) (simp_all add: e Let_def same reset_attempts)
qed

definition failures :: "int \<Rightarrow> (nat \<times> limiter_call) list \<Rightarrow> string \<Rightarrow> int list" where
  "failures start es = snd (foldl history_step (start, \<lambda>_. []) es)"

lemma limiter_run_agrees:
  "let (now, l) = foldl limiter_step (start, new_limiter m w) es in
   agrees now l (failures start es) \<and> lm_Max l = lm_Max (new_limiter m w) \<and>
   lm_Window l = lm_Window (new_limiter m w) \<and> fst (foldl history_step (start, \<lambda>_. []) es) = now"
proof (induction es rule: rev_induct)
  case Nil
  then show ?case by (simp add: failures_def agrees_def new_limiter_def attempts_of_def)
next
  case (snoc e es)
  obtain now l where r: "foldl limiter_step (start, new_limiter m w) es = (now, l)" by fastforce
  obtain now' h where h: "foldl history_step (start, \<lambda>_. []) es = (now', h)" by fastforce
  from snoc r h have "agrees now l h" "now' = now" "lm_Max l = lm_Max (new_limiter m w)"
    "lm_Window l = lm_Window (new_limiter m w)"
    by (simp_all add: failures_def)
  with limiter_step_agrees [of now l h e] show ?case
    by (simp add: failures_def r h case_prod_beta)
qed

text \<open>
  C31: the throttle counts exactly the recent failures.  After any run of calls, an attempt is
  allowed just when every key has fewer than the maximum of failures within the window since its
  last reset; pruning old entries never changes the answer.
\<close>

theorem allowed_iff_few_recent_failures:
  "let (now, l) = foldl limiter_step (start, new_limiter m w) es;
       maxi = (if m \<le> 0 then 5 else m); window = (if w \<le> 0 then 15 * 60 * 1000000000 else w)
   in fst (allowed now ks l) =
      list_all (\<lambda>k. int (length (filter (\<lambda>t. t > now - window) (failures start es k))) < maxi) ks"
proof -
  obtain now l where r: "foldl limiter_step (start, new_limiter m w) es = (now, l)" by fastforce
  with limiter_run_agrees [of start m w es] have a: "agrees now l (failures start es)"
    "lm_Max l = lm_Max (new_limiter m w)" "lm_Window l = lm_Window (new_limiter m w)" by simp_all
  from allowed_agrees(1) [OF a(1), of ks] r show ?thesis
    by (simp add: a new_limiter_def recent_def DefaultMaxAttempts_def DefaultWindow_def)
qed

lemma fold_max_Max: "fold max xs (0 :: int) = Max (set (0 # xs))"
  by (simp only: Max.set_eq_fold)

lemma recent_later:
  assumes "0 \<le> x"
  shows "recent (now + x) w h k = filter (\<lambda>t. t > now + x - w) (recent now w h k)"
  using assms by (auto simp: recent_def intro: filter_cong)

lemma sorted_hd_le: "sorted ts \<Longrightarrow> t \<in> set ts \<Longrightarrow> hd ts \<le> (t :: int)"
  by (cases ts) auto

text \<open>Before its wait is over a key stays refused; then, unless overfull, it is allowed.\<close>

lemma key_wait_before:
  assumes "sorted (recent now w h k)" "0 \<le> x" "x < key_wait now w m (recent now w h k)"
  shows "m \<le> int (length (recent (now + x) w h k))"
proof -
  let ?live = "recent now w h k"
  from assms(2,3) have full: "m \<le> int (length ?live)" and "x < hd ?live + w - now"
    by (auto simp: key_wait_def split: if_splits)
  then have "\<forall>t\<in>set ?live. now + x - w < t" using sorted_hd_le [OF assms(1)] by force
  then have "recent (now + x) w h k = ?live" using recent_later [OF assms(2), of now w h k] by (simp add: filter_id_conv)
  with full show ?thesis by simp
qed

lemma key_wait_after:
  assumes "sorted (recent now w h k)" "0 < m" "int (length (recent now w h k)) \<le> m"
    "key_wait now w m (recent now w h k) \<le> x" "0 \<le> x"
  shows "int (length (recent (now + x) w h k)) < m"
proof (cases "int (length (recent now w h k)) < m")
  case True
  have "length (recent (now + x) w h k) \<le> length (recent now w h k)"
    unfolding recent_later [OF assms(5)] by (rule length_filter_le)
  with True show ?thesis by simp
next
  case False
  then obtain t ts where l: "recent now w h k = t # ts" using assms(2) by (cases "recent now w h k") auto
  with False assms(4) have "t + w - now \<le> x" by (simp add: key_wait_def)
  then have "recent (now + x) w h k = filter (\<lambda>t. t > now + x - w) ts"
    using recent_later [OF assms(5), of now w h k] l by simp
  then have "length (recent (now + x) w h k) \<le> length ts" by simp
  with l assms(3) show ?thesis by simp
qed

lemma key_wait_pos:
  assumes "0 < m"
  shows "(0 < key_wait now w m (recent now w h k)) = (m \<le> int (length (recent now w h k)))"
proof (cases "int (length (recent now w h k)) < m")
  case False
  with assms have "recent now w h k \<noteq> []" by auto
  then have "hd (recent now w h k) \<in> set (recent now w h k)" by simp
  then have "now - w < hd (recent now w h k)" by (simp add: recent_def)
  with False show ?thesis by (simp add: key_wait_def)
qed (simp add: key_wait_def)

text \<open>
  \<open>RetryAfter\<close> is exact.  It is 0 just when an attempt is allowed now; any earlier than
  that duration an attempt is still refused; and once it has passed without further failures an
  attempt is allowed, provided no key collected more failures than the maximum.
\<close>

theorem retry_after_exact:
  "let (now, l) = foldl limiter_step (start, new_limiter m w) es; d = fst (retry_after now ks l) in
   0 \<le> d \<and> (d = 0 \<longleftrightarrow> fst (allowed now ks l)) \<and>
   (if int dt < d then \<not> fst (allowed (now + int dt) ks l) else True) \<and>
   (if list_all (\<lambda>k. int (length (recent now (lm_Window l) (failures start es) k)) \<le> lm_Max l) ks
    then fst (allowed (now + d) ks l) else True)"
proof -
  obtain now l where r: "foldl limiter_step (start, new_limiter m w) es = (now, l)" by fastforce
  define h where "h = failures start es"
  from limiter_run_agrees [of start m w es] r have a: "agrees now l h" and "lm_Max l = lm_Max (new_limiter m w)"
    by (simp_all add: h_def)
  then have pos: "0 < lm_Max l" by (simp add: new_limiter_def DefaultMaxAttempts_def)
  define live where "live k = recent now (lm_Window l) h k" for k
  define wait where "wait k = key_wait now (lm_Window l) (lm_Max l) (live k)" for k
  have sorted: "sorted (live k)" for k using a by (simp add: live_def recent_def agrees_def sorted_wrt_filter)
  define d where "d = fst (retry_after now ks l)"
  have d: "d = Max (set (0 # map wait ks))"
    unfolding d_def fold_max_Max [symmetric] wait_def live_def using retry_after_agrees [OF a, of ks] by blast
  have d0: "0 \<le> d" unfolding d by (rule Max_ge) auto
  have dk: "wait k \<le> d" if "k \<in> set ks" for k unfolding d using that by (intro Max_ge) auto
  have "d \<in> set (0 # map wait ks)" unfolding d by (rule Max_in) auto
  then have attained: "d = 0 \<or> (\<exists>k\<in>set ks. wait k = d)" by auto
  have allowed_at: "fst (allowed (now + x) ks l) =
      list_all (\<lambda>k. int (length (recent (now + x) (lm_Window l) h k)) < lm_Max l) ks" if "0 \<le> x" for x
    using allowed_agrees(1) [OF agrees_later [OF a]] that by simp
  have refused: "\<not> fst (allowed (now + int dt) ks l)" if "int dt < d" for dt
  proof -
    from attained that obtain k where "k \<in> set ks" "wait k = d" by auto
    with that key_wait_before [of now "lm_Window l" h k "int dt" "lm_Max l"] sorted [of k]
    have "lm_Max l \<le> int (length (recent (now + int dt) (lm_Window l) h k))" by (simp add: wait_def live_def)
    with \<open>k \<in> set ks\<close> show ?thesis by (auto simp: allowed_at list_all_iff not_less)
  qed
  have zero: "d = 0 \<longleftrightarrow> fst (allowed now ks l)"
  proof -
    have "fst (allowed now ks l) = list_all (\<lambda>k. int (length (live k)) < lm_Max l) ks"
      using allowed_at [of 0] by (simp add: live_def)
    moreover have "(d = 0) = list_all (\<lambda>k. \<not> 0 < wait k) ks"
      using d0 dk attained by (force simp: list_all_iff)
    ultimately show ?thesis
      using key_wait_pos [OF pos] by (simp add: wait_def live_def not_le)
  qed
  have after: "fst (allowed (now + d) ks l)" if "list_all (\<lambda>k. int (length (live k)) \<le> lm_Max l) ks"
    using that sorted dk d0 pos key_wait_after
    by (simp add: allowed_at list_all_iff wait_def live_def)
  show ?thesis using d0 zero refused after
    by (simp add: r Let_def d_def live_def h_def)
qed

subsection \<open>What is never pruned\<close>

text \<open>
  Pruning happens on the keys of the call only: a key that is not asked for again keeps its
  entry, however old, so the map grows with every distinct name and address that ever failed.
\<close>

lemma live_locked_other: "k' \<noteq> k \<Longrightarrow> lm_Attempts (snd (live_locked k c l)) k' = lm_Attempts l k'"
  by (simp add: live_locked_def Let_def)

lemma unread_keys_stay:
  assumes "k \<notin> set ks"
  shows "lm_Attempts (snd (allowed now ks l)) k = lm_Attempts l k" "lm_Attempts (record_failure now ks l) k = lm_Attempts l k"
    "lm_Attempts (reset ks l) k = lm_Attempts l k" "lm_Attempts (snd (retry_after now ks l)) k = lm_Attempts l k"
proof -
  have "lm_Attempts (snd (allowed_keys c ks l)) k = lm_Attempts l k" for c
    using assms by (induction ks arbitrary: l) (auto simp: case_prod_beta live_locked_other)
  then show "lm_Attempts (snd (allowed now ks l)) k = lm_Attempts l k" by (simp add: allowed_def)
  show "lm_Attempts (record_failure now ks l) k = lm_Attempts l k"
    using assms unfolding record_failure_def by (induction ks arbitrary: l) (auto simp: case_prod_beta live_locked_other)
  show "lm_Attempts (reset ks l) k = lm_Attempts l k" using assms by (simp add: reset_attempts)
  have "lm_Attempts (snd (foldl (retry_key now) (d, l) ks)) k = lm_Attempts l k" for d
    using assms
  proof (induction ks arbitrary: d l)
    case (Cons x xs)
    have "snd (retry_key now (d, l) x) = snd (live_locked x (now - lm_Window l) l)" by (simp add: retry_key_def Let_def)
    then obtain d' where "retry_key now (d, l) x = (d', snd (live_locked x (now - lm_Window l) l))" by (metis prod.collapse)
    with Cons show ?case by (simp add: live_locked_other)
  qed simp
  then show "lm_Attempts (snd (retry_after now ks l)) k = lm_Attempts l k" by (simp add: retry_after_def)
qed

end
