(* ===== verification/Auth.thy ===== *)
theory Auth
  imports Config
begin

section \<open>Credentials (internal/auth/auth.go)\<close>

text \<open>
  Passwords, session tokens and their storage ids.  The third-party bcrypt, SHA-256 and the
  random source are arguments; the checks around them, the UTF-8 rune count and the
  encodings are written out.
\<close>

definition BcryptCost :: nat where "BcryptCost = 12"
definition MinPasswordLength :: nat where "MinPasswordLength = 12"

subsection \<open>utf8.RuneCountInString\<close>

text \<open>
  The number of bytes the first rune takes; an invalid or truncated sequence counts as one rune
  of one byte.  The ranges are those of the second byte after each leading byte.
\<close>

definition second_range :: "nat \<Rightarrow> nat \<times> nat" where
  "second_range b = (if b = 224 then (160, 191) else if b = 237 then (128, 159)
     else if b = 240 then (144, 191) else if b = 244 then (128, 143) else (128, 191))"

definition sequence_length :: "nat \<Rightarrow> nat" where
  "sequence_length b = (if 194 \<le> b \<and> b \<le> 223 then 2 else if 224 \<le> b \<and> b \<le> 239 then 3
     else if 240 \<le> b \<and> b \<le> 244 then 4 else 1)"

definition rune_size :: "string \<Rightarrow> nat" where
  "rune_size s =
     (let b = byte (hd s); n = sequence_length b; (lo, hi) = second_range b;
          continues = (\<lambda>i. 128 \<le> byte (s ! i) \<and> byte (s ! i) \<le> 191)
      in if b < 128 \<or> n = 1 \<or> length s < n then 1
         else if byte (s ! 1) < lo \<or> hi < byte (s ! 1) then 1
         else if n = 2 then 2
         else if \<not> continues 2 then 1
         else if n = 3 then 3
         else if \<not> continues 3 then 1 else 4)"

lemma rune_size_pos: "0 < rune_size s"
  by (simp add: rune_size_def Let_def split: prod.split)

function rune_count :: "string \<Rightarrow> nat" where
  "rune_count s = (if s = [] then 0 else 1 + rune_count (drop (rune_size s) s))"
  by pat_completeness auto
termination
  by (relation "measure length") (use rune_size_pos in auto)

declare rune_count.simps [simp del]

lemma rune_count_le: "rune_count s \<le> length s"
proof (induction s rule: rune_count.induct)
  case (1 s)
  have "length (drop (rune_size s) s) < length s" if "s \<noteq> []" using that rune_size_pos [of s] by simp
  with 1 show ?case by (auto simp: rune_count.simps [of s])
qed

text \<open>An ASCII string has as many runes as bytes.\<close>

lemma rune_count_ascii: "list_all (\<lambda>c. byte c < 128) s \<Longrightarrow> rune_count s = length s"
proof (induction s)
  case Nil
  then show ?case by (simp add: rune_count.simps)
next
  case (Cons c s)
  then have "rune_size (c # s) = 1" by (simp add: rune_size_def Let_def split: prod.split)
  with Cons show ?case by (simp add: rune_count.simps [of "c # s"])
qed

subsection \<open>Passwords\<close>

datatype auth_error = ErrPasswordTooShort | ErrPasswordTooLong | Bcrypt_failure | Entropy_failure

text \<open>\<open>generate\<close> stands for \<open>bcrypt.GenerateFromPassword\<close>, \<open>compare_hash\<close> for \<open>CompareHashAndPassword\<close>.\<close>

definition hash_password :: "(string \<Rightarrow> nat \<Rightarrow> string option) \<Rightarrow> string \<Rightarrow> auth_error + string" where
  "hash_password generate plain =
     (if rune_count plain < MinPasswordLength then Inl ErrPasswordTooShort
      else if length plain > 72 then Inl ErrPasswordTooLong
      else case generate plain BcryptCost of None \<Rightarrow> Inl Bcrypt_failure | Some h \<Rightarrow> Inr h)"

definition check_password :: "(string \<Rightarrow> string \<Rightarrow> bool) \<Rightarrow> string \<Rightarrow> string \<Rightarrow> bool" where
  "check_password compare_hash hash plain = compare_hash hash plain"

text \<open>\<open>mustDummyHash\<close> runs when the program is loaded; \<open>None\<close> is its panic.\<close>

definition must_dummy_hash :: "string option \<Rightarrow> (string \<Rightarrow> nat \<Rightarrow> string option) \<Rightarrow> string option" where
  "must_dummy_hash entropy generate = (case entropy of None \<Rightarrow> None | Some b \<Rightarrow> generate b BcryptCost)"

subsection \<open>Tokens\<close>

text \<open>\<open>base64.RawURLEncoding\<close>: three bytes become four letters, a rest of one or two bytes
  two or three letters, without padding.\<close>

definition b64_alphabet :: string where
  "b64_alphabet = ''ABCDEFGHIJKLMNOPQRSTUVWXYZabcdefghijklmnopqrstuvwxyz0123456789-_''"

definition b64_letter :: "nat \<Rightarrow> char" where
  "b64_letter n = b64_alphabet ! n"

fun b64url_encode :: "string \<Rightarrow> string" where
  "b64url_encode [] = []"
| "b64url_encode [a] = [b64_letter (byte a div 4), b64_letter (byte a mod 4 * 16)]"
| "b64url_encode [a, b] = [b64_letter (byte a div 4), b64_letter (byte a mod 4 * 16 + byte b div 16),
     b64_letter (byte b mod 16 * 4)]"
| "b64url_encode (a # b # c # s) = b64_letter (byte a div 4) # b64_letter (byte a mod 4 * 16 + byte b div 16) #
     b64_letter (byte b mod 16 * 4 + byte c div 64) # b64_letter (byte c mod 64) # b64url_encode s"

definition hash_token :: "(string \<Rightarrow> string) \<Rightarrow> string \<Rightarrow> string" where
  "hash_token sha256 token = hex_encode (sha256 token)"

text \<open>\<open>entropy\<close> is what \<open>rand.Read\<close> filled into the 32-byte buffer, \<open>None\<close> when it failed.\<close>

definition new_session_token :: "(string \<Rightarrow> string) \<Rightarrow> string option \<Rightarrow> auth_error + (string \<times> string)" where
  "new_session_token sha256 entropy =
     (case entropy of None \<Rightarrow> Inl Entropy_failure
      | Some b \<Rightarrow> let token = b64url_encode b in Inr (token, hash_token sha256 token))"

text \<open>\<open>subtle.ConstantTimeCompare\<close>: lengths first, then the OR of all byte differences.\<close>

definition constant_time_compare :: "string \<Rightarrow> string \<Rightarrow> int" where
  "constant_time_compare x y =
     (if length x \<noteq> length y then 0
      else let v = fold (\<lambda>(a, b) acc. or acc (xor (byte a) (byte b))) (zip x y) (0 :: nat)
        in if v = 0 then 1 else 0)"

definition tokens_equal :: "string \<Rightarrow> string \<Rightarrow> bool" where
  "tokens_equal a b \<longleftrightarrow> constant_time_compare a b = 1"

subsection \<open>Decoding\<close>

text \<open>Inverses of the encodings, to show that they lose nothing.\<close>

definition b64_value :: "char \<Rightarrow> nat" where
  "b64_value c = (if is_upper c then byte c - 65 else if is_lower c then byte c - 71
     else if is_digit c then byte c + 4 else if c = CHR ''-'' then 62 else 63)"

fun b64url_decode :: "string \<Rightarrow> string" where
  "b64url_decode (p # q # r # s # rest) =
     char_of (b64_value p * 4 + b64_value q div 16) # char_of (b64_value q mod 16 * 16 + b64_value r div 4) #
     char_of (b64_value r mod 4 * 64 + b64_value s) # b64url_decode rest"
| "b64url_decode [p, q, r] = [char_of (b64_value p * 4 + b64_value q div 16),
     char_of (b64_value q mod 16 * 16 + b64_value r div 4)]"
| "b64url_decode [p, q] = [char_of (b64_value p * 4 + b64_value q div 16)]"
| "b64url_decode _ = []"

lemma b64_value_letter: "n < 64 \<Longrightarrow> b64_value (b64_letter n) = n"
proof -
  have v: "map b64_value b64_alphabet = [0..<64]"
    unfolding b64_alphabet_def list.map by (simp add: b64_value_def byte_defs upt_rec [of 0] upt_rec [of "Suc 0"] numeral_2_eq_2 [symmetric] upt_rec_numeral)
  have "length b64_alphabet = 64" by (simp add: b64_alphabet_def)
  then show "n < 64 \<Longrightarrow> b64_value (b64_letter n) = n"
    using arg_cong [OF v, of "\<lambda>xs. xs ! n"] by (simp add: b64_letter_def)
qed

lemma char_of_byte [simp]: "char_of (byte c) = c"
  by (simp add: byte_def)

lemma digits_div_mod:
  fixes x y k :: nat
  assumes "y < k"
  shows "(x * k + y) div k = x" "(x * k + y) mod k = y"
  using assms by simp_all

lemma byte_parts: "byte c div 4 < 64" "byte c div 16 < 16" "byte c div 64 < 4"
proof -
  have "n div 4 < 64" "n div 16 < 16" "n div 64 < 4" if "n < 256" for n :: nat using that by simp_all
  then show "byte c div 4 < 64" "byte c div 16 < 16" "byte c div 64 < 4" using byte_less_256 by blast+
qed

lemma b64_sextets:
  fixes a b c :: char
  shows "byte a mod 4 * 16 + byte b div 16 < 64" "byte a mod 4 * 16 < 64"
    "byte b mod 16 * 4 + byte c div 64 < 64" "byte b mod 16 * 4 < 64" "byte c mod 64 < 64"
proof -
  have "byte a mod 4 < 4" "byte b mod 16 < 16" "byte c mod 64 < 64" by simp_all
  with byte_parts(2) [of b] byte_parts(3) [of c]
  show "byte a mod 4 * 16 + byte b div 16 < 64" "byte a mod 4 * 16 < 64"
    "byte b mod 16 * 4 + byte c div 64 < 64" "byte b mod 16 * 4 < 64" "byte c mod 64 < 64" by linarith+
qed

lemma b64url_round_trip: "b64url_decode (b64url_encode s) = s"
  by (induction s rule: b64url_encode.induct)
    (simp_all add: b64_value_letter b64_sextets byte_parts digits_div_mod
      digits_div_mod [where y = 0, simplified])

lemma b64url_inj: "b64url_encode s = b64url_encode s' \<longleftrightarrow> s = s'"
  by (metis b64url_round_trip)

definition hex_value :: "char \<Rightarrow> nat" where
  "hex_value c = (if is_digit c then byte c - 48 else byte c - 87)"

fun hex_decode :: "string \<Rightarrow> string" where
  "hex_decode (a # b # s) = char_of (hex_value a * 16 + hex_value b) # hex_decode s"
| "hex_decode _ = []"

lemma hex_value_digit: "n < 16 \<Longrightarrow> hex_value (hex_digit n) = n"
proof -
  have "list_all (\<lambda>n. hex_value (hex_digit n) = n) [0..<16]" by code_simp
  then show "n < 16 \<Longrightarrow> hex_value (hex_digit n) = n" by (simp add: list_all_iff)
qed

lemma hex_round_trip: "hex_decode (hex_encode s) = s"
proof (induction s)
  case (Cons c s)
  with byte_parts(2) [of c] show ?case by (simp add: hex_encode_def hex_value_digit)
qed (simp add: hex_encode_def)

lemma hex_inj: "hex_encode s = hex_encode s' \<longleftrightarrow> s = s'"
  by (metis hex_round_trip)

subsection \<open>Properties\<close>

lemma xor_zero_iff: "xor a b = 0 \<longleftrightarrow> a = (b :: nat)"
  by (metis xor.left_neutral xor.right_neutral xor.assoc xor_self_eq)

lemma or_fold_zero_iff:
  "fold (\<lambda>(a, b) acc. or acc (xor (byte a) (byte b))) ps v = 0 \<longleftrightarrow>
     v = (0 :: nat) \<and> list_all (\<lambda>(a, b). a = b) ps"
proof (induction ps arbitrary: v)
  case (Cons p ps)
  then show ?case by (cases p) (auto simp: or_eq_0_iff xor_zero_iff byte_eq_iff)
qed simp

text \<open>
  The constant-time comparison decides equality: two tokens are accepted as equal exactly
  when they are the same string.
\<close>

theorem tokens_equal_iff: "tokens_equal a b \<longleftrightarrow> a = b"
proof -
  have "list_all (\<lambda>(x, y). x = y) (zip a b) \<longleftrightarrow> a = b" if "length a = length b"
    using that by (induction a b rule: list_induct2) auto
  then show ?thesis
    by (auto simp: tokens_equal_def constant_time_compare_def or_fold_zero_iff Let_def split: if_splits)
qed

lemma length_b64url: "length (b64url_encode s) = (length s * 4 + 2) div 3"
proof (induction s rule: b64url_encode.induct)
  case (4 a b c s)
  have "(length (a # b # c # s) * 4 + 2) div 3 = 4 + (length s * 4 + 2) div 3" by simp
  with 4 show ?case by simp
qed simp_all

text \<open>
  Session tokens lose none of their entropy: different random bytes give different cookie
  values, both URL-safe, and two tokens share a storage id only if SHA-256 collides on them.
\<close>

theorem session_tokens_faithful:
  "case (new_session_token sha256 (Some b), new_session_token sha256 (Some b')) of
     (Inr (token, sid), Inr (token', sid')) \<Rightarrow>
       (token = token' \<longleftrightarrow> b = b') \<and> (sid = sid' \<longleftrightarrow> sha256 token = sha256 token') \<and>
       b64url_decode token = b \<and> length token = (length b * 4 + 2) div 3
   | _ \<Rightarrow> False"
  by (simp add: new_session_token_def Let_def hash_token_def b64url_inj hex_inj b64url_round_trip length_b64url)

text \<open>
  \<open>HashPassword\<close> accepts exactly passwords of at least 12 characters and at most 72 bytes, so
  bcrypt never sees a byte it would ignore; an accepted password is hashed as given, at
  cost 12, and characters are runes, never more than the bytes.
\<close>

theorem hash_password_limits:
  "rune_count plain \<le> length plain \<and>
   (case hash_password generate plain of
      Inl ErrPasswordTooShort \<Rightarrow> rune_count plain < 12
    | Inl ErrPasswordTooLong \<Rightarrow> 12 \<le> rune_count plain \<and> 72 < length plain
    | Inl Bcrypt_failure \<Rightarrow> generate plain 12 = None \<and> 12 \<le> length plain \<and> length plain \<le> 72
    | Inl Entropy_failure \<Rightarrow> False
    | Inr h \<Rightarrow> 12 \<le> rune_count plain \<and> length plain \<le> 72 \<and> take 72 plain = plain \<and>
        generate (take 72 plain) 12 = Some h)"
  using rune_count_le [of plain]
  by (simp add: hash_password_def MinPasswordLength_def BcryptCost_def split: option.split)

end
