(* ===== verification/NetAddr.thy ===== *)
theory NetAddr
  imports Url
begin

section \<open>Addresses and the dial guard (blockPrivateAddr of internal/checker/checker.go)\<close>

text \<open>
  With \<open>blockPrivate\<close> set, every connection of the checker passes \<open>blockPrivateAddr\<close> with the
  address it is about to dial.  \<open>net.SplitHostPort\<close>, \<open>net.ParseIP\<close> and the classifications of
  \<open>net.IP\<close> follow Go's standard library; an IP is its 16 bytes, IPv4 in the mapped form.
\<close>

subsection \<open>net.SplitHostPort\<close>

definition split_host_port :: "string \<Rightarrow> (string \<times> string) option" where
  "split_host_port hp =
     (case cut_last (CHR '':'') hp of
        None \<Rightarrow> None
      | Some (before_colon, port) \<Rightarrow>
          if has_prefix ''['' hp then
            (if CHR '']'' \<notin> set hp then None
             else let (a, rest) = str_cut (CHR '']'') hp in
               if rest \<noteq> CHR '':'' # port then None
               else if CHR ''['' \<in> set (tl hp) \<or> CHR '']'' \<in> set rest then None
               else Some (tl a, port))
          else if CHR '':'' \<in> set before_colon then None
          else if CHR ''['' \<in> set hp \<or> CHR '']'' \<in> set hp then None
          else Some (before_colon, port))"

subsection \<open>net.ParseIP\<close>

definition dec_value :: "string \<Rightarrow> nat" where
  "dec_value s = foldl (\<lambda>v c. v * 10 + (byte c - 48)) 0 s"

text \<open>One field of a dotted address: digits, no leading zero, at most 255.\<close>

definition parse_octet :: "string \<Rightarrow> nat option" where
  "parse_octet s =
     (if s = [] \<or> \<not> list_all is_digit s \<or> (1 < length s \<and> hd s = CHR ''0'') \<or> 255 < dec_value s
      then None else Some (dec_value s))"

fun sequence_opt :: "'a option list \<Rightarrow> 'a list option" where
  "sequence_opt [] = Some []"
| "sequence_opt (None # xs) = None"
| "sequence_opt (Some x # xs) = map_option (\<lambda>ys. x # ys) (sequence_opt xs)"

definition parse_ipv4_fields :: "string \<Rightarrow> nat list option" where
  "parse_ipv4_fields s =
     (let parts = split_on (CHR ''.'') s in
      if length parts = 4 then sequence_opt (map parse_octet parts) else None)"

definition v4_mapped :: "nat list \<Rightarrow> nat list" where
  "v4_mapped b = replicate 10 0 @ [255, 255] @ b"

definition hex_acc :: "string \<Rightarrow> nat" where
  "hex_acc s = foldl (\<lambda>v c. v * 16 + unhex c) 0 s"

lemma dropWhile_shorter: "dropWhile p s = c # tail \<Longrightarrow> length tail < length s"
  by (metis Suc_le_eq length_Cons length_dropWhile_le)

text \<open>
  The loop of \<open>parseIPv6\<close>: \<open>bs\<close> are the bytes parsed so far, \<open>ell\<close> the position of the ellipsis.
  The rest of the string shrinks with every group.
\<close>

function ipv6_loop :: "nat list \<Rightarrow> nat option \<Rightarrow> string \<Rightarrow> (nat list \<times> nat option) option" where
  "ipv6_loop bs ell s =
     (if 16 \<le> length bs then (if s = [] then Some (bs, ell) else None)
      else
        let digits = takeWhile is_hex s; rest = dropWhile is_hex s in
        if digits = [] \<or> 4 < length digits then None
        else if rest \<noteq> [] \<and> hd rest = CHR ''.'' then
          (if ell = None \<and> length bs \<noteq> 12 then None
           else if 16 < length bs + 4 then None
           else map_option (\<lambda>v4. (bs @ v4, ell)) (parse_ipv4_fields s))
        else
          let bs' = bs @ [hex_acc digits div 256, hex_acc digits mod 256] in
          case rest of
            [] \<Rightarrow> Some (bs', ell)
          | c # tail \<Rightarrow>
              if c \<noteq> CHR '':'' \<or> tail = [] then None
              else if hd tail = CHR '':'' then
                (if ell \<noteq> None then None
                 else if tl tail = [] then Some (bs', Some (length bs'))
                 else ipv6_loop bs' (Some (length bs')) (tl tail))
              else ipv6_loop bs' ell tail)"
  by pat_completeness auto
termination
  by (relation "measure (\<lambda>(bs, ell, s). length s)") (auto dest!: dropWhile_shorter dropWhile_shorter [OF sym])

declare ipv6_loop.simps [simp del]

definition expand_ellipsis :: "nat list \<times> nat option \<Rightarrow> nat list option" where
  "expand_ellipsis r =
     (let (bs, ell) = r in
      if length bs < 16 then
        (case ell of None \<Rightarrow> None | Some e \<Rightarrow> Some (take e bs @ replicate (16 - length bs) 0 @ drop e bs))
      else if ell = None then Some bs else None)"

definition parse_ipv6 :: "string \<Rightarrow> nat list option" where
  "parse_ipv6 s =
     (if CHR ''%'' \<in> set s then None
      else if s = ''::'' then Some (replicate 16 0)
      else if has_prefix ''::'' s then Option.bind (ipv6_loop [] (Some 0) (drop 2 s)) expand_ellipsis
      else Option.bind (ipv6_loop [] None s) expand_ellipsis)"

text \<open>\<open>ParseAddr\<close> decides by the first of \<open>. : %\<close>; an address with a zone is refused by \<open>ParseIP\<close>.\<close>

definition parse_ip :: "string \<Rightarrow> nat list option" where
  "parse_ip s =
     (case filter (\<lambda>c. c \<in> {CHR ''.'', CHR '':'', CHR ''%''}) s of
        [] \<Rightarrow> None
      | c # _ \<Rightarrow> if c = CHR ''.'' then map_option v4_mapped (parse_ipv4_fields s)
                else if c = CHR '':'' then parse_ipv6 s else None)"

subsection \<open>Classification\<close>

definition to4 :: "nat list \<Rightarrow> nat list option" where
  "to4 ip = (if length ip = 16 \<and> take 12 ip = replicate 10 0 @ [255, 255] then Some (drop 12 ip) else None)"

definition is_loopback :: "nat list \<Rightarrow> bool" where
  "is_loopback ip = (case to4 ip of Some b \<Rightarrow> b ! 0 = 127 | None \<Rightarrow> ip = replicate 15 0 @ [1])"

definition is_private :: "nat list \<Rightarrow> bool" where
  "is_private ip = (case to4 ip of
     Some b \<Rightarrow> b ! 0 = 10 \<or> (b ! 0 = 172 \<and> b ! 1 div 16 = 1) \<or> (b ! 0 = 192 \<and> b ! 1 = 168)
   | None \<Rightarrow> length ip = 16 \<and> ip ! 0 div 2 = 126)"

definition is_link_local_unicast :: "nat list \<Rightarrow> bool" where
  "is_link_local_unicast ip = (case to4 ip of
     Some b \<Rightarrow> b ! 0 = 169 \<and> b ! 1 = 254
   | None \<Rightarrow> length ip = 16 \<and> ip ! 0 = 254 \<and> ip ! 1 div 64 = 2)"

definition is_link_local_multicast :: "nat list \<Rightarrow> bool" where
  "is_link_local_multicast ip = (case to4 ip of
     Some b \<Rightarrow> b ! 0 = 224 \<and> b ! 1 = 0 \<and> b ! 2 = 0
   | None \<Rightarrow> length ip = 16 \<and> ip ! 0 = 255 \<and> ip ! 1 mod 16 = 2)"

definition is_unspecified :: "nat list \<Rightarrow> bool" where
  "is_unspecified ip \<longleftrightarrow> ip = v4_mapped [0, 0, 0, 0] \<or> ip = replicate 16 0"

definition non_public :: "nat list \<Rightarrow> bool" where
  "non_public ip \<longleftrightarrow> is_loopback ip \<or> is_private ip \<or> is_link_local_unicast ip \<or>
     is_link_local_multicast ip \<or> is_unspecified ip"

datatype dial_error = Bad_address | Not_an_ip | Blocked

text \<open>\<open>blockPrivateAddr\<close>: \<open>None\<close> lets the connection go ahead.\<close>

definition block_private_addr :: "string \<Rightarrow> dial_error option" where
  "block_private_addr address =
     (case split_host_port address of
        None \<Rightarrow> Some Bad_address
      | Some (host, _) \<Rightarrow>
          (case parse_ip host of
             None \<Rightarrow> Some Not_an_ip
           | Some ip \<Rightarrow> if non_public ip then Some Blocked else None))"

subsection \<open>What the guard lets through\<close>

lemma dec_value_snoc: "dec_value (s @ [c]) = dec_value s * 10 + (byte c - 48)"
  by (simp add: dec_value_def)

lemma dec_value_show: "dec_value (show_nat n) = n"
proof (induction n rule: show_nat.induct)
  case (1 n)
  show ?case
  proof (cases "n < 10")
    case True
    then show ?thesis by (simp add: dec_value_def byte_digit)
  next
    case False
    with 1 have "dec_value (show_nat (n div 10)) = n div 10" by simp
    with False show ?thesis by (simp add: dec_value_snoc byte_digit)
  qed
qed

lemma show_nat_hd_zero: "1 < length (show_nat n) \<Longrightarrow> hd (show_nat n) \<noteq> CHR ''0''"
proof (induction n rule: show_nat.induct)
  case (1 n)
  show ?case
  proof (cases "n < 10")
    case True
    with 1 show ?thesis by simp
  next
    case False
    show ?thesis
    proof (cases "n div 10 < 10")
      case True
      have "byte (digit (n div 10)) \<noteq> byte (CHR ''0'')"
        using False True by (subst byte_digit) (auto simp: byte_def)
      with False True show ?thesis by auto
    next
      case large: False
      then have "1 < length (show_nat (n div 10))" by simp
      with 1 False have "hd (show_nat (n div 10)) \<noteq> CHR ''0''" by simp
      with False show ?thesis by simp
    qed
  qed
qed

lemma parse_octet_show: "n < 256 \<Longrightarrow> parse_octet (show_nat n) = Some n"
  using show_nat_hd_zero [of n] show_nat_digits by (auto simp: parse_octet_def dec_value_show list_all_iff)

text \<open>The text of an IPv4 address.\<close>

definition show_ipv4 :: "nat \<Rightarrow> nat \<Rightarrow> nat \<Rightarrow> nat \<Rightarrow> string" where
  "show_ipv4 a b c d = join ''.'' (map show_nat [a, b, c, d])"

lemma show_nat_no_char: "\<not> is_digit x \<Longrightarrow> x \<notin> set (show_nat n)"
  using show_nat_digits by blast



lemma dot_not_digit [simp]: "\<not> is_digit CHR ''.''" "\<not> is_digit CHR '':''" "\<not> is_digit CHR ''%''"
    "\<not> is_digit CHR ''[''" "\<not> is_digit CHR '']''"
  by (simp_all add: byte_defs)

lemma parse_ipv4_show:
  assumes "a < 256" "b < 256" "c < 256" "d < 256"
  shows "parse_ipv4_fields (show_ipv4 a b c d) = Some [a, b, c, d]"
proof -
  have "split_on (CHR ''.'') (show_ipv4 a b c d) = map show_nat [a, b, c, d]"
    by (simp add: show_ipv4_def split_on_append split_on_none show_nat_no_char)
  with assms show ?thesis by (simp add: parse_ipv4_fields_def parse_octet_show)
qed

lemma parse_ip_show_ipv4:
  assumes "a < 256" "b < 256" "c < 256" "d < 256"
  shows "parse_ip (show_ipv4 a b c d) = Some (v4_mapped [a, b, c, d])"
proof -
  have none: "filter (\<lambda>x. x \<in> {CHR ''.'', CHR '':'', CHR ''%''}) (show_nat n) = []" for n
    using show_nat_no_char [of _ n] by (auto simp: filter_empty_conv)
  have "filter (\<lambda>x. x \<in> {CHR ''.'', CHR '':'', CHR ''%''}) (show_ipv4 a b c d) = ''...''"
    unfolding show_ipv4_def by (simp only: list.map join.simps filter_append none) simp
  then show ?thesis unfolding parse_ip_def by (simp add: parse_ipv4_show [OF assms])
qed

lemma cut_last_append: "d \<notin> set b \<Longrightarrow> cut_last d (a @ d # b) = Some (a, b)"
proof -
  assume d: "d \<notin> set b"
  then have "takeWhile (\<lambda>c. c \<noteq> d) (rev b @ d # rev a) = rev b"
    "dropWhile (\<lambda>c. c \<noteq> d) (rev b @ d # rev a) = d # rev a"
    by (auto simp: takeWhile_append dropWhile_append)
  then show ?thesis by (simp add: cut_last_def)
qed

lemma split_host_port_plain:
  assumes "CHR '':'' \<notin> set h" "CHR ''['' \<notin> set h" "CHR '']'' \<notin> set h" "list_all is_digit p" "h \<noteq> []"
  shows "split_host_port (h @ CHR '':'' # p) = Some (h, p)"
proof -
  have p: "CHR '':'' \<notin> set p" "CHR ''['' \<notin> set p" "CHR '']'' \<notin> set p"
    using assms(4) by (auto simp: list_all_iff)
  obtain x xs where h: "h = x # xs" using assms(5) by (cases h) auto
  with assms(2) have "\<not> has_prefix ''['' (h @ CHR '':'' # p)" by (auto simp: has_prefix_def)
  with assms p show ?thesis by (simp add: split_host_port_def cut_last_append)
qed

lemma to4_mapped: "to4 (v4_mapped [a, b, c, d]) = Some [a, b, c, d]"
  by (simp add: to4_def v4_mapped_def)

lemma mapped_not_zero: "v4_mapped bs \<noteq> replicate 16 0"
proof
  assume "v4_mapped bs = replicate 16 0"
  then have "v4_mapped bs ! 10 = replicate 16 0 ! 10" by simp
  then show False by (simp add: v4_mapped_def nth_append)
qed

lemma mapped_inj: "v4_mapped bs = v4_mapped bs' \<longleftrightarrow> bs = bs'"
  by (simp add: v4_mapped_def)

text \<open>
  Dialling an IPv4 address, on any port, is refused exactly for loopback (127/8), the private
  ranges (10/8, 172.16/12, 192.168/16), link-local (169.254/16, which holds the cloud
  metadata service), local multicast (224.0.0/24) and the unspecified address.
\<close>

definition private_ipv4 :: "nat \<Rightarrow> nat \<Rightarrow> nat \<Rightarrow> nat \<Rightarrow> bool" where
  "private_ipv4 a b c d \<longleftrightarrow> a = 127 \<or> a = 10 \<or> (a = 172 \<and> 16 \<le> b \<and> b \<le> 31) \<or> (a = 192 \<and> b = 168) \<or>
     (a = 169 \<and> b = 254) \<or> (a = 224 \<and> b = 0 \<and> c = 0) \<or> (a = 0 \<and> b = 0 \<and> c = 0 \<and> d = 0)"

lemma ipv4_dial_guard:
  assumes "a < 256" "b < 256" "c < 256" "d < 256"
  shows "block_private_addr (show_ipv4 a b c d @ '':'' @ show_nat port) =
    (if private_ipv4 a b c d then Some Blocked else None)"
proof -
  have digits: "list_all is_digit (show_nat port)" using show_nat_digits by (auto simp: list_all_iff)
  have "x \<notin> set (show_ipv4 a b c d)" if "\<not> is_digit x" "x \<noteq> CHR ''.''" for x
    using that show_nat_no_char by (auto simp: show_ipv4_def)
  then have "split_host_port (show_ipv4 a b c d @ CHR '':'' # show_nat port) = Some (show_ipv4 a b c d, show_nat port)"
    using digits by (intro split_host_port_plain) (auto simp: show_ipv4_def)
  moreover have "b div 16 = 1 \<longleftrightarrow> 16 \<le> b \<and> b \<le> 31" by auto
  moreover have "non_public (v4_mapped [a, b, c, d]) \<longleftrightarrow> a = 127 \<or> a = 10 \<or> (a = 172 \<and> b div 16 = 1) \<or>
      (a = 192 \<and> b = 168) \<or> (a = 169 \<and> b = 254) \<or> (a = 224 \<and> b = 0 \<and> c = 0) \<or>
      (a = 0 \<and> b = 0 \<and> c = 0 \<and> d = 0)"
    by (simp add: non_public_def is_loopback_def is_private_def is_link_local_unicast_def
        is_link_local_multicast_def is_unspecified_def to4_mapped mapped_not_zero mapped_inj)
  ultimately show ?thesis by (simp add: private_ipv4_def block_private_addr_def parse_ip_show_ipv4 [OF assms])
qed

text \<open>
  The guard fails closed: an address it lets through is the text of an IP, split from its
  port, that is none of loopback, private, link-local or unspecified; anything it cannot parse is
  refused.
\<close>

theorem dial_guard_fails_closed:
  "if block_private_addr address = None
   then (case split_host_port address of None \<Rightarrow> False
         | Some (host, _) \<Rightarrow> (case parse_ip host of None \<Rightarrow> False | Some ip \<Rightarrow>
             \<not> is_loopback ip \<and> \<not> is_private ip \<and> \<not> is_link_local_unicast ip \<and>
             \<not> is_link_local_multicast ip \<and> \<not> is_unspecified ip))
   else True"
  by (auto simp: block_private_addr_def non_public_def split: option.splits if_splits)

end
