(* ===== verification/Checker.thy ===== *)
theory Checker
  imports Config SiteStore
begin

section \<open>Running the checks (internal/checker/checker.go)\<close>

text \<open>
  \<open>RunTick\<close> turns one HTTP request, and on the slow cadence a DNS lookup and the certificate,
  into a \<open>Tick\<close>.  The network is an argument: what a lookup and a request give, how long the
  request took, and the clock.  A request whose context was cancelled fails like any
  other.  The body limit, the order of the checks and their messages are the code's.
\<close>

definition maxBodyBytes :: nat where "maxBodyBytes = 1048576"

record http_request =
  rq_URL :: url
  rq_UserAgent :: string
  rq_BasicAuth :: "(string \<times> string) option"

text \<open>The certificate, if any, by the end of its validity.\<close>

record http_response =
  hr_Status :: int
  hr_Body :: string
  hr_NotAfter :: "unix option"

datatype http_outcome = Request_failed string | Responded http_response

record network =
  nw_Now :: unix
  nw_NowNs :: int
  nw_Lookup :: "string \<Rightarrow> string option"
  nw_Do :: "http_request \<Rightarrow> http_outcome \<times> int"
  nw_ParseError :: string

subsection \<open>Evaluating a response\<close>

definition status_acceptable :: "int \<Rightarrow> int list \<Rightarrow> bool" where
  "status_acceptable code expect =
     (if expect = [] then code \<ge> 200 \<and> code < 400 else list_ex (\<lambda>e. code = e) expect)"

text \<open>\<open>%q\<close>: a Go string literal, for ASCII; bytes from 128 on are left as they are.\<close>

definition quote_char :: "char \<Rightarrow> string" where
  "quote_char c = (let n = byte c in
     if n = 34 then [CHR 0x5C, c] else if n = 92 then [c, c]
     else if n = 7 then [CHR 0x5C, CHR ''a''] else if n = 8 then [CHR 0x5C, CHR ''b'']
     else if n = 12 then [CHR 0x5C, CHR ''f''] else if n = 10 then [CHR 0x5C, CHR ''n'']
     else if n = 13 then [CHR 0x5C, CHR ''r''] else if n = 9 then [CHR 0x5C, CHR ''t'']
     else if n = 11 then [CHR 0x5C, CHR ''v'']
     else if n < 32 \<or> n = 127 then [CHR 0x5C, CHR ''x'', hex_digit (n div 16), hex_digit (n mod 16)]
     else [c])"

definition go_quote :: "string \<Rightarrow> string" where
  "go_quote s = [CHR 0x22] @ concat (map quote_char s) @ [CHR 0x22]"

definition eval_content :: "string \<Rightarrow> content_check \<Rightarrow> string" where
  "eval_content body c =
     (case filter (\<lambda>want. want \<noteq> [] \<and> \<not> contains want body) (cc_MustContain c) of
        want # _ \<Rightarrow> ''body missing expected text '' @ go_quote want
      | [] \<Rightarrow>
          (case filter (\<lambda>bad. bad \<noteq> [] \<and> contains bad body) (cc_MustNotContain c) of
             bad # _ \<Rightarrow> ''body contained forbidden text '' @ go_quote bad
           | [] \<Rightarrow> []))"

text \<open>A warning goes to the errors only; \<open>warn_offset\<close> is the product in \<open>time.Duration\<close>, wrap-around included.\<close>

definition add_warning :: "string \<Rightarrow> string \<Rightarrow> tick \<Rightarrow> tick" where
  "add_warning checkType msg t = t\<lparr>tk_Errors := tk_Errors t @ [\<lparr>ce_CheckType = checkType, ce_Message = msg\<rparr>]\<rparr>"

definition warn_offset :: "int \<Rightarrow> int64" where
  "warn_offset warnDays = - word_of_int warnDays * 24 * 3600000000000"

definition eval_ssl :: "int \<Rightarrow> tick \<Rightarrow> unix option \<Rightarrow> ssl_check \<Rightarrow> tick" where
  "eval_ssl now_ns t cs c =
     (case cs of
        None \<Rightarrow> add_warning ''ssl'' ''no TLS certificate presented'' t
      | Some notAfter \<Rightarrow>
          let t = t\<lparr>tk_SSLExpiresAt := notAfter\<rparr> in
          if now_ns > notAfter * 1000000000
          then add_fail ''ssl'' ''certificate expired'' (t\<lparr>tk_Up := False\<rparr>)
          else if sl_WarnDays c > 0 \<and> now_ns > notAfter * 1000000000 + sint (warn_offset (sl_WarnDays c))
          then add_warning ''ssl'' (''certificate expires in '' @ show_int (days_left now_ns notAfter) @ '' days'') t
          else t)"

subsection \<open>One tick\<close>

definition fail :: "string \<Rightarrow> string \<Rightarrow> tick \<Rightarrow> tick" where
  "fail checkType msg t = add_fail checkType msg (t\<lparr>tk_Up := False\<rparr>)"

definition new_tick :: "network \<Rightarrow> site_config \<Rightarrow> bool \<Rightarrow> tick" where
  "new_tick nw site runSlow = \<lparr>tk_TS = nw_Now nw, tk_Up = True, tk_StatusCode = 0, tk_ResponseMs = 0,
     tk_FailedChecks = [], tk_Error = [], tk_Errors = [],
     tk_SSLChecked = (runSlow \<and> sl_Enabled (ck_SSL (sc_Checks site))), tk_SSLExpiresAt = 0\<rparr>"

definition check_dns :: "network \<Rightarrow> site_config \<Rightarrow> bool \<Rightarrow> tick \<Rightarrow> tick" where
  "check_dns nw site runSlow t =
     (if runSlow \<and> ck_DNS (sc_Checks site) \<and> site_host site \<noteq> [] then
        (case nw_Lookup nw (site_host site) of
           None \<Rightarrow> t | Some err \<Rightarrow> fail ''dns'' (''dns resolution failed: '' @ err) t)
      else t)"

text \<open>\<open>NewRequestWithContext\<close> and the lines that move credentials into a header.\<close>

definition make_request :: "site_config \<Rightarrow> http_request option" where
  "make_request site = map_option (\<lambda>u.
     \<lparr>rq_URL = u\<lparr>u_User := None\<rparr>, rq_UserAgent = ''uptime-monitor/1.0'', rq_BasicAuth = u_User u\<rparr>)
     (url_parse (sc_URL site))"

definition check_status :: "http_response \<Rightarrow> site_config \<Rightarrow> tick \<Rightarrow> tick" where
  "check_status resp site t =
     (if hc_Enabled (ck_HTTP (sc_Checks site)) \<and>
         \<not> status_acceptable (hr_Status resp) (hc_ExpectStatus (ck_HTTP (sc_Checks site)))
      then fail ''http'' (''unexpected status '' @ show_int (hr_Status resp)) t else t)"

definition check_latency :: "int \<Rightarrow> site_config \<Rightarrow> tick \<Rightarrow> tick" where
  "check_latency elapsed site t =
     (let lc = ck_Latency (sc_Checks site) in
      if lc_Enabled lc \<and> lc_MaxMs lc > 0 \<and> elapsed > lc_MaxMs lc
      then fail ''latency'' (''response '' @ show_int elapsed @ ''ms exceeded '' @ show_int (lc_MaxMs lc) @ ''ms'') t
      else t)"

definition check_content :: "string \<Rightarrow> site_config \<Rightarrow> tick \<Rightarrow> tick" where
  "check_content body site t =
     (if cc_Enabled (ck_Content (sc_Checks site)) then
        (let msg = eval_content body (ck_Content (sc_Checks site))
         in if msg \<noteq> [] then fail ''content'' msg t else t)
      else t)"

definition run_tick :: "network \<Rightarrow> site_config \<Rightarrow> bool \<Rightarrow> tick" where
  "run_tick nw site runSlow =
     (let t = check_dns nw site runSlow (new_tick nw site runSlow) in
      case make_request site of
        None \<Rightarrow> fail ''http'' (''bad request: '' @ nw_ParseError nw) t
      | Some req \<Rightarrow>
          let (outcome, elapsed) = nw_Do nw req; t = t\<lparr>tk_ResponseMs := elapsed\<rparr> in
          case outcome of
            Request_failed err \<Rightarrow> fail ''http'' (''request failed: '' @ err) t
          | Responded resp \<Rightarrow>
              let body = take maxBodyBytes (hr_Body resp);
                  t = t\<lparr>tk_StatusCode := hr_Status resp\<rparr>;
                  t = check_status resp site t;
                  t = check_latency elapsed site t;
                  t = check_content body site t
              in if runSlow \<and> sl_Enabled (ck_SSL (sc_Checks site))
                 then eval_ssl (nw_NowNs nw) t (hr_NotAfter resp) (ck_SSL (sc_Checks site)) else t)"

subsection \<open>The verdict of a tick\<close>

text \<open>
  What a tick should say, check by check: a flat list of the failures with their messages, and
  one of the warnings.
\<close>

definition when_list :: "bool \<Rightarrow> 'a \<Rightarrow> 'a list" where
  "when_list b x = (if b then [x] else [])"

definition dns_failures :: "network \<Rightarrow> site_config \<Rightarrow> bool \<Rightarrow> (string \<times> string) list" where
  "dns_failures nw site runSlow =
     (if runSlow \<and> ck_DNS (sc_Checks site) \<and> site_host site \<noteq> []
      then (case nw_Lookup nw (site_host site) of None \<Rightarrow> [] | Some e \<Rightarrow> [(''dns'', ''dns resolution failed: '' @ e)])
      else [])"

definition expired :: "int \<Rightarrow> unix option \<Rightarrow> bool" where
  "expired now_ns cert = (case cert of None \<Rightarrow> False | Some na \<Rightarrow> na * 1000000000 < now_ns)"

definition response_failures :: "network \<Rightarrow> site_config \<Rightarrow> bool \<Rightarrow> http_response \<Rightarrow> int \<Rightarrow> (string \<times> string) list" where
  "response_failures nw site runSlow resp elapsed =
     (let ck = sc_Checks site; content = eval_content (take maxBodyBytes (hr_Body resp)) (ck_Content ck) in
      when_list (hc_Enabled (ck_HTTP ck) \<and> \<not> status_acceptable (hr_Status resp) (hc_ExpectStatus (ck_HTTP ck)))
        (''http'', ''unexpected status '' @ show_int (hr_Status resp))
      @ when_list (lc_Enabled (ck_Latency ck) \<and> 0 < lc_MaxMs (ck_Latency ck) \<and> lc_MaxMs (ck_Latency ck) < elapsed)
        (''latency'', ''response '' @ show_int elapsed @ ''ms exceeded '' @ show_int (lc_MaxMs (ck_Latency ck)) @ ''ms'')
      @ when_list (cc_Enabled (ck_Content ck) \<and> content \<noteq> []) (''content'', content)
      @ when_list (runSlow \<and> sl_Enabled (ck_SSL ck) \<and> expired (nw_NowNs nw) (hr_NotAfter resp))
        (''ssl'', ''certificate expired''))"

definition tick_failures :: "network \<Rightarrow> site_config \<Rightarrow> bool \<Rightarrow> (string \<times> string) list" where
  "tick_failures nw site runSlow = dns_failures nw site runSlow @
     (case make_request site of
        None \<Rightarrow> [(''http'', ''bad request: '' @ nw_ParseError nw)]
      | Some req \<Rightarrow>
          (case nw_Do nw req of
             (Request_failed e, _) \<Rightarrow> [(''http'', ''request failed: '' @ e)]
           | (Responded resp, elapsed) \<Rightarrow> response_failures nw site runSlow resp elapsed))"

definition tick_warnings :: "network \<Rightarrow> site_config \<Rightarrow> bool \<Rightarrow> (string \<times> string) list" where
  "tick_warnings nw site runSlow =
     (case make_request site of
        None \<Rightarrow> []
      | Some req \<Rightarrow>
          (case fst (nw_Do nw req) of
             Request_failed _ \<Rightarrow> []
           | Responded resp \<Rightarrow>
               let ssl = ck_SSL (sc_Checks site) in
               if \<not> (runSlow \<and> sl_Enabled ssl) then []
               else case hr_NotAfter resp of
                 None \<Rightarrow> [(''ssl'', ''no TLS certificate presented'')]
               | Some na \<Rightarrow> when_list (nw_NowNs nw \<le> na * 1000000000 \<and> 0 < sl_WarnDays ssl \<and>
                     na * 1000000000 + sint (warn_offset (sl_WarnDays ssl)) < nw_NowNs nw)
                   (''ssl'', ''certificate expires in '' @ show_int (days_left (nw_NowNs nw) na) @ '' days'')))"

text \<open>A tick that records a list of failures and then warnings, in order.\<close>

definition records :: "tick \<Rightarrow> (string \<times> string) list \<Rightarrow> (string \<times> string) list \<Rightarrow> bool" where
  "records t fs ws \<longleftrightarrow> tk_FailedChecks t = map fst fs \<and> tk_Up t = (fs = []) \<and>
     tk_Error t = (case fs of [] \<Rightarrow> [] | f # _ \<Rightarrow> snd f) \<and>
     tk_Errors t = map (\<lambda>(c, m). \<lparr>ce_CheckType = c, ce_Message = m\<rparr>) (fs @ ws)"

definition told :: "(string \<times> string) list \<Rightarrow> bool" where
  "told fs \<longleftrightarrow> list_all (\<lambda>(c, m). m \<noteq> []) fs"

lemma told_simps [simp]: "told []" "told (fs @ gs) \<longleftrightarrow> told fs \<and> told gs" "told (f # fs) \<longleftrightarrow> snd f \<noteq> [] \<and> told fs"
  "told (when_list b f) \<longleftrightarrow> (if b then snd f \<noteq> [] else True)"
  by (auto simp: told_def when_list_def case_prod_beta)

lemma records_fail: "records t fs [] \<Longrightarrow> told fs \<Longrightarrow> records (fail c m t) (fs @ [(c, m)]) []"
  by (cases fs) (auto simp: records_def fail_def add_fail_def Let_def)

lemma records_when:
  "records t fs [] \<Longrightarrow> told fs \<Longrightarrow> records (if b then fail c m t else t) (fs @ when_list b (c, m)) []"
  by (simp add: when_list_def records_fail)

lemma records_cong:
  "tk_FailedChecks t' = tk_FailedChecks t \<Longrightarrow> tk_Up t' = tk_Up t \<Longrightarrow> tk_Error t' = tk_Error t \<Longrightarrow>
   tk_Errors t' = tk_Errors t \<Longrightarrow> records t fs ws \<Longrightarrow> records t' fs ws"
  by (simp add: records_def)

lemma records_warning: "records t fs [] \<Longrightarrow> records (add_warning c m t) fs [(c, m)]"
  by (simp add: records_def add_warning_def)

lemma records_dns: "records (check_dns nw site runSlow (new_tick nw site runSlow)) (dns_failures nw site runSlow) []"
proof -
  have "records (new_tick nw site runSlow) [] []" by (simp add: records_def new_tick_def)
  from records_fail [OF this] this show ?thesis
    by (auto simp: check_dns_def dns_failures_def split: option.split)
qed

lemma dns_told: "told (dns_failures nw site runSlow)"
  by (auto simp: dns_failures_def split: option.split)

lemma records_ssl:
  assumes "records t fs []" "told fs"
  shows "records (eval_ssl now_ns t cert c) (fs @ when_list (expired now_ns cert) (''ssl'', ''certificate expired''))
    (case cert of None \<Rightarrow> [(''ssl'', ''no TLS certificate presented'')]
     | Some na \<Rightarrow> when_list (now_ns \<le> na * 1000000000 \<and> 0 < sl_WarnDays c \<and>
           na * 1000000000 + sint (warn_offset (sl_WarnDays c)) < now_ns)
         (''ssl'', ''certificate expires in '' @ show_int (days_left now_ns na) @ '' days''))"
proof (cases cert)
  case None
  with records_warning [OF assms(1)] show ?thesis by (simp add: eval_ssl_def expired_def when_list_def)
next
  case (Some na)
  let ?t = "t\<lparr>tk_SSLExpiresAt := na\<rparr>"
  have t: "records ?t fs []" by (rule records_cong [OF _ _ _ _ assms(1)]) simp_all
  have f: "add_fail ''ssl'' ''certificate expired'' (?t\<lparr>tk_Up := False\<rparr>) = fail ''ssl'' ''certificate expired'' ?t"
    by (simp only: fail_def)
  show ?thesis
    using Some t records_fail [OF t assms(2), of "''ssl''" "''certificate expired''"] records_warning [OF t]
    unfolding eval_ssl_def expired_def when_list_def Let_def by (simp add: f not_less)
qed

lemma records_response:
  assumes "records t fs []" "told fs"
  shows "records (check_content body site (check_latency elapsed site (check_status resp site t)))
    (fs @ when_list (hc_Enabled (ck_HTTP (sc_Checks site)) \<and>
          \<not> status_acceptable (hr_Status resp) (hc_ExpectStatus (ck_HTTP (sc_Checks site))))
        (''http'', ''unexpected status '' @ show_int (hr_Status resp))
      @ when_list (lc_Enabled (ck_Latency (sc_Checks site)) \<and> 0 < lc_MaxMs (ck_Latency (sc_Checks site)) \<and>
          lc_MaxMs (ck_Latency (sc_Checks site)) < elapsed)
        (''latency'', ''response '' @ show_int elapsed @ ''ms exceeded '' @
           show_int (lc_MaxMs (ck_Latency (sc_Checks site))) @ ''ms'')
      @ when_list (cc_Enabled (ck_Content (sc_Checks site)) \<and> eval_content body (ck_Content (sc_Checks site)) \<noteq> [])
        (''content'', eval_content body (ck_Content (sc_Checks site)))) []"
proof -
  have content: "check_content body site t =
      (if cc_Enabled (ck_Content (sc_Checks site)) \<and> eval_content body (ck_Content (sc_Checks site)) \<noteq> []
       then fail ''content'' (eval_content body (ck_Content (sc_Checks site))) t else t)" for t
    by (simp add: check_content_def Let_def)
  show ?thesis
    unfolding content check_latency_def check_status_def Let_def append_assoc [symmetric]
    by (intro records_when assms) (simp_all add: assms)
qed

lemma run_tick_records:
  "records (run_tick nw site runSlow) (tick_failures nw site runSlow) (tick_warnings nw site runSlow)"
proof -
  let ?t0 = "check_dns nw site runSlow (new_tick nw site runSlow)" and ?f0 = "dns_failures nw site runSlow"
  note d = records_dns [of nw site runSlow] dns_told [of nw site runSlow]
  show ?thesis
  proof (cases "make_request site")
    case None
    with records_fail [OF d] show ?thesis by (simp add: run_tick_def tick_failures_def tick_warnings_def Let_def)
  next
    case (Some req)
    obtain outcome elapsed where o1: "nw_Do nw req = (outcome, elapsed)" by fastforce
    have t1: "records (?t0\<lparr>tk_ResponseMs := elapsed\<rparr>) ?f0 []"
      by (rule records_cong [OF _ _ _ _ d(1)]) simp_all
    show ?thesis
    proof (cases outcome)
      case (Request_failed err)
      with Some o1 records_fail [OF t1 d(2)] show ?thesis
        by (simp add: run_tick_def tick_failures_def tick_warnings_def Let_def)
    next
      case (Responded resp)
      have t2: "records (?t0\<lparr>tk_ResponseMs := elapsed, tk_StatusCode := hr_Status resp\<rparr>) ?f0 []"
        by (rule records_cong [OF _ _ _ _ d(1)]) simp_all
      note t3 = records_response [OF t2 d(2), of "take maxBodyBytes (hr_Body resp)" site elapsed resp]
      show ?thesis
      proof (cases "runSlow \<and> sl_Enabled (ck_SSL (sc_Checks site))")
        case False
        then consider "\<not> runSlow" | "\<not> sl_Enabled (ck_SSL (sc_Checks site))" by blast
        then show ?thesis
          by cases (use t3 Some o1 Responded in
            \<open>simp_all add: run_tick_def tick_failures_def tick_warnings_def response_failures_def Let_def when_list_def\<close>)
      next
        case True
        from records_ssl [OF t3, of "nw_NowNs nw" "hr_NotAfter resp" "ck_SSL (sc_Checks site)"] d(2)
        show ?thesis using Some o1 Responded True
          by (simp add: run_tick_def tick_failures_def tick_warnings_def response_failures_def Let_def)
      qed
    qed
  qed
qed

lemma run_tick_up: "tk_Up (run_tick nw site runSlow) \<longleftrightarrow> tick_failures nw site runSlow = []"
  using run_tick_records by (simp add: records_def)

text \<open>
  C21: a tick reports exactly the checks that failed.  Whatever the network does, the site is up
  just when no due check failed; the failed checks, their messages and the errors logged
  are those of the configured checks in the order dns, http, latency, content, ssl; the error of
  the tick is the first of them; certificate warnings are logged without failing the tick.
\<close>

theorem run_tick_verdict:
  "let t = run_tick nw site runSlow; fs = tick_failures nw site runSlow; ws = tick_warnings nw site runSlow in
   tk_Up t = (fs = []) \<and> tk_FailedChecks t = map fst fs \<and>
   tk_Error t = (case fs of [] \<Rightarrow> [] | f # _ \<Rightarrow> snd f) \<and>
   tk_Errors t = map (\<lambda>(c, m). \<lparr>ce_CheckType = c, ce_Message = m\<rparr>) (fs @ ws)"
  using run_tick_records [of nw site runSlow] by (simp add: records_def Let_def)

subsection \<open>Certificates and credentials\<close>

lemma warn_offset_exact:
  assumes "0 \<le> w" "w \<le> 106751"
  shows "sint (warn_offset w) = - (w * 86400000000000)"
proof -
  have "warn_offset w = word_of_int (- (w * 86400000000000))" by (simp add: warn_offset_def)
  moreover have "sint (word_of_int (- (w * 86400000000000)) :: int64) = - (w * 86400000000000)"
    using assms by (simp only: sint_sbintrunc') (simp add: signed_take_bit_int_eq_self)
  ultimately show ?thesis by (simp only:)
qed

text \<open>
  For warning thresholds up to 106751 days (292 years) the certificate warning is right: a
  tick that sees a certificate is marked failed once it has expired, logs a warning exactly
  within the last \<open>warn_days\<close> days before, and otherwise leaves the tick as it was; the expiry is
  recorded in every case.
\<close>

theorem certificate_window:
  assumes "0 < sl_WarnDays c" "sl_WarnDays c \<le> 106751"
  shows "let t' = eval_ssl now_ns t (Some expiry) c; left = expiry * 1000000000 - now_ns in
    tk_SSLExpiresAt t' = expiry \<and>
    (if left < 0 then tk_Up t' = False \<and> tk_FailedChecks t' = tk_FailedChecks t @ [''ssl'']
     else tk_Up t' = tk_Up t \<and> tk_FailedChecks t' = tk_FailedChecks t \<and>
       (if left < sl_WarnDays c * 86400000000000
        then tk_Errors t' = tk_Errors t @ [\<lparr>ce_CheckType = ''ssl'', ce_Message =
               ''certificate expires in '' @ show_int (days_left now_ns expiry) @ '' days''\<rparr>]
        else tk_Errors t' = tk_Errors t))"
proof -
  have w: "sint (warn_offset (sl_WarnDays c)) = - (sl_WarnDays c * 86400000000000)"
    using assms by (intro warn_offset_exact) auto
  show ?thesis
    using assms(1) by (simp add: eval_ssl_def Let_def w add_warning_def add_fail_def)
qed

theorem certificate_window_witness:
  "tk_Errors (eval_ssl 1000000000 \<lparr>tk_TS = 1, tk_Up = True, tk_StatusCode = 200, tk_ResponseMs = 5, tk_FailedChecks = [],
       tk_Error = [], tk_Errors = [], tk_SSLChecked = True, tk_SSLExpiresAt = 0\<rparr> (Some 86401)
     \<lparr>sl_Enabled = True, sl_WarnDays = 14\<rparr>) =
   [\<lparr>ce_CheckType = ''ssl'', ce_Message = ''certificate expires in 1 days''\<rparr>]"
proof -
  have d: "days_left 1000000000 86401 = 1" by (simp add: days_left_def sat64_def quot_trunc_def)
  show ?thesis
    using certificate_window [of "\<lparr>sl_Enabled = True, sl_WarnDays = 14\<rparr>" 1000000000
        "\<lparr>tk_TS = 1, tk_Up = True, tk_StatusCode = 200, tk_ResponseMs = 5, tk_FailedChecks = [],
       tk_Error = [], tk_Errors = [], tk_SSLChecked = True, tk_SSLExpiresAt = 0\<rparr>" 86401]
    by (simp add: Let_def d show_int_def digit_def)
qed

text \<open>
  One day more and the product wraps to a positive duration: the warning threshold then lies after
  the expiry and a certificate is never warned about.  \<open>Validate\<close> puts no upper bound on
  \<open>warn_days\<close>.
\<close>

lemma certificate_warning_lost:
  "sl_WarnDays c = 106752 \<Longrightarrow> now_ns \<le> expiry * 1000000000 \<Longrightarrow>
   tk_Errors (eval_ssl now_ns t (Some expiry) c) = tk_Errors t"
proof -
  assume c: "sl_WarnDays c = 106752" and now: "now_ns \<le> expiry * 1000000000"
  have "0 < sint (warn_offset 106752)" by (simp add: warn_offset_def)
  with c now show ?thesis by (simp add: eval_ssl_def Let_def)
qed

text \<open>
  A request that fails on the slow cadence still sets \<open>SSLChecked\<close>, with no expiry: recording the
  tick forgets the expiry that was known.
\<close>

lemma failed_request_forgets_expiry:
  assumes "make_request site = Some req" "fst (nw_Do nw req) = Request_failed err" "sl_Enabled (ck_SSL (sc_Checks site))"
  shows "ss_ssl_expires_at (db_state (update_state (run_tick nw site True) inc fails db)) = None"
proof -
  have "tk_SSLChecked (run_tick nw site True) \<and> tk_SSLExpiresAt (run_tick nw site True) = 0"
    using assms by (auto simp: run_tick_def Let_def case_prod_beta fail_def add_fail_def check_dns_def new_tick_def
        split: option.split)
  then show ?thesis by (simp add: update_state_def Let_def)
qed

text \<open>
  A monitored URL's credentials never leave in the URL: the request carries the URL without
  user information, otherwise unchanged, and the user name and password only as basic
  authentication, present exactly when the URL has them.
\<close>

theorem request_hides_credentials:
  "case (url_parse (sc_URL site), make_request site) of
     (None, None) \<Rightarrow> True
   | (Some u, Some req) \<Rightarrow> u_User (rq_URL req) = None \<and> rq_BasicAuth req = u_User u \<and>
       (rq_URL req)\<lparr>u_User := u_User u\<rparr> = u \<and> rq_UserAgent req = ''uptime-monitor/1.0''
   | _ \<Rightarrow> False"
  by (cases "url_parse (sc_URL site)") (simp_all add: make_request_def)

end
