(* ===== verification/Scheduler.thy ===== *)
theory Scheduler
  imports Checker Outages
begin

section \<open>The scheduler (internal/scheduler/scheduler.go)\<close>

text \<open>
  \<open>Manager\<close> runs one goroutine per enabled site.  Its state is the map from site ids to cancel
  functions and the goroutines started so far; a goroutine is its configuration, whether its
  context was cancelled, whether it is inside a tick and whether it returned.  The methods hold
  the mutex, so each is one step; between them the goroutines begin and end ticks in any
  order.  A cancelled goroutine may still begin a tick: the first tick runs before the
  context is looked at, and \<open>select\<close> picks freely when a tick is also due.
\<close>

record loop =
  lp_Site :: site_config
  lp_Cancelled :: bool
  lp_Checking :: bool
  lp_Returned :: bool

record scheduler =
  sh_Cancels :: "string \<rightharpoonup> nat"
  sh_Loops :: "loop list"

definition new_scheduler :: scheduler where
  "new_scheduler = \<lparr>sh_Cancels = Map.empty, sh_Loops = []\<rparr>"

subsection \<open>Methods\<close>

definition cancel :: "nat \<Rightarrow> scheduler \<Rightarrow> scheduler" where
  "cancel i s = s\<lparr>sh_Loops := (sh_Loops s)[i := (sh_Loops s ! i)\<lparr>lp_Cancelled := True\<rparr>]\<rparr>"

definition stop_locked :: "string \<Rightarrow> scheduler \<Rightarrow> scheduler" where
  "stop_locked site_id s =
     (case sh_Cancels s site_id of
        None \<Rightarrow> s
      | Some i \<Rightarrow> (cancel i s)\<lparr>sh_Cancels := (sh_Cancels s)(site_id := None)\<rparr>)"

definition start :: "site_config \<Rightarrow> scheduler \<Rightarrow> scheduler" where
  "start site s =
     (let s = stop_locked (sc_ID site) s; i = length (sh_Loops s) in
      s\<lparr>sh_Cancels := (sh_Cancels s)(sc_ID site \<mapsto> i),
        sh_Loops := sh_Loops s @ [\<lparr>lp_Site = site, lp_Cancelled = False, lp_Checking = False, lp_Returned = False\<rparr>]\<rparr>)"

definition stop :: "string \<Rightarrow> scheduler \<Rightarrow> scheduler" where
  "stop site_id s = stop_locked site_id s"

definition restart :: "site_config \<Rightarrow> scheduler \<Rightarrow> scheduler" where
  "restart site s = (let s = stop (sc_ID site) s in if sc_Enabled site then start site s else s)"

definition start_all :: "site_config list \<Rightarrow> scheduler \<Rightarrow> scheduler" where
  "start_all sites s = foldl (\<lambda>s site. if sc_Enabled site then start site s else s) s sites"

text \<open>
  \<open>Shutdown\<close> cancels every loop in the map, in an arbitrary order; the result does not depend on it.
  A loop is in the map under the id of its site, where \<open>Start\<close> put it.
\<close>

definition shutdown :: "scheduler \<Rightarrow> scheduler" where
  "shutdown s = \<lparr>sh_Cancels = Map.empty,
     sh_Loops = map (\<lambda>i. if sh_Cancels s (sc_ID (lp_Site (sh_Loops s ! i))) = Some i then (sh_Loops s ! i)\<lparr>lp_Cancelled := True\<rparr>
                     else sh_Loops s ! i) [0..<length (sh_Loops s)]\<rparr>"

subsection \<open>Steps\<close>

text \<open>What a goroutine does on its own: its ticks, and its return.\<close>

inductive loop_step :: "scheduler \<Rightarrow> scheduler \<Rightarrow> bool" where
  Tick_begins: "i < length (sh_Loops s) \<Longrightarrow> \<not> lp_Returned (sh_Loops s ! i) \<Longrightarrow> \<not> lp_Checking (sh_Loops s ! i) \<Longrightarrow>
    loop_step s (s\<lparr>sh_Loops := (sh_Loops s)[i := (sh_Loops s ! i)\<lparr>lp_Checking := True\<rparr>]\<rparr>)"
| Tick_ends: "i < length (sh_Loops s) \<Longrightarrow> lp_Checking (sh_Loops s ! i) \<Longrightarrow>
    loop_step s (s\<lparr>sh_Loops := (sh_Loops s)[i := (sh_Loops s ! i)\<lparr>lp_Checking := False\<rparr>]\<rparr>)"
| Store_unavailable: "i < length (sh_Loops s) \<Longrightarrow> \<not> lp_Checking (sh_Loops s ! i) \<Longrightarrow>
    loop_step s (s\<lparr>sh_Loops := (sh_Loops s)[i := (sh_Loops s ! i)\<lparr>lp_Returned := True\<rparr>]\<rparr>)"
| Returns: "i < length (sh_Loops s) \<Longrightarrow> lp_Cancelled (sh_Loops s ! i) \<Longrightarrow> \<not> lp_Checking (sh_Loops s ! i) \<Longrightarrow>
    loop_step s (s\<lparr>sh_Loops := (sh_Loops s)[i := (sh_Loops s ! i)\<lparr>lp_Returned := True\<rparr>]\<rparr>)"

inductive sched_step :: "scheduler \<Rightarrow> scheduler \<Rightarrow> bool" where
  Start: "sched_step s (start site s)"
| Stop: "sched_step s (stop site_id s)"
| Restart: "sched_step s (restart site s)"
| Start_all: "sched_step s (start_all sites s)"
| Shutdown: "sched_step s (shutdown s)"
| Loop: "loop_step s s' \<Longrightarrow> sched_step s s'"

inductive_cases sched_stepE: "sched_step s s'"

inductive reachable :: "scheduler \<Rightarrow> bool" where
  Init: "reachable new_scheduler"
| Step: "reachable s \<Longrightarrow> sched_step s s' \<Longrightarrow> reachable s'"

subsection \<open>One live loop per site\<close>

text \<open>The map and the uncancelled loops determine each other.\<close>

definition sched_inv :: "scheduler \<Rightarrow> bool" where
  "sched_inv s \<longleftrightarrow>
     (\<forall>k i. sh_Cancels s k = Some i \<longleftrightarrow>
        i < length (sh_Loops s) \<and> \<not> lp_Cancelled (sh_Loops s ! i) \<and> sc_ID (lp_Site (sh_Loops s ! i)) = k)"

lemma sched_inv_new: "sched_inv new_scheduler"
  by (simp add: sched_inv_def new_scheduler_def)

lemma stop_locked_inv: "sched_inv s \<Longrightarrow> sched_inv (stop_locked k s)"
  unfolding sched_inv_def stop_locked_def cancel_def
  by (auto simp: nth_list_update split: option.splits if_splits) (metis option.inject)

lemma stop_locked_map: "sched_inv s \<Longrightarrow> sh_Cancels (stop_locked k s) = (sh_Cancels s)(k := None)"
  by (auto simp: stop_locked_def cancel_def fun_eq_iff split: option.split)

lemma start_inv: "sched_inv s \<Longrightarrow> sched_inv (start site s)"
proof -
  assume "sched_inv s"
  then have inv: "sched_inv (stop_locked (sc_ID site) s)" by (rule stop_locked_inv)
  have "sh_Cancels (stop_locked (sc_ID site) s) (sc_ID site) = None"
    using \<open>sched_inv s\<close> by (simp add: stop_locked_map)
  with inv show ?thesis
    unfolding sched_inv_def start_def Let_def by (auto simp: nth_append less_Suc_eq split: if_splits)
      (metis option.distinct(1))
qed

lemma restart_inv: "sched_inv s \<Longrightarrow> sched_inv (restart site s)"
  by (simp add: restart_def stop_def Let_def stop_locked_inv start_inv)

lemma start_all_inv: "sched_inv s \<Longrightarrow> sched_inv (start_all sites s)"
  by (induction sites arbitrary: s) (auto simp: start_all_def start_inv)

lemma shutdown_inv: "sched_inv s \<Longrightarrow> sched_inv (shutdown s)"
  unfolding sched_inv_def shutdown_def by (auto split: if_splits)

lemma loop_update_inv:
  "sched_inv s \<Longrightarrow> i < length (sh_Loops s) \<Longrightarrow> lp_Cancelled l = lp_Cancelled (sh_Loops s ! i) \<Longrightarrow>
   lp_Site l = lp_Site (sh_Loops s ! i) \<Longrightarrow> sched_inv (s\<lparr>sh_Loops := (sh_Loops s)[i := l]\<rparr>)"
  unfolding sched_inv_def by (auto simp: nth_list_update split: if_splits)

lemma loop_step_inv: "loop_step s s' \<Longrightarrow> sched_inv s \<Longrightarrow> sched_inv s'"
  by (induction rule: loop_step.induct) (auto intro: loop_update_inv)

lemma sched_step_inv: "sched_step s s' \<Longrightarrow> sched_inv s \<Longrightarrow> sched_inv s'"
  by (induction rule: sched_step.induct)
    (auto simp: stop_def start_inv stop_locked_inv restart_inv start_all_inv shutdown_inv loop_step_inv)

lemma reachable_inv: "reachable s \<Longrightarrow> sched_inv s"
  by (induction rule: reachable.induct) (auto intro: sched_inv_new sched_step_inv)

text \<open>The configuration that is running for each site, the abstract view of the manager.\<close>

definition running :: "scheduler \<Rightarrow> string \<rightharpoonup> site_config" where
  "running s k = map_option (\<lambda>i. lp_Site (sh_Loops s ! i)) (sh_Cancels s k)"


lemma running_stop: "sched_inv s \<Longrightarrow> running (stop k s) = (running s)(k := None)"
proof
  fix k'
  assume inv: "sched_inv s"
  have upd: "lp_Site (xs[a := (xs ! a)\<lparr>lp_Cancelled := True\<rparr>] ! i) = lp_Site (xs ! i)" for xs a i
    by (cases "a < length xs"; cases "a = i") (simp_all add: list_update_beyond)
  have "lp_Site (sh_Loops (stop_locked k s) ! i) = lp_Site (sh_Loops s ! i)" for i
    by (simp add: stop_locked_def cancel_def upd split: option.split)
  then show "running (stop k s) k' = ((running s)(k := None)) k'"
    using inv by (simp add: running_def stop_def stop_locked_map)
qed

lemma running_start: "sched_inv s \<Longrightarrow> running (start site s) = (running s)(sc_ID site \<mapsto> site)"
proof
  fix k
  assume inv: "sched_inv s"
  let ?s = "stop_locked (sc_ID site) s"
  have "sched_inv ?s" using inv by (rule stop_locked_inv)
  then have "i < length (sh_Loops ?s)" if "sh_Cancels ?s k = Some i" for i
    using that by (simp add: sched_inv_def)
  then have "running (start site s) k = ((running ?s)(sc_ID site \<mapsto> site)) k"
    by (cases "sh_Cancels ?s k") (auto simp: running_def start_def Let_def nth_append)
  also have "running ?s = (running s)(sc_ID site := None)" using running_stop [OF inv] by (simp add: stop_def)
  finally show "running (start site s) k = ((running s)(sc_ID site \<mapsto> site)) k" by simp
qed

lemma running_restart:
  "sched_inv s \<Longrightarrow> running (restart site s) =
     (running s)(sc_ID site := (if sc_Enabled site then Some site else None))"
  using running_stop [of s "sc_ID site"] running_start [of "stop (sc_ID site) s" site]
  by (simp add: restart_def Let_def stop_locked_inv stop_def)

lemma running_shutdown: "running (shutdown s) = Map.empty"
  by (simp add: running_def shutdown_def fun_eq_iff)


lemma running_start_all:
  "sched_inv s \<Longrightarrow> running (start_all sites s) = running s ++ map_of (rev (map (\<lambda>x. (sc_ID x, x)) (filter sc_Enabled sites)))"
proof (induction sites arbitrary: s)
  case Nil
  then show ?case by (simp add: start_all_def)
next
  case (Cons x xs)
  have "start_all (x # xs) s = start_all xs (if sc_Enabled x then start x s else s)" by (simp add: start_all_def)
  show ?case
  proof (cases "sc_Enabled x")
    case True
    have "running (start_all (x # xs) s) = (running s)(sc_ID x \<mapsto> x) ++
        map_of (rev (map (\<lambda>x. (sc_ID x, x)) (filter sc_Enabled xs)))"
      using Cons.IH [OF start_inv [OF Cons.prems]] True
      by (simp only: \<open>start_all (x # xs) s = _\<close> if_True running_start [OF Cons.prems])
    also have "(running s)(sc_ID x \<mapsto> x) = running s ++ map_of [(sc_ID x, x)]" by simp
    finally show ?thesis using True by (simp only: map_add_assoc [symmetric] map_of_append [symmetric]) simp
  next
    case False
    with Cons.IH [OF Cons.prems] show ?thesis by (simp add: \<open>start_all (x # xs) s = _\<close>)
  qed
qed

lemma sched_inv_live:
  "sched_inv s \<Longrightarrow> i < length (sh_Loops s) \<Longrightarrow> \<not> lp_Cancelled (sh_Loops s ! i) \<Longrightarrow>
   sh_Cancels s (sc_ID (lp_Site (sh_Loops s ! i))) = Some i"
  by (simp add: sched_inv_def)

lemmas reach_start = Step [OF _ sched_step.Start]

text \<open>
  C23: at any moment and under any interleaving of API calls and goroutines, at most one uncancelled
  loop checks a site: two goroutines of the same site whose contexts are both live are the same
  one, and it is the one the manager would cancel.
\<close>

theorem one_live_loop_per_site:
  assumes "reachable s" "i < length (sh_Loops s)" "j < length (sh_Loops s)"
    and "\<not> lp_Cancelled (sh_Loops s ! i)" "\<not> lp_Cancelled (sh_Loops s ! j)"
    and "sc_ID (lp_Site (sh_Loops s ! i)) = sc_ID (lp_Site (sh_Loops s ! j))"
  shows "i = j \<and> sh_Cancels s (sc_ID (lp_Site (sh_Loops s ! i))) = Some i"
proof -
  note inv = reachable_inv [OF assms(1)]
  have "sh_Cancels s (sc_ID (lp_Site (sh_Loops s ! j))) = Some j"
    by (rule sched_inv_live [OF inv assms(3,5)])
  with sched_inv_live [OF inv assms(2,4)] assms(6) show ?thesis by simp
qed

theorem one_live_loop_per_site_witness:
  "sh_Cancels (start example_site (start example_site new_scheduler)) ''shop'' = Some 1"
proof -
  let ?s = "start example_site (start example_site new_scheduler)"
  have "reachable ?s" by (rule reach_start [OF reach_start [OF Init]])
  moreover have "length (sh_Loops ?s) = 2" "\<not> lp_Cancelled (sh_Loops ?s ! 1)"
    "sc_ID (lp_Site (sh_Loops ?s ! 1)) = ''shop''"
    by (simp_all add: start_def stop_locked_def cancel_def new_scheduler_def example_site_def)
  ultimately show ?thesis using one_live_loop_per_site [of ?s 1 1] by simp
qed

text \<open>
  The manager implements a map from site ids to running configurations: \<open>Start\<close> sets a site's
  entry, \<open>Stop\<close> removes it, \<open>Restart\<close> sets it or, for a disabled site, removes it,
  \<open>StartAll\<close> adds the enabled sites, \<open>Shutdown\<close> empties it, and nothing the goroutines do
  changes it.
\<close>

theorem scheduler_refines_running_map:
  assumes "reachable s"
  shows "running (start site s) = (running s)(sc_ID site \<mapsto> site) \<and>
    running (stop k s) = (running s)(k := None) \<and>
    running (restart site s) = (running s)(sc_ID site := (if sc_Enabled site then Some site else None)) \<and>
    running (start_all sites s) =
      running s ++ map_of (rev (map (\<lambda>x. (sc_ID x, x)) (filter sc_Enabled sites))) \<and>
    running (shutdown s) = Map.empty \<and>
    (if i < length (sh_Loops s)
     then running (s\<lparr>sh_Loops := (sh_Loops s)[i := (sh_Loops s ! i)\<lparr>lp_Checking := c, lp_Returned := r\<rparr>]\<rparr>) = running s
     else True)"
proof -
  have "running (s\<lparr>sh_Loops := (sh_Loops s)[i := (sh_Loops s ! i)\<lparr>lp_Checking := c, lp_Returned := r\<rparr>]\<rparr>) = running s"
    if "i < length (sh_Loops s)"
  proof -
    have "lp_Site ((sh_Loops s)[i := (sh_Loops s ! i)\<lparr>lp_Checking := c, lp_Returned := r\<rparr>] ! j) = lp_Site (sh_Loops s ! j)" for j
      using that by (simp add: nth_list_update)
    then show ?thesis by (simp add: running_def fun_eq_iff)
  qed
  with reachable_inv [OF assms] show ?thesis
    by (simp add: running_start running_stop running_restart running_start_all running_shutdown)
qed

theorem scheduler_refines_running_map_witness:
  "running (start example_site new_scheduler) ''shop'' = Some example_site \<and>
   running (shutdown (start example_site new_scheduler)) = Map.empty"
proof -
  have r: "reachable new_scheduler" "reachable (start example_site new_scheduler)"
    by (rule Init) (rule reach_start [OF Init])
  have "sc_ID example_site = ''shop''" by (simp add: example_site_def)
  with scheduler_refines_running_map [OF r(1), of example_site]
    scheduler_refines_running_map [OF r(2), of example_site] show ?thesis by simp
qed

subsection \<open>The tick of a loop\<close>

text \<open>
  The closure \<open>tick\<close> of \<open>runSite\<close>: whether the slow checks are due, the check, the moment of the
  last slow run, and the recorded tick.  \<open>lastSlow\<close> is \<open>None\<close> for the zero time, which lies
  centuries back.  A panic inside the check is caught and leaves everything as it was
  (\<open>outcome = None\<close>).  Times are nanoseconds.
\<close>

definition slow_due :: "int \<Rightarrow> int \<Rightarrow> int option \<Rightarrow> bool" where
  "slow_due slow now lastSlow = (case lastSlow of None \<Rightarrow> True | Some t \<Rightarrow> sat64 (now - t) \<ge> slow)"

definition slow_ns :: "site_config \<Rightarrow> int" where
  "slow_ns site = sint (word_of_int (sc_SlowIntervalSeconds site) * 1000000000 :: int64)"

definition loop_tick :: "site_config \<Rightarrow> int \<Rightarrow> (bool \<Rightarrow> tick option) \<Rightarrow> int \<Rightarrow> (tick_stmt \<Rightarrow> bool) \<Rightarrow>
    int option \<times> site_db \<Rightarrow> (int option \<times> site_db) \<times> transition option" where
  "loop_tick site begin_ns check end_ns flt st =
     (let (lastSlow, db) = st; runSlow = slow_due (slow_ns site) begin_ns lastSlow in
      case check runSlow of
        None \<Rightarrow> (st, None)
      | Some result \<Rightarrow>
          let lastSlow = (if runSlow then Some end_ns else lastSlow);
              (db', tr, err) = record_tick flt result db
          in ((lastSlow, db'), if err = None then Some tr else None))"

text \<open>Which ticks of a loop run the slow checks: each tick begins some time after the last ended.\<close>

fun slow_runs :: "int \<Rightarrow> int \<Rightarrow> int option \<Rightarrow> (nat \<times> nat) list \<Rightarrow> (int \<times> int) list" where
  "slow_runs slow now lastSlow [] = []"
| "slow_runs slow now lastSlow ((pause, len) # ts) =
     (let b = now + int pause; e = b + int len in
      if slow_due slow b lastSlow then (b, e) # slow_runs slow e (Some e) ts
      else slow_runs slow e lastSlow ts)"

lemma slow_due_spaced: "slow_due slow now (Some t) \<Longrightarrow> t \<le> now \<Longrightarrow> slow \<le> now - t"
  by (auto simp: slow_due_def sat64_def split: if_splits)

lemma slow_runs_spaced:
  "(case lastSlow of None \<Rightarrow> True | Some t \<Rightarrow> t \<le> now) \<Longrightarrow>
   sorted_wrt (\<lambda>x y. snd x + max slow 0 \<le> fst y) (slow_runs slow now lastSlow ts) \<and>
   (case lastSlow of None \<Rightarrow> True
    | Some t \<Rightarrow> list_all (\<lambda>r. t + max slow 0 \<le> fst r) (slow_runs slow now lastSlow ts)) \<and>
   list_all (\<lambda>r. fst r \<le> snd r) (slow_runs slow now lastSlow ts)"
proof (induction slow now lastSlow ts rule: slow_runs.induct)
  case (2 slow now lastSlow pause len ts)
  let ?b = "now + int pause"
  let ?e = "?b + int len"
  show ?case
  proof (cases "slow_due slow ?b lastSlow")
    case True
    with 2 have IH: "sorted_wrt (\<lambda>x y. snd x + max slow 0 \<le> fst y) (slow_runs slow ?e (Some ?e) ts)"
      "list_all (\<lambda>r. ?e + max slow 0 \<le> fst r) (slow_runs slow ?e (Some ?e) ts)"
      "list_all (\<lambda>r. fst r \<le> snd r) (slow_runs slow ?e (Some ?e) ts)" by (auto simp: Let_def)
    show ?thesis
    proof (cases lastSlow)
      case None
      with True IH show ?thesis by (auto simp: Let_def list_all_iff)
    next
      case (Some t)
      with "2.prems" have "t \<le> ?b" by simp
      moreover have "slow \<le> ?b - t" using True Some calculation by (auto intro: slow_due_spaced)
      ultimately have "t + max slow 0 \<le> ?b" by (simp add: max_def)
      moreover have "t + max slow 0 \<le> fst r" if "?e + max slow 0 \<le> fst r" for r :: "int \<times> int"
        using that \<open>t \<le> ?b\<close> by linarith
      ultimately show ?thesis using True Some IH by (auto simp: Let_def list_all_iff)
    qed
  next
    case False
    have "case lastSlow of None \<Rightarrow> True | Some t \<Rightarrow> t \<le> ?e" using "2.prems" by (cases lastSlow) auto
    from "2.IH"(2) [OF refl refl False this]
    show ?thesis unfolding slow_runs.simps Let_def if_not_P [OF False] .
  qed
qed (simp split: option.split)

text \<open>
  The slow checks keep their cadence: in the life of a loop the first tick runs them, and
  between the end of one slow run and the beginning of the next at least the slow interval
  passes, however long the ticks take.
\<close>

theorem slow_checks_keep_cadence:
  "let runs = slow_runs (slow_ns site) now None ts in
   sorted_wrt (\<lambda>x y. snd x + slow_ns site \<le> fst y) runs \<and>
   (case ts of [] \<Rightarrow> runs = [] | (pause, len) # _ \<Rightarrow>
      runs \<noteq> [] \<and> hd runs = (now + int pause, now + int pause + int len))"
proof -
  have "sorted_wrt (\<lambda>x y. snd x + max (slow_ns site) 0 \<le> fst y) (slow_runs (slow_ns site) now None ts)"
    using slow_runs_spaced [where lastSlow = None and now = now and slow = "slow_ns site" and ts = ts] by simp
  then have "sorted_wrt (\<lambda>x y. snd x + slow_ns site \<le> fst y) (slow_runs (slow_ns site) now None ts)"
    by (rule sorted_wrt_mono_rel [rotated]) simp
  then show ?thesis by (auto simp: Let_def slow_due_def split: list.split)
qed



end
