(* ===== verification/Request.thy ===== *)
theory Request
  imports Stores Limiter Auth NetAddr Scheduler
begin

section \<open>Requests: JSON bodies, parameters, addresses, routes (internal/api/api.go, alerts.go)\<close>

text \<open>
  What the handlers read of a request.  A JSON body that parses is a value of \<open>json\<close>; the
  decoders follow \<open>encoding/json\<close> into a struct: members in order, field names up to case, \<open>null\<close>
  leaving a field as it is and clearing a pointer, a value of the wrong type being an error.
  The routes of \<open>apiMux\<close> are matched as \<open>http.ServeMux\<close> does since Go 1.22.
\<close>

subsection \<open>JSON\<close>

datatype json = J_null | J_bool bool | J_num string | J_str string | J_arr "json list"
  | J_obj "(string \<times> json) list"

text \<open>A request body: over the limit or unreadable, not JSON, or a value.\<close>

datatype body = Unreadable | Malformed string | Parsed json

text \<open>\<open>strconv.ParseInt(s, 10, 64)\<close>: an optional sign, then digits, within 64 bits.\<close>

definition digits_value :: "string \<Rightarrow> int option" where
  "digits_value s = (if s \<noteq> [] \<and> list_all is_digit s then Some (int (dec_value s)) else None)"

definition parse_int :: "string \<Rightarrow> int option" where
  "parse_int s =
     (let neg = has_prefix ''-'' s; ds = (if neg \<or> has_prefix ''+'' s then tl s else s) in
      case digits_value ds of
        None \<Rightarrow> None
      | Some n \<Rightarrow> let v = (if neg then - n else n) in
          if - (2 ^ 63) \<le> v \<and> v < 2 ^ 63 then Some v else None)"

text \<open>A decoder takes the value the field has so far.\<close>

fun dec_str :: "json \<Rightarrow> string \<Rightarrow> string option" where
  "dec_str J_null old = Some old"
| "dec_str (J_str s) old = Some s"
| "dec_str _ old = None"

fun dec_bool :: "json \<Rightarrow> bool \<Rightarrow> bool option" where
  "dec_bool J_null old = Some old"
| "dec_bool (J_bool b) old = Some b"
| "dec_bool _ old = None"

fun dec_int :: "json \<Rightarrow> int \<Rightarrow> int option" where
  "dec_int J_null old = Some old"
| "dec_int (J_num s) old = parse_int s"
| "dec_int _ old = None"

definition dec_ptr :: "(json \<Rightarrow> 'a \<Rightarrow> 'a option) \<Rightarrow> 'a \<Rightarrow> json \<Rightarrow> 'a option \<Rightarrow> 'a option option" where
  "dec_ptr dec zero j old =
     (if j = J_null then Some None
      else map_option Some (dec j (case old of None \<Rightarrow> zero | Some v \<Rightarrow> v)))"

fun dec_list :: "(json \<Rightarrow> 'a \<Rightarrow> 'a option) \<Rightarrow> 'a \<Rightarrow> json \<Rightarrow> 'a list \<Rightarrow> 'a list option" where
  "dec_list dec zero J_null old = Some []"
| "dec_list dec zero (J_arr js) old = sequence_opt (map (\<lambda>j. dec j zero) js)"
| "dec_list dec zero _ old = None"

fun dec_members :: "(string \<Rightarrow> json \<Rightarrow> 'a \<Rightarrow> 'a option) \<Rightarrow> (string \<times> json) list \<Rightarrow> 'a \<Rightarrow> 'a option" where
  "dec_members field [] v = Some v"
| "dec_members field ((k, j) # ms) v =
     (case field (to_lower k) j v of None \<Rightarrow> None | Some v' \<Rightarrow> dec_members field ms v')"

fun dec_obj :: "(string \<Rightarrow> json \<Rightarrow> 'a \<Rightarrow> 'a option) \<Rightarrow> json \<Rightarrow> 'a \<Rightarrow> 'a option" where
  "dec_obj field J_null v = Some v"
| "dec_obj field (J_obj ms) v = dec_members field ms v"
| "dec_obj field _ v = None"

subsection \<open>The struct types of the bodies\<close>

definition http_field :: "string \<Rightarrow> json \<Rightarrow> http_check \<Rightarrow> http_check option" where
  "http_field k j c =
     (if k = ''enabled'' then map_option (\<lambda>x. c\<lparr>hc_Enabled := x\<rparr>) (dec_bool j (hc_Enabled c))
      else if k = ''expect_status'' then
        map_option (\<lambda>x. c\<lparr>hc_ExpectStatus := x\<rparr>) (dec_list dec_int 0 j (hc_ExpectStatus c))
      else Some c)"

definition latency_field :: "string \<Rightarrow> json \<Rightarrow> latency_check \<Rightarrow> latency_check option" where
  "latency_field k j c =
     (if k = ''enabled'' then map_option (\<lambda>x. c\<lparr>lc_Enabled := x\<rparr>) (dec_bool j (lc_Enabled c))
      else if k = ''max_ms'' then map_option (\<lambda>x. c\<lparr>lc_MaxMs := x\<rparr>) (dec_int j (lc_MaxMs c))
      else Some c)"

definition content_field :: "string \<Rightarrow> json \<Rightarrow> content_check \<Rightarrow> content_check option" where
  "content_field k j c =
     (if k = ''enabled'' then map_option (\<lambda>x. c\<lparr>cc_Enabled := x\<rparr>) (dec_bool j (cc_Enabled c))
      else if k = ''must_contain'' then
        map_option (\<lambda>x. c\<lparr>cc_MustContain := x\<rparr>) (dec_list dec_str [] j (cc_MustContain c))
      else if k = ''must_not_contain'' then
        map_option (\<lambda>x. c\<lparr>cc_MustNotContain := x\<rparr>) (dec_list dec_str [] j (cc_MustNotContain c))
      else Some c)"

definition ssl_field :: "string \<Rightarrow> json \<Rightarrow> ssl_check \<Rightarrow> ssl_check option" where
  "ssl_field k j c =
     (if k = ''enabled'' then map_option (\<lambda>x. c\<lparr>sl_Enabled := x\<rparr>) (dec_bool j (sl_Enabled c))
      else if k = ''warn_days'' then map_option (\<lambda>x. c\<lparr>sl_WarnDays := x\<rparr>) (dec_int j (sl_WarnDays c))
      else Some c)"

definition dns_field :: "string \<Rightarrow> json \<Rightarrow> bool \<Rightarrow> bool option" where
  "dns_field k j c = (if k = ''enabled'' then dec_bool j c else Some c)"

definition checks_field :: "string \<Rightarrow> json \<Rightarrow> checks_config \<Rightarrow> checks_config option" where
  "checks_field k j c =
     (if k = ''http'' then map_option (\<lambda>x. c\<lparr>ck_HTTP := x\<rparr>) (dec_obj http_field j (ck_HTTP c))
      else if k = ''latency'' then map_option (\<lambda>x. c\<lparr>ck_Latency := x\<rparr>) (dec_obj latency_field j (ck_Latency c))
      else if k = ''content'' then map_option (\<lambda>x. c\<lparr>ck_Content := x\<rparr>) (dec_obj content_field j (ck_Content c))
      else if k = ''ssl'' then map_option (\<lambda>x. c\<lparr>ck_SSL := x\<rparr>) (dec_obj ssl_field j (ck_SSL c))
      else if k = ''dns'' then map_option (\<lambda>x. c\<lparr>ck_DNS := x\<rparr>) (dec_obj dns_field j (ck_DNS c))
      else Some c)"

definition site_field :: "string \<Rightarrow> json \<Rightarrow> site_config \<Rightarrow> site_config option" where
  "site_field k j s =
     (if k = ''id'' then map_option (\<lambda>x. s\<lparr>sc_ID := x\<rparr>) (dec_str j (sc_ID s))
      else if k = ''name'' then map_option (\<lambda>x. s\<lparr>sc_Name := x\<rparr>) (dec_str j (sc_Name s))
      else if k = ''url'' then map_option (\<lambda>x. s\<lparr>sc_URL := x\<rparr>) (dec_str j (sc_URL s))
      else if k = ''interval_seconds'' then
        map_option (\<lambda>x. s\<lparr>sc_IntervalSeconds := x\<rparr>) (dec_int j (sc_IntervalSeconds s))
      else if k = ''slow_interval_seconds'' then
        map_option (\<lambda>x. s\<lparr>sc_SlowIntervalSeconds := x\<rparr>) (dec_int j (sc_SlowIntervalSeconds s))
      else if k = ''enabled'' then map_option (\<lambda>x. s\<lparr>sc_Enabled := x\<rparr>) (dec_bool j (sc_Enabled s))
      else if k = ''checks'' then map_option (\<lambda>x. s\<lparr>sc_Checks := x\<rparr>) (dec_obj checks_field j (sc_Checks s))
      else if k = ''created_at'' then map_option (\<lambda>x. s\<lparr>sc_CreatedAt := x\<rparr>) (dec_int j (sc_CreatedAt s))
      else if k = ''updated_at'' then map_option (\<lambda>x. s\<lparr>sc_UpdatedAt := x\<rparr>) (dec_int j (sc_UpdatedAt s))
      else Some s)"

definition zero_site :: site_config where
  "zero_site = \<lparr>sc_ID = [], sc_Name = [], sc_URL = [], sc_IntervalSeconds = 0, sc_SlowIntervalSeconds = 0,
     sc_Enabled = False, sc_Checks = no_checks, sc_CreatedAt = 0, sc_UpdatedAt = 0, sc_APIKeyHash = []\<rparr>"

definition decode_site :: "json \<Rightarrow> site_config option" where
  "decode_site j = dec_obj site_field j zero_site"

text \<open>The probe of \<open>handleCreateSite\<close>; its error is ignored, the pointer stays as decoded.\<close>

definition probe_enabled :: "json \<Rightarrow> bool option" where
  "probe_enabled j =
     (case dec_obj (\<lambda>k j v. if k = ''enabled'' then dec_ptr dec_bool False j v else Some v) j None of
        None \<Rightarrow> None | Some v \<Rightarrow> v)"

record key_input =
  ki_APIKey :: "string option"
  ki_GenerateKey :: bool

definition key_field :: "string \<Rightarrow> json \<Rightarrow> key_input \<Rightarrow> key_input option" where
  "key_field k j c =
     (if k = ''api_key'' then map_option (\<lambda>x. c\<lparr>ki_APIKey := x\<rparr>) (dec_ptr dec_str [] j (ki_APIKey c))
      else if k = ''generate_api_key'' then map_option (\<lambda>x. c\<lparr>ki_GenerateKey := x\<rparr>) (dec_bool j (ki_GenerateKey c))
      else Some c)"

definition decode_key_input :: "json \<Rightarrow> key_input option" where
  "decode_key_input j = dec_obj key_field j \<lparr>ki_APIKey = None, ki_GenerateKey = False\<rparr>"

record login_request =
  lr_Username :: string
  lr_Password :: string

definition decode_login :: "json \<Rightarrow> login_request option" where
  "decode_login j = dec_obj (\<lambda>k j v.
     if k = ''username'' then map_option (\<lambda>x. v\<lparr>lr_Username := x\<rparr>) (dec_str j (lr_Username v))
     else if k = ''password'' then map_option (\<lambda>x. v\<lparr>lr_Password := x\<rparr>) (dec_str j (lr_Password v))
     else Some v) j \<lparr>lr_Username = [], lr_Password = []\<rparr>"

record password_request =
  pr_CurrentPassword :: string
  pr_NewPassword :: string

definition decode_password :: "json \<Rightarrow> password_request option" where
  "decode_password j = dec_obj (\<lambda>k j v.
     if k = ''current_password'' then map_option (\<lambda>x. v\<lparr>pr_CurrentPassword := x\<rparr>) (dec_str j (pr_CurrentPassword v))
     else if k = ''new_password'' then map_option (\<lambda>x. v\<lparr>pr_NewPassword := x\<rparr>) (dec_str j (pr_NewPassword v))
     else Some v) j \<lparr>pr_CurrentPassword = [], pr_NewPassword = []\<rparr>"

record channel_input =
  ci_Name :: string
  ci_Type :: string
  ci_Target :: string
  ci_Enabled :: "bool option"

definition decode_channel_input :: "json \<Rightarrow> channel_input option" where
  "decode_channel_input j = dec_obj (\<lambda>k j v.
     if k = ''name'' then map_option (\<lambda>x. v\<lparr>ci_Name := x\<rparr>) (dec_str j (ci_Name v))
     else if k = ''type'' then map_option (\<lambda>x. v\<lparr>ci_Type := x\<rparr>) (dec_str j (ci_Type v))
     else if k = ''target'' then map_option (\<lambda>x. v\<lparr>ci_Target := x\<rparr>) (dec_str j (ci_Target v))
     else if k = ''enabled'' then map_option (\<lambda>x. v\<lparr>ci_Enabled := x\<rparr>) (dec_ptr dec_bool False j (ci_Enabled v))
     else Some v) j \<lparr>ci_Name = [], ci_Type = [], ci_Target = [], ci_Enabled = None\<rparr>"

record rule_input =
  ri_SiteID :: "string option"
  ri_ChannelID :: int
  ri_Kind :: string
  ri_Enabled :: "bool option"
  ri_ConfirmAfter :: "int option"

definition decode_rule_input :: "json \<Rightarrow> rule_input option" where
  "decode_rule_input j = dec_obj (\<lambda>k j v.
     if k = ''site_id'' then map_option (\<lambda>x. v\<lparr>ri_SiteID := x\<rparr>) (dec_ptr dec_str [] j (ri_SiteID v))
     else if k = ''channel_id'' then map_option (\<lambda>x. v\<lparr>ri_ChannelID := x\<rparr>) (dec_int j (ri_ChannelID v))
     else if k = ''kind'' then map_option (\<lambda>x. v\<lparr>ri_Kind := x\<rparr>) (dec_str j (ri_Kind v))
     else if k = ''enabled'' then map_option (\<lambda>x. v\<lparr>ri_Enabled := x\<rparr>) (dec_ptr dec_bool False j (ri_Enabled v))
     else if k = ''confirm_after'' then
       map_option (\<lambda>x. v\<lparr>ri_ConfirmAfter := x\<rparr>) (dec_ptr dec_int 0 j (ri_ConfirmAfter v))
     else Some v) j \<lparr>ri_SiteID = None, ri_ChannelID = 0, ri_Kind = [], ri_Enabled = None, ri_ConfirmAfter = None\<rparr>"

subsection \<open>Requests\<close>

text \<open>
  \<open>rq_Path\<close> is the escaped path of the request line, \<open>rq_Query\<close> the parsed query in order,
  \<open>rq_Cookie\<close> the first cookie named \<open>uptime_session\<close>.
\<close>

record request =
  rq_Method :: string
  rq_Path :: string
  rq_Query :: "(string \<times> string) list"
  rq_Headers :: "(string \<times> string) list"
  rq_Cookie :: "string option"
  rq_RemoteAddr :: string
  rq_Body :: body

definition query_get :: "string \<Rightarrow> request \<Rightarrow> string" where
  "query_get k r = (case map_of (rq_Query r) k of None \<Rightarrow> [] | Some v \<Rightarrow> v)"

text \<open>\<open>Header.Get\<close> finds the first value of a header, whose name is case-insensitive.\<close>

definition header_get :: "string \<Rightarrow> request \<Rightarrow> string" where
  "header_get k r =
     (case List.find (\<lambda>h. to_lower (fst h) = to_lower k) (rq_Headers r) of None \<Rightarrow> [] | Some h \<Rightarrow> snd h)"

subsection \<open>Parameters\<close>

definition window_seconds :: "string \<Rightarrow> int option" where
  "window_seconds w = map_of [(''1h'', 3600), (''24h'', 86400), (''7d'', 604800), (''30d'', 2592000), (''all'', 0)] w"

definition parse_window :: "unix \<Rightarrow> request \<Rightarrow> string \<times> unix" where
  "parse_window now r =
     (let w = query_get ''window'' r; w = (if w = [] then ''all'' else w);
          (w, secs) = (case window_seconds w of None \<Rightarrow> (''all'', 0) | Some s \<Rightarrow> (w, s))
      in if secs = 0 then (w, 0) else (w, now - secs))"

definition since_param :: "request \<Rightarrow> unix" where
  "since_param r = (case parse_int (query_get ''since'' r) of None \<Rightarrow> 0 | Some v \<Rightarrow> if v < 0 then 0 else v)"

definition limit_param :: "request \<Rightarrow> int \<Rightarrow> int" where
  "limit_param r def =
     (case parse_int (query_get ''limit'' r) of
        None \<Rightarrow> def
      | Some v \<Rightarrow> if v \<le> 0 then def else if v > 10000 then 10000 else v)"

definition buckets_param :: "request \<Rightarrow> int" where
  "buckets_param r =
     (case parse_int (query_get ''buckets'' r) of
        None \<Rightarrow> DefaultSeriesBuckets
      | Some v \<Rightarrow> if v > 0 then v else DefaultSeriesBuckets)"

definition path_id :: "string \<Rightarrow> int option" where
  "path_id site = (case parse_int site of None \<Rightarrow> None | Some v \<Rightarrow> if v > 0 then Some v else None)"

subsection \<open>Who is calling\<close>

definition caller_ip :: "string \<Rightarrow> request \<Rightarrow> string" where
  "caller_ip realIPHeader r =
     (let v = (if realIPHeader = [] then [] else header_get realIPHeader r);
          v = trim_space (takeWhile (\<lambda>c. c \<noteq> CHR '','') v)
      in if v \<noteq> [] then v else rq_RemoteAddr r)"

definition client_ip :: "string \<Rightarrow> request \<Rightarrow> string" where
  "client_ip realIPHeader r =
     (let host = caller_ip realIPHeader r in
      case split_host_port host of None \<Rightarrow> host | Some (h, _) \<Rightarrow> h)"

definition key_matches :: "string \<Rightarrow> string \<Rightarrow> bool" where
  "key_matches presented want \<longleftrightarrow> constant_time_compare presented want = 1"

definition origin_allowed :: "string list \<Rightarrow> string \<Rightarrow> bool" where
  "origin_allowed corsOrigins origin \<longleftrightarrow> list_ex (\<lambda>x. x = origin) corsOrigins"

subsection \<open>Routes\<close>

datatype endpoint =
    E_Health | E_Login | E_Logout | E_Me | E_Change_password
  | E_List_sites | E_Create_site | E_Get_site | E_Update_site | E_Delete_site
  | E_List_channels | E_Create_channel | E_Update_channel | E_Delete_channel | E_Test_channel
  | E_List_rules | E_Create_rule | E_Update_rule | E_Delete_rule | E_List_deliveries
  | E_Overview | E_Series | E_Status | E_Uptime | E_Metrics | E_Errors | E_Incidents | E_Results

text \<open>A pattern element: a literal or the wildcard \<open>{id}\<close>.\<close>

datatype elem = Lit string | Wild

definition api_routes :: "(string \<times> elem list \<times> endpoint) list" where
  "api_routes =
    [(''GET'', [Lit ''health''], E_Health),
     (''POST'', [Lit ''auth'', Lit ''login''], E_Login),
     (''POST'', [Lit ''auth'', Lit ''logout''], E_Logout),
     (''GET'', [Lit ''auth'', Lit ''me''], E_Me),
     (''POST'', [Lit ''auth'', Lit ''password''], E_Change_password),
     (''GET'', [Lit ''sites''], E_List_sites),
     (''POST'', [Lit ''sites''], E_Create_site),
     (''GET'', [Lit ''sites'', Wild], E_Get_site),
     (''PUT'', [Lit ''sites'', Wild], E_Update_site),
     (''DELETE'', [Lit ''sites'', Wild], E_Delete_site),
     (''GET'', [Lit ''alerts'', Lit ''channels''], E_List_channels),
     (''POST'', [Lit ''alerts'', Lit ''channels''], E_Create_channel),
     (''PUT'', [Lit ''alerts'', Lit ''channels'', Wild], E_Update_channel),
     (''DELETE'', [Lit ''alerts'', Lit ''channels'', Wild], E_Delete_channel),
     (''POST'', [Lit ''alerts'', Lit ''channels'', Wild, Lit ''test''], E_Test_channel),
     (''GET'', [Lit ''alerts'', Lit ''rules''], E_List_rules),
     (''POST'', [Lit ''alerts'', Lit ''rules''], E_Create_rule),
     (''PUT'', [Lit ''alerts'', Lit ''rules'', Wild], E_Update_rule),
     (''DELETE'', [Lit ''alerts'', Lit ''rules'', Wild], E_Delete_rule),
     (''GET'', [Lit ''alerts'', Lit ''deliveries''], E_List_deliveries),
     (''GET'', [Lit ''sites'', Lit ''overview''], E_Overview),
     (''GET'', [Lit ''sites'', Wild, Lit ''series''], E_Series),
     (''GET'', [Lit ''sites'', Wild, Lit ''status''], E_Status),
     (''GET'', [Lit ''sites'', Wild, Lit ''uptime''], E_Uptime),
     (''GET'', [Lit ''sites'', Wild, Lit ''metrics''], E_Metrics),
     (''GET'', [Lit ''sites'', Wild, Lit ''errors''], E_Errors),
     (''GET'', [Lit ''sites'', Wild, Lit ''incidents''], E_Incidents),
     (''GET'', [Lit ''sites'', Wild, Lit ''results''], E_Results)]"

text \<open>
  \<open>ServeMux\<close>: the elements of a clean path, unescaped one by one; a trailing slash is the
  element \<open>/\<close>, which no wildcard matches.  Of two patterns the one with the literal wins.
\<close>

definition path_unescape :: "string \<Rightarrow> string" where
  "path_unescape e = (case unescape Encode_path e of None \<Rightarrow> e | Some x \<Rightarrow> x)"

fun path_elems :: "string list \<Rightarrow> string list" where
  "path_elems [] = []"
| "path_elems [e] = (if e = [] then [''/''] else [path_unescape e])"
| "path_elems (e # es) = path_unescape e # path_elems es"

fun elems_match :: "elem list \<Rightarrow> string list \<Rightarrow> bool" where
  "elems_match [] [] = True"
| "elems_match (Lit l # ps) (e # es) = (l = e \<and> elems_match ps es)"
| "elems_match (Wild # ps) (e # es) = (e \<noteq> ''/'' \<and> elems_match ps es)"
| "elems_match _ _ = False"

fun wild_value :: "elem list \<Rightarrow> string list \<Rightarrow> string" where
  "wild_value (Wild # ps) (e # es) = e"
| "wild_value (Lit l # ps) (e # es) = wild_value ps es"
| "wild_value _ _ = []"

definition specific_first :: "(elem list \<times> endpoint) list \<Rightarrow> (elem list \<times> endpoint) option" where
  "specific_first ms = (case filter (\<lambda>m. Wild \<notin> set (fst m)) ms @ ms of [] \<Rightarrow> None | m # _ \<Rightarrow> Some m)"

definition route_method :: "string \<Rightarrow> string list \<Rightarrow> (elem list \<times> endpoint) option" where
  "route_method meth es = specific_first (map snd (filter (\<lambda>(m, p, _). m = meth \<and> elems_match p es) api_routes))"

datatype routed = Routed endpoint string | Method_not_allowed | Not_found

definition route_api :: "string \<Rightarrow> string list \<Rightarrow> routed" where
  "route_api meth es =
     (case (case route_method meth es of
              Some m \<Rightarrow> Some m | None \<Rightarrow> if meth = ''HEAD'' then route_method ''GET'' es else None) of
        Some (p, e) \<Rightarrow> Routed e (wild_value p es)
      | None \<Rightarrow> if list_ex (\<lambda>(m, p, _). elems_match p es) api_routes then Method_not_allowed else Not_found)"

text \<open>\<open>cleanPath\<close> of \<open>net/http\<close>: \<open>path.Clean\<close> of the rooted path, keeping a trailing slash.\<close>

definition clean_path :: "string \<Rightarrow> string" where
  "clean_path p =
     (let p = (if p = [] then ''/'' else if hd p = slash then p else slash # p); np = path_clean p
      in if last p = slash \<and> np \<noteq> ''/'' then np @ ''/'' else np)"

definition elems_of :: "string \<Rightarrow> string list" where
  "elems_of p = path_elems (split_on slash (tl p))"

text \<open>
  The root of \<open>Handler\<close>: \<open>/api/\<close> with the prefix stripped, and with \<open>legacy\<close> everything
  else too.  A path that is not clean, and \<open>/api\<close> without its slash, are redirected.
\<close>

datatype mount = Redirect string | Api string | Legacy string | No_mount

definition root_mount :: "bool \<Rightarrow> string \<Rightarrow> string \<Rightarrow> mount" where
  "root_mount legacy meth p =
     (let c = (if meth = ''CONNECT'' then p else clean_path p); es = elems_of c in
      if es = [''api''] then Redirect (c @ ''/'')
      else if c \<noteq> p then Redirect c
      else if es \<noteq> [] \<and> hd es = ''api'' then
        (if has_prefix ''/api'' p then Api (drop 4 p) else No_mount)
      else if legacy then Legacy p else No_mount)"

end
