(* ===== verification/Server.thy ===== *)
theory Server
  imports Request Dispatch
begin

section \<open>The server: state, gates and sessions (internal/api: api.go, auth.go)\<close>

text \<open>
  A handler takes the environment of the call (the clock, the random bytes, which database
  calls fail), the request and the server, and returns the response and the server after it.
  The clock is read once per request.  Handlers run one after the other; what may
  happen between two statements of a handler is in the environment.
\<close>

subsection \<open>Responses\<close>

record cookie =
  co_Name :: string
  co_Value :: string
  co_Path :: string
  co_Expires :: "unix option"
  co_MaxAge :: int
  co_HttpOnly :: bool
  co_Secure :: bool
  co_SameSite :: string

text \<open>The bodies, before serialisation.  \<open>Internal\<close> stands for the text of an internal error.\<close>

datatype reply =
    Empty
  | Err string
  | Err_detail string string
  | Err_config config_error
  | Err_auth auth_error
  | Internal
  | R_health unix
  | R_login string unix
  | R_me "string option"
  | R_password_changed
  | R_sites "site_view list"
  | R_site site_view string
  | R_status status
  | R_uptime uptime
  | R_metrics metrics
  | R_errors "error_row list"
  | R_incidents "incident_out list"
  | R_results "result_out list"
  | R_series series
  | R_overview "(site_view \<times> site_overview) list"
  | R_channels "alert_channel list"
  | R_channel alert_channel
  | R_rules "alert_rule list"
  | R_rule alert_rule
  | R_deliveries "alert_delivery list"
  | R_test_sent string

record response =
  rs_Status :: int
  rs_Headers :: "(string \<times> string) list"
  rs_Cookie :: "cookie option"
  rs_Body :: reply

definition write_json :: "int \<Rightarrow> reply \<Rightarrow> response" where
  "write_json st b = \<lparr>rs_Status = st, rs_Headers = [(''Content-Type'', ''application/json'')],
     rs_Cookie = None, rs_Body = b\<rparr>"

definition write_error :: "int \<Rightarrow> string \<Rightarrow> response" where
  "write_error st msg = write_json st (Err msg)"

definition no_content :: response where
  "no_content = \<lparr>rs_Status = 204, rs_Headers = [], rs_Cookie = None, rs_Body = Empty\<rparr>"

subsection \<open>State and environment\<close>

record server =
  srv_Reg :: registry
  srv_Stores :: store_manager
  srv_Sched :: scheduler
  srv_APIKey :: string
  srv_CorsOrigins :: "string list"
  srv_LegacyRoutes :: bool
  srv_SecureCookies :: bool
  srv_RealIPHeader :: string
  srv_Limiter :: limiter
  srv_HasSender :: bool
  srv_DeprecationSeen :: "string \<rightharpoonup> int"

definition new_server :: "registry \<Rightarrow> store_manager \<Rightarrow> scheduler \<Rightarrow> string \<Rightarrow> string list \<Rightarrow> server" where
  "new_server reg stores sched apiKey corsOrigins =
     \<lparr>srv_Reg = reg, srv_Stores = stores, srv_Sched = sched, srv_APIKey = apiKey,
      srv_CorsOrigins = corsOrigins, srv_LegacyRoutes = True, srv_SecureCookies = True,
      srv_RealIPHeader = [], srv_Limiter = new_limiter 0 0, srv_HasSender = False,
      srv_DeprecationSeen = Map.empty\<rparr>"

text \<open>The options that \<open>main\<close> and the tests chain onto \<open>NewServer\<close>.\<close>

definition with_secure_cookies :: "bool \<Rightarrow> server \<Rightarrow> server" where
  "with_secure_cookies on s = s\<lparr>srv_SecureCookies := on\<rparr>"

definition with_sender :: "server \<Rightarrow> server" where
  "with_sender s = s\<lparr>srv_HasSender := True\<rparr>"

definition with_real_ip_header :: "string \<Rightarrow> server \<Rightarrow> server" where
  "with_real_ip_header h s = s\<lparr>srv_RealIPHeader := h\<rparr>"

definition with_legacy_routes :: "bool \<Rightarrow> server \<Rightarrow> server" where
  "with_legacy_routes on s = s\<lparr>srv_LegacyRoutes := on\<rparr>"

lemmas with_defs = with_secure_cookies_def with_sender_def with_real_ip_header_def with_legacy_routes_def

text \<open>
  The database calls of the handlers, each of which may fail.  \<open>sessionUser\<close> runs at the gate
  and again in two handlers, the site is read at the gate and again in the handler.
\<close>

datatype stage = At_gate | In_handler

datatype db_call =
    Lookup_session_call stage | User_by_id_call stage | Touch_session_call stage
  | User_by_name_call | Create_session_call | Delete_session_call
  | List_sites_call | Get_site_call stage | Exists_call | Create_site_call | Update_site_call
  | Delete_site_call | Read_store_call
  | List_channels_call | Get_channel_call | Create_channel_call | Update_channel_call | Delete_channel_call
  | List_rules_call | Get_rule_call | Create_rule_call | Update_rule_call | Delete_rule_call
  | List_deliveries_call

record env =
  ev_Now :: int
  ev_Fault :: "db_call \<Rightarrow> bool"
  ev_PasswordFault :: "password_stmt \<Rightarrow> bool"
  ev_Taken :: bool
  ev_Broken :: "string \<Rightarrow> bool"
  ev_ReadFails :: "overview_read \<Rightarrow> string \<Rightarrow> bool"
  ev_RmFails :: "string \<Rightarrow> bool"
  ev_Entropy :: "string option"
  ev_DummyHash :: string
  ev_Sha256 :: "string \<Rightarrow> string"
  ev_Bcrypt :: "string \<Rightarrow> nat \<Rightarrow> string option"
  ev_Compare :: "string \<Rightarrow> string \<Rightarrow> bool"
  ev_ParseAddress :: "string \<Rightarrow> bool"
  ev_Send :: "string \<Rightarrow> string \<Rightarrow> string \<Rightarrow> string option"

definition now_unix :: "env \<Rightarrow> unix" where
  "now_unix ev = ev_Now ev div 1000000000"

text \<open>A client error of reading the body, or the decoded value.\<close>

definition decode_body :: "(json \<Rightarrow> 'a option) \<Rightarrow> request \<Rightarrow> response + 'a" where
  "decode_body dec r =
     (case rq_Body r of
        Unreadable \<Rightarrow> Inl (write_error 400 ''request body too large or unreadable'')
      | Malformed m \<Rightarrow> Inl (write_json 400 (Err_detail ''invalid JSON: '' m))
      | Parsed j \<Rightarrow> (case dec j of
            None \<Rightarrow> Inl (write_json 400 (Err_detail ''invalid JSON: '' ''type mismatch''))
          | Some v \<Rightarrow> Inr v))"

subsection \<open>Sessions (auth.go)\<close>

definition session_ttl :: int where "session_ttl = 7 * 24 * 3600 * 1000000000"
definition session_renew_after :: int where "session_renew_after = 3600 * 1000000000"

definition session_expiry :: "env \<Rightarrow> unix" where
  "session_expiry ev = (ev_Now ev + session_ttl) div 1000000000"

definition session_user :: "env \<Rightarrow> stage \<Rightarrow> request \<Rightarrow> registry \<Rightarrow> admin_user option \<times> registry" where
  "session_user ev stg r db =
     (case rq_Cookie r of
        None \<Rightarrow> (None, db)
      | Some v \<Rightarrow>
          if v = [] then (None, db)
          else if ev_Fault ev (Lookup_session_call stg) then (None, db)
          else case lookup_session (now_unix ev) (hash_token (ev_Sha256 ev) v) db of
            (db1, Inl _) \<Rightarrow> (None, db1)
          | (db1, Inr sess) \<Rightarrow>
              if ev_Fault ev (User_by_id_call stg) then (None, db1)
              else case admin_user_by_id db1 (se_UserID sess) of
                Inl _ \<Rightarrow> (None, db1)
              | Inr user \<Rightarrow>
                  (Some user,
                   if ev_Now ev - se_LastSeenAt sess * 1000000000 > session_renew_after
                      \<and> \<not> ev_Fault ev (Touch_session_call stg)
                   then touch_session (now_unix ev) (se_ID sess) (session_expiry ev) db1 else db1))"

definition session_ok :: "env \<Rightarrow> stage \<Rightarrow> request \<Rightarrow> registry \<Rightarrow> bool \<times> registry" where
  "session_ok ev stg r db = (let (u, db) = session_user ev stg r db in (u \<noteq> None, db))"

definition session_cookie_for :: "server \<Rightarrow> string \<Rightarrow> unix \<Rightarrow> cookie" where
  "session_cookie_for s token expires = \<lparr>co_Name = ''uptime_session'', co_Value = token, co_Path = ''/'',
     co_Expires = Some expires, co_MaxAge = session_ttl div 1000000000, co_HttpOnly = True,
     co_Secure = srv_SecureCookies s, co_SameSite = ''Lax''\<rparr>"

definition expired_session_cookie :: "server \<Rightarrow> cookie" where
  "expired_session_cookie s = \<lparr>co_Name = ''uptime_session'', co_Value = [], co_Path = ''/'',
     co_Expires = None, co_MaxAge = -1, co_HttpOnly = True,
     co_Secure = srv_SecureCookies s, co_SameSite = ''Lax''\<rparr>"

text \<open>A login counts against the name as it was typed and against the client's address.\<close>

definition throttle_keys :: "string \<Rightarrow> string \<Rightarrow> string list" where
  "throttle_keys username ip = [''user:'' @ username, ''ip:'' @ ip]"

definition handle_login :: "env \<Rightarrow> request \<Rightarrow> server \<Rightarrow> response \<times> server" where
  "handle_login ev r s =
     (case decode_body decode_login r of
        Inl e \<Rightarrow> (e, s)
      | Inr inp \<Rightarrow>
          if lr_Username inp = [] \<or> lr_Password inp = [] then
            (write_error 400 ''username and password are required'', s)
          else
            let ip = client_ip (srv_RealIPHeader s) r;
                keys = throttle_keys (lr_Username inp) ip;
                (ok, lim) = allowed (ev_Now ev) keys (srv_Limiter s); s = s\<lparr>srv_Limiter := lim\<rparr>
            in if \<not> ok then
                 let (retry, lim) = retry_after (ev_Now ev) keys lim in
                 ((write_error 429 ''too many login attempts; try again later'')\<lparr>rs_Headers :=
                    [(''Retry-After'', show_int (quot_trunc retry 1000000000 + 1)),
                     (''Content-Type'', ''application/json'')]\<rparr>, s\<lparr>srv_Limiter := lim\<rparr>)
               else if ev_Fault ev User_by_name_call then (write_error 500 ''login unavailable'', s)
               else
                 let found = admin_user_by_name (srv_Reg s) (lr_Username inp);
                     hash = (case found of Inl _ \<Rightarrow> ev_DummyHash ev | Inr u \<Rightarrow> au_PasswordHash u)
                 in case (check_password (ev_Compare ev) hash (lr_Password inp), found) of
                      (True, Inr user) \<Rightarrow>
                        (case new_session_token (ev_Sha256 ev) (ev_Entropy ev) of
                           Inl _ \<Rightarrow> (write_error 500 ''could not start session'', s)
                         | Inr (token, sid) \<Rightarrow>
                             let expires = session_expiry ev in
                             if ev_Fault ev Create_session_call then (write_error 500 ''could not start session'', s)
                             else case create_session (now_unix ev) sid (au_ID user) expires (srv_Reg s) of
                               Inl _ \<Rightarrow> (write_error 500 ''could not start session'', s)
                             | Inr db \<Rightarrow>
                                 ((write_json 200 (R_login (au_Username user) expires))\<lparr>rs_Cookie :=
                                    Some (session_cookie_for s token expires)\<rparr>,
                                  s\<lparr>srv_Reg := db, srv_Limiter := reset keys (srv_Limiter s)\<rparr>))
                    | _ \<Rightarrow> (write_error 401 ''invalid username or password'',
                           s\<lparr>srv_Limiter := record_failure (ev_Now ev) keys (srv_Limiter s)\<rparr>))"

definition handle_logout :: "env \<Rightarrow> request \<Rightarrow> server \<Rightarrow> response \<times> server" where
  "handle_logout ev r s =
     (no_content\<lparr>rs_Cookie := Some (expired_session_cookie s)\<rparr>,
      case rq_Cookie r of
        None \<Rightarrow> s
      | Some v \<Rightarrow> if v = [] \<or> ev_Fault ev Delete_session_call then s
          else s\<lparr>srv_Reg := delete_session (hash_token (ev_Sha256 ev) v) (srv_Reg s)\<rparr>)"

definition handle_me :: "env \<Rightarrow> request \<Rightarrow> server \<Rightarrow> response \<times> server" where
  "handle_me ev r s =
     (let (u, db) = session_user ev In_handler r (srv_Reg s); s = s\<lparr>srv_Reg := db\<rparr>
      in (write_json 200 (R_me (map_option au_Username u)), s))"

definition handle_change_password :: "env \<Rightarrow> request \<Rightarrow> server \<Rightarrow> response \<times> server" where
  "handle_change_password ev r s =
     (let (u, db) = session_user ev In_handler r (srv_Reg s); s = s\<lparr>srv_Reg := db\<rparr> in
      case u of
        None \<Rightarrow> (write_error 403 ''password changes require a logged-in session, not an API key'', s)
      | Some user \<Rightarrow>
          (case decode_body decode_password r of
             Inl e \<Rightarrow> (e, s)
           | Inr inp \<Rightarrow>
               if \<not> check_password (ev_Compare ev) (au_PasswordHash user) (pr_CurrentPassword inp) then
                 (write_error 401 ''current password is incorrect'', s)
               else case hash_password (ev_Bcrypt ev) (pr_NewPassword inp) of
                 Inl e \<Rightarrow> (write_json 400 (Err_auth e), s)
               | Inr hash \<Rightarrow>
                   (case set_admin_password (ev_PasswordFault ev) (now_unix ev) (au_ID user) hash (srv_Reg s) of
                      (db, Some _) \<Rightarrow> (write_error 500 ''could not update password'', s\<lparr>srv_Reg := db\<rparr>)
                    | (db, None) \<Rightarrow>
                        ((write_json 200 R_password_changed)\<lparr>rs_Cookie := Some (expired_session_cookie s)\<rparr>,
                         s\<lparr>srv_Reg := db\<rparr>))))"

subsection \<open>Gates (api.go)\<close>

definition admin_ok :: "env \<Rightarrow> request \<Rightarrow> server \<Rightarrow> bool \<times> server" where
  "admin_ok ev r s =
     (if srv_APIKey s \<noteq> [] \<and> key_matches (header_get ''X-API-Key'' r) (srv_APIKey s) then (True, s)
      else let (ok, db) = session_ok ev At_gate r (srv_Reg s) in (ok, s\<lparr>srv_Reg := db\<rparr>))"

definition require_admin :: "env \<Rightarrow> (request \<Rightarrow> server \<Rightarrow> response \<times> server) \<Rightarrow> request \<Rightarrow> server \<Rightarrow> response \<times> server" where
  "require_admin ev nxt r s =
     (let (ok, s) = admin_ok ev r s in
      if ok then nxt r s else (write_error 401 ''admin credentials required'', s))"

text \<open>\<open>handleRegistryErr\<close>, \<open>handleAlertErr\<close> and the read of a site with its possible fault.\<close>

definition registry_err :: "storage_error \<Rightarrow> response" where
  "registry_err e = (if e = ErrNotFound then write_error 404 ''site not found'' else write_json 500 Internal)"

definition alert_err :: "storage_error \<Rightarrow> response" where
  "alert_err e = (if e = ErrAlertNotFound then write_error 404 ''not found'' else write_json 500 Internal)"

definition faulty :: "env \<Rightarrow> db_call \<Rightarrow> storage_error + 'a \<Rightarrow> storage_error + 'a" where
  "faulty ev c res = (if ev_Fault ev c then Inl Db_failure else res)"

definition require_site_read :: "env \<Rightarrow> string \<Rightarrow> (request \<Rightarrow> server \<Rightarrow> response \<times> server) \<Rightarrow>
    request \<Rightarrow> server \<Rightarrow> response \<times> server" where
  "require_site_read ev site nxt r s =
     (case faulty ev (Get_site_call At_gate) (registry_get (srv_Reg s) site) of
        Inl e \<Rightarrow> (registry_err e, s)
      | Inr cfg \<Rightarrow>
          let (ok, s) = admin_ok ev r s in
          if ok then nxt r s
          else if sc_APIKeyHash cfg \<noteq> [] \<and>
            key_matches (hash_api_key (ev_Sha256 ev) (header_get ''X-API-Key'' r)) (sc_APIKeyHash cfg)
          then nxt r s
          else (write_error 401 ''valid API key required for this site'', s))"

end
