(* ===== verification/Api.thy ===== *)
theory Api
  imports Server
begin

section \<open>The handlers and the router (internal/api: api.go, alerts.go)\<close>

text \<open>
  One definition per handler, in the order of the source, and \<open>serve\<close>, which is \<open>Handler\<close>:
  CORS, the mount under \<open>/api\<close> and the legacy mount, the routes, the gate of each route, the
  handler.
\<close>

subsection \<open>Site configuration\<close>

definition handle_health :: "env \<Rightarrow> request \<Rightarrow> server \<Rightarrow> response \<times> server" where
  "handle_health ev r s = (write_json 200 (R_health (now_unix ev)), s)"

definition handle_list_sites :: "env \<Rightarrow> request \<Rightarrow> server \<Rightarrow> response \<times> server" where
  "handle_list_sites ev r s =
     (if ev_Fault ev List_sites_call then (write_json 500 Internal, s)
      else (write_json 200 (R_sites (map marshal_site (registry_list (srv_Reg s)))), s))"

text \<open>\<open>randomKey\<close> with the bytes of \<open>rand.Read\<close>, and the key of a create or update body.\<close>

definition random_key :: "string option \<Rightarrow> string option" where
  "random_key entropy = map_option hex_encode entropy"

definition resolve_site_key :: "env \<Rightarrow> json \<Rightarrow> string \<Rightarrow> (string \<times> string) option" where
  "resolve_site_key ev j existingHash =
     (case decode_key_input j of
        None \<Rightarrow> None
      | Some inp \<Rightarrow>
          if ki_GenerateKey inp then
            (case random_key (ev_Entropy ev) of
               None \<Rightarrow> None | Some key \<Rightarrow> Some (hash_api_key (ev_Sha256 ev) key, key))
          else case ki_APIKey inp of
            Some key \<Rightarrow> if key \<noteq> [] then Some (hash_api_key (ev_Sha256 ev) key, []) else Some ([], [])
          | None \<Rightarrow> Some (existingHash, []))"

text \<open>\<open>writeSite\<close>: the site as clients see it, with the generated key when there is one.\<close>

definition write_site :: "int \<Rightarrow> site_config \<Rightarrow> string \<Rightarrow> response" where
  "write_site st site oneTimeKey = write_json st (R_site (marshal_site site) oneTimeKey)"

definition body_json :: "request \<Rightarrow> json" where
  "body_json r = (case rq_Body r of Parsed j \<Rightarrow> j | _ \<Rightarrow> J_null)"

text \<open>\<open>ev_Taken\<close>: another request created the id between \<open>Exists\<close> and \<open>Create\<close>.\<close>

definition insert_new_site :: "env \<Rightarrow> site_config \<Rightarrow> registry \<Rightarrow> storage_error + registry" where
  "insert_new_site ev site db =
     (if ev_Taken ev then Inl Unique_violation else faulty ev Create_site_call (registry_create site db))"

definition handle_create_site :: "env \<Rightarrow> request \<Rightarrow> server \<Rightarrow> response \<times> server" where
  "handle_create_site ev r s =
     (case decode_body decode_site r of
        Inl e \<Rightarrow> (e, s)
      | Inr site \<Rightarrow>
          let site = (if probe_enabled (body_json r) = None then site\<lparr>sc_Enabled := True\<rparr> else site);
              site = apply_defaults site
          in case validate site of
            Some e \<Rightarrow> (write_json 400 (Err_config e), s)
          | None \<Rightarrow>
              (case resolve_site_key ev (body_json r) [] of
                 None \<Rightarrow> (write_error 500 ''key generation failed'', s)
               | Some (hash, oneTimeKey) \<Rightarrow>
                   let site = site\<lparr>sc_APIKeyHash := hash\<rparr> in
                   if ev_Fault ev Exists_call then (write_json 500 Internal, s)
                   else if registry_exists (srv_Reg s) (sc_ID site) then
                     (write_error 409 (''site id already exists: '' @ sc_ID site), s)
                   else
                     let site = site\<lparr>sc_CreatedAt := now_unix ev, sc_UpdatedAt := now_unix ev\<rparr> in
                     case insert_new_site ev site (srv_Reg s) of
                       Inl e \<Rightarrow>
                         (if e = Unique_violation then write_error 409 (''site id already exists: '' @ sc_ID site)
                          else write_json 500 Internal, s)
                     | Inr db \<Rightarrow>
                         let s = s\<lparr>srv_Reg := db\<rparr>;
                             s = s\<lparr>srv_Stores := snd (manager_get (ev_Broken ev) (now_unix ev) (sc_ID site) (srv_Stores s))\<rparr>;
                             s = (if sc_Enabled site then s\<lparr>srv_Sched := start site (srv_Sched s)\<rparr> else s)
                         in (write_site 201 site oneTimeKey, s)))"

definition handle_get_site :: "env \<Rightarrow> string \<Rightarrow> request \<Rightarrow> server \<Rightarrow> response \<times> server" where
  "handle_get_site ev site r s =
     (case faulty ev (Get_site_call In_handler) (registry_get (srv_Reg s) site) of
        Inl e \<Rightarrow> (registry_err e, s)
      | Inr cfg \<Rightarrow> (write_json 200 (R_site (marshal_site cfg) []), s))"

definition handle_update_site :: "env \<Rightarrow> string \<Rightarrow> request \<Rightarrow> server \<Rightarrow> response \<times> server" where
  "handle_update_site ev site_id r s =
     (case faulty ev (Get_site_call In_handler) (registry_get (srv_Reg s) site_id) of
        Inl e \<Rightarrow> (registry_err e, s)
      | Inr existing \<Rightarrow>
          (case decode_body decode_site r of
             Inl e \<Rightarrow> (e, s)
           | Inr site \<Rightarrow>
               let site = apply_defaults (site\<lparr>sc_ID := site_id, sc_CreatedAt := sc_CreatedAt existing\<rparr>) in
               case validate site of
                 Some e \<Rightarrow> (write_json 400 (Err_config e), s)
               | None \<Rightarrow>
                   (case resolve_site_key ev (body_json r) (sc_APIKeyHash existing) of
                      None \<Rightarrow> (write_error 500 ''key generation failed'', s)
                    | Some (hash, oneTimeKey) \<Rightarrow>
                        let site = site\<lparr>sc_APIKeyHash := hash, sc_UpdatedAt := now_unix ev\<rparr> in
                        case faulty ev Update_site_call (registry_update site (srv_Reg s)) of
                          Inl e \<Rightarrow> (registry_err e, s)
                        | Inr db \<Rightarrow>
                            (write_site 200 site oneTimeKey,
                             s\<lparr>srv_Reg := db, srv_Sched := restart site (srv_Sched s)\<rparr>))))"

definition handle_delete_site :: "env \<Rightarrow> string \<Rightarrow> request \<Rightarrow> server \<Rightarrow> response \<times> server" where
  "handle_delete_site ev site_id r s =
     (let purge = (query_get ''purge'' r = ''true'') in
      case faulty ev Delete_site_call (registry_delete site_id (srv_Reg s)) of
        Inl e \<Rightarrow> (registry_err e, s)
      | Inr db \<Rightarrow>
          let s = s\<lparr>srv_Reg := db, srv_Sched := stop site_id (srv_Sched s)\<rparr>;
              s = (if purge then s\<lparr>srv_Stores := snd (manager_delete (ev_RmFails ev) site_id (srv_Stores s))\<rparr> else s)
          in (no_content, s))"

subsection \<open>Data endpoints\<close>

definition store_for :: "env \<Rightarrow> string \<Rightarrow> server \<Rightarrow> (response + site_db) \<times> server" where
  "store_for ev site s =
     (case faulty ev (Get_site_call In_handler) (registry_get (srv_Reg s) site) of
        Inl e \<Rightarrow> (Inl (registry_err e), s)
      | Inr _ \<Rightarrow>
          (case manager_get (ev_Broken ev) (now_unix ev) site (srv_Stores s) of
             (Inl _, m) \<Rightarrow> (Inl (write_json 500 Internal), s\<lparr>srv_Stores := m\<rparr>)
           | (Inr db, m) \<Rightarrow> (Inr db, s\<lparr>srv_Stores := m\<rparr>)))"

text \<open>Each data handler resolves the store, runs one query that may fail, and writes it.\<close>

definition read_store :: "env \<Rightarrow> string \<Rightarrow> (site_db \<Rightarrow> reply) \<Rightarrow> server \<Rightarrow> response \<times> server" where
  "read_store ev site query s =
     (case store_for ev site s of
        (Inl e, s) \<Rightarrow> (e, s)
      | (Inr db, s) \<Rightarrow>
          if ev_Fault ev Read_store_call then (write_json 500 Internal, s)
          else (write_json 200 (query db), s))"

definition handle_status :: "env \<Rightarrow> string \<Rightarrow> request \<Rightarrow> server \<Rightarrow> response \<times> server" where
  "handle_status ev site r s = read_store ev site (\<lambda>db. R_status (site_status db)) s"

definition handle_uptime :: "env \<Rightarrow> string \<Rightarrow> request \<Rightarrow> server \<Rightarrow> response \<times> server" where
  "handle_uptime ev site r s = read_store ev site (\<lambda>db.
     let (window, since) = parse_window (now_unix ev) r in R_uptime (site_uptime window since db)) s"

definition handle_metrics :: "env \<Rightarrow> string \<Rightarrow> request \<Rightarrow> server \<Rightarrow> response \<times> server" where
  "handle_metrics ev site r s = read_store ev site (\<lambda>db.
     let (window, since) = parse_window (now_unix ev) r in R_metrics (site_metrics window since db)) s"

definition handle_errors :: "env \<Rightarrow> string \<Rightarrow> request \<Rightarrow> server \<Rightarrow> response \<times> server" where
  "handle_errors ev site r s =
     read_store ev site (\<lambda>db. R_errors (site_errors (since_param r) (limit_param r 100) db)) s"

definition handle_incidents :: "env \<Rightarrow> string \<Rightarrow> request \<Rightarrow> server \<Rightarrow> response \<times> server" where
  "handle_incidents ev site r s =
     read_store ev site (\<lambda>db. R_incidents (site_incidents (limit_param r 100) db)) s"

definition handle_results :: "env \<Rightarrow> string \<Rightarrow> request \<Rightarrow> server \<Rightarrow> response \<times> server" where
  "handle_results ev site r s =
     read_store ev site (\<lambda>db. R_results (site_results (since_param r) (limit_param r 100) db)) s"

definition handle_series :: "env \<Rightarrow> string \<Rightarrow> request \<Rightarrow> server \<Rightarrow> response \<times> server" where
  "handle_series ev site r s = read_store ev site (\<lambda>db.
     let (window, since) = parse_window (now_unix ev) r in
     R_series (site_series (now_unix ev) window since (buckets_param r) db)) s"

definition handle_overview :: "env \<Rightarrow> request \<Rightarrow> server \<Rightarrow> response \<times> server" where
  "handle_overview ev r s =
     (let (window, since) = parse_window (now_unix ev) r in
      if ev_Fault ev List_sites_call then (write_json 500 Internal, s)
      else let (rows, m) = overview (ev_ReadFails ev) (ev_Broken ev) (now_unix ev) window since (srv_Reg s) (srv_Stores s)
        in (write_json 200 (R_overview (map (\<lambda>row. (marshal_site (ov_Site row), row\<lparr>ov_Site := zero_site\<rparr>)) rows)),
            s\<lparr>srv_Stores := m\<rparr>))"

subsection \<open>Alert configuration (alerts.go)\<close>

definition handle_list_channels :: "env \<Rightarrow> request \<Rightarrow> server \<Rightarrow> response \<times> server" where
  "handle_list_channels ev r s =
     (if ev_Fault ev List_channels_call then (write_json 500 Internal, s)
      else (write_json 200 (R_channels (list_alert_channels (srv_Reg s))), s))"

definition decode_channel :: "env \<Rightarrow> request \<Rightarrow> response + channel_input" where
  "decode_channel ev r =
     (case decode_body decode_channel_input r of
        Inl e \<Rightarrow> Inl e
      | Inr inp \<Rightarrow>
          let inp = inp\<lparr>ci_Name := trim_space (ci_Name inp), ci_Target := trim_space (ci_Target inp),
                      ci_Type := trim_space (ci_Type inp)\<rparr>;
              inp = (if ci_Type inp = [] then inp\<lparr>ci_Type := ''email''\<rparr> else inp)
          in if ci_Type inp \<noteq> ''email'' then Inl (write_error 400 ''type must be \"email\"'')
             else if ci_Name inp = [] then Inl (write_error 400 ''name is required'')
             else if \<not> ev_ParseAddress ev (ci_Target inp) then
               Inl (write_error 400 ''target must be a valid email address'')
             else Inr inp)"

definition handle_create_channel :: "env \<Rightarrow> request \<Rightarrow> server \<Rightarrow> response \<times> server" where
  "handle_create_channel ev r s =
     (case decode_channel ev r of
        Inl e \<Rightarrow> (e, s)
      | Inr inp \<Rightarrow>
          let enabled = (case ci_Enabled inp of None \<Rightarrow> True | Some b \<Rightarrow> b) in
          if ev_Fault ev Create_channel_call then (write_json 500 Internal, s)
          else let (ch, db) = create_alert_channel (now_unix ev) \<lparr>ch_ID = 0, ch_Name = ci_Name inp,
                     ch_Type = ci_Type inp, ch_Target = ci_Target inp, ch_Enabled = enabled,
                     ch_CreatedAt = 0, ch_UpdatedAt = 0\<rparr> (srv_Reg s)
            in (write_json 201 (R_channel ch), s\<lparr>srv_Reg := db\<rparr>))"

definition handle_update_channel :: "env \<Rightarrow> string \<Rightarrow> request \<Rightarrow> server \<Rightarrow> response \<times> server" where
  "handle_update_channel ev pv r s =
     (case path_id pv of
        None \<Rightarrow> (write_error 400 ''invalid channel id'', s)
      | Some i \<Rightarrow>
          (case faulty ev Get_channel_call (get_alert_channel (srv_Reg s) i) of
             Inl e \<Rightarrow> (alert_err e, s)
           | Inr existing \<Rightarrow>
               (case decode_channel ev r of
                  Inl e \<Rightarrow> (e, s)
                | Inr inp \<Rightarrow>
                    let ch = existing\<lparr>ch_Name := ci_Name inp, ch_Type := ci_Type inp, ch_Target := ci_Target inp\<rparr>;
                        ch = (case ci_Enabled inp of None \<Rightarrow> ch | Some b \<Rightarrow> ch\<lparr>ch_Enabled := b\<rparr>)
                    in case faulty ev Update_channel_call (update_alert_channel (now_unix ev) ch (srv_Reg s)) of
                         Inl e \<Rightarrow> (alert_err e, s)
                       | Inr db \<Rightarrow> (write_json 200 (R_channel ch), s\<lparr>srv_Reg := db\<rparr>))))"

definition handle_delete_channel :: "env \<Rightarrow> string \<Rightarrow> request \<Rightarrow> server \<Rightarrow> response \<times> server" where
  "handle_delete_channel ev pv r s =
     (case path_id pv of
        None \<Rightarrow> (write_error 400 ''invalid channel id'', s)
      | Some i \<Rightarrow>
          (case faulty ev Delete_channel_call (delete_alert_channel i (srv_Reg s)) of
             Inl e \<Rightarrow> (alert_err e, s)
           | Inr db \<Rightarrow> (no_content, s\<lparr>srv_Reg := db\<rparr>)))"

definition test_subject :: string where "test_subject = ''[TEST] uptime-monitor alert''"

definition test_body :: string where
  "test_body = ''This is a test alert from uptime-monitor.'' @ [CHR 0x0A, CHR 0x0A] @
     ''If you received this, alert delivery is configured correctly.'' @ [CHR 0x0A]"

definition handle_test_channel :: "env \<Rightarrow> string \<Rightarrow> request \<Rightarrow> server \<Rightarrow> response \<times> server" where
  "handle_test_channel ev pv r s =
     (case path_id pv of
        None \<Rightarrow> (write_error 400 ''invalid channel id'', s)
      | Some i \<Rightarrow>
          (case faulty ev Get_channel_call (get_alert_channel (srv_Reg s) i) of
             Inl e \<Rightarrow> (alert_err e, s)
           | Inr ch \<Rightarrow>
               if \<not> srv_HasSender s then
                 (write_error 503 ''no mail transport configured; set UPTIME_SMTP_HOST and UPTIME_SMTP_FROM'', s)
               else case ev_Send ev (ch_Target ch) test_subject test_body of
                 Some e \<Rightarrow> (write_json 502 (Err_detail ''send failed: '' e), s)
               | None \<Rightarrow> (write_json 200 (R_test_sent (ch_Target ch)), s)))"

definition handle_list_rules :: "env \<Rightarrow> request \<Rightarrow> server \<Rightarrow> response \<times> server" where
  "handle_list_rules ev r s =
     (if ev_Fault ev List_rules_call then (write_json 500 Internal, s)
      else (write_json 200 (R_rules (list_alert_rules (srv_Reg s))), s))"

definition decode_rule :: "env \<Rightarrow> request \<Rightarrow> registry \<Rightarrow> response + rule_input" where
  "decode_rule ev r db =
     (case decode_body decode_rule_input r of
        Inl e \<Rightarrow> Inl e
      | Inr inp \<Rightarrow>
          if \<not> valid_alert_kind (ri_Kind inp) then
            Inl (write_error 400 ''kind must be one of site_down, site_recovered, ssl_expiring'')
          else if is_err (faulty ev Get_channel_call (get_alert_channel db (ri_ChannelID inp))) then
            Inl (write_error 400 ''channel_id does not exist'')
          else
            let confirm = (\<lambda>inp. case ri_ConfirmAfter inp of
                  None \<Rightarrow> Inr inp
                | Some n \<Rightarrow> if n < 1 \<or> n > 100 then Inl (write_error 400 ''confirm_after must be between 1 and 100'')
                    else Inr inp)
            in case ri_SiteID inp of
                 None \<Rightarrow> confirm inp
               | Some site \<Rightarrow>
                   if site = [] then confirm (inp\<lparr>ri_SiteID := None\<rparr>)
                   else if ev_Fault ev Exists_call then Inl (write_json 500 Internal)
                   else if \<not> registry_exists db site then Inl (write_error 400 ''site_id does not exist'')
                   else confirm inp)"

definition handle_create_rule :: "env \<Rightarrow> request \<Rightarrow> server \<Rightarrow> response \<times> server" where
  "handle_create_rule ev r s =
     (case decode_rule ev r (srv_Reg s) of
        Inl e \<Rightarrow> (e, s)
      | Inr inp \<Rightarrow>
          let rule = \<lparr>ru_ID = 0, ru_SiteID = ri_SiteID inp, ru_ChannelID = ri_ChannelID inp, ru_Kind = ri_Kind inp,
                ru_Enabled = (case ri_Enabled inp of None \<Rightarrow> True | Some b \<Rightarrow> b),
                ru_ConfirmAfter = (case ri_ConfirmAfter inp of None \<Rightarrow> 2 | Some n \<Rightarrow> n),
                ru_CreatedAt = 0, ru_UpdatedAt = 0\<rparr>
          in case faulty ev Create_rule_call (create_alert_rule (now_unix ev) rule (srv_Reg s)) of
               Inl e \<Rightarrow> (write_json 500 Internal, s)
             | Inr (created, db) \<Rightarrow> (write_json 201 (R_rule created), s\<lparr>srv_Reg := db\<rparr>))"

text \<open>The route's \<open>{id}\<close> is parsed before the rule is read, and the body after it.\<close>

definition handle_update_rule :: "env \<Rightarrow> string \<Rightarrow> request \<Rightarrow> server \<Rightarrow> response \<times> server" where
  "handle_update_rule ev pv r s =
     (case path_id pv of
        None \<Rightarrow> (write_error 400 ''invalid rule id'', s)
      | Some i \<Rightarrow>
          (case faulty ev Get_rule_call (get_alert_rule (srv_Reg s) i) of
             Inl e \<Rightarrow> (alert_err e, s)
           | Inr existing \<Rightarrow>
               (case decode_rule ev r (srv_Reg s) of
                  Inl e \<Rightarrow> (e, s)
                | Inr inp \<Rightarrow>
                    let rule = existing\<lparr>ru_SiteID := ri_SiteID inp, ru_ChannelID := ri_ChannelID inp, ru_Kind := ri_Kind inp\<rparr>;
                        rule = (case ri_Enabled inp of None \<Rightarrow> rule | Some b \<Rightarrow> rule\<lparr>ru_Enabled := b\<rparr>);
                        rule = (case ri_ConfirmAfter inp of None \<Rightarrow> rule | Some n \<Rightarrow> rule\<lparr>ru_ConfirmAfter := n\<rparr>)
                    in case faulty ev Update_rule_call (update_alert_rule (now_unix ev) rule (srv_Reg s)) of
                         Inl e \<Rightarrow> (alert_err e, s)
                       | Inr db \<Rightarrow> (write_json 200 (R_rule rule), s\<lparr>srv_Reg := db\<rparr>))))"

definition handle_delete_rule :: "env \<Rightarrow> string \<Rightarrow> request \<Rightarrow> server \<Rightarrow> response \<times> server" where
  "handle_delete_rule ev pv r s =
     (case path_id pv of
        None \<Rightarrow> (write_error 400 ''invalid rule id'', s)
      | Some i \<Rightarrow>
          (case faulty ev Delete_rule_call (delete_alert_rule i (srv_Reg s)) of
             Inl e \<Rightarrow> (alert_err e, s)
           | Inr db \<Rightarrow> (no_content, s\<lparr>srv_Reg := db\<rparr>)))"

definition handle_list_deliveries :: "env \<Rightarrow> request \<Rightarrow> server \<Rightarrow> response \<times> server" where
  "handle_list_deliveries ev r s =
     (if ev_Fault ev List_deliveries_call then (write_json 500 Internal, s)
      else (write_json 200 (R_deliveries (list_alert_deliveries (query_get ''site_id'' r) (limit_param r 100) (srv_Reg s))), s))"

subsection \<open>The router\<close>

text \<open>The gate and the handler of each route, as \<open>apiMux\<close> registers them.\<close>

fun dispatch :: "env \<Rightarrow> endpoint \<Rightarrow> string \<Rightarrow> request \<Rightarrow> server \<Rightarrow> response \<times> server" where
  "dispatch ev E_Health pv = handle_health ev"
| "dispatch ev E_Login pv = handle_login ev"
| "dispatch ev E_Logout pv = handle_logout ev"
| "dispatch ev E_Me pv = require_admin ev (handle_me ev)"
| "dispatch ev E_Change_password pv = require_admin ev (handle_change_password ev)"
| "dispatch ev E_List_sites pv = require_admin ev (handle_list_sites ev)"
| "dispatch ev E_Create_site pv = require_admin ev (handle_create_site ev)"
| "dispatch ev E_Get_site pv = require_admin ev (handle_get_site ev pv)"
| "dispatch ev E_Update_site pv = require_admin ev (handle_update_site ev pv)"
| "dispatch ev E_Delete_site pv = require_admin ev (handle_delete_site ev pv)"
| "dispatch ev E_List_channels pv = require_admin ev (handle_list_channels ev)"
| "dispatch ev E_Create_channel pv = require_admin ev (handle_create_channel ev)"
| "dispatch ev E_Update_channel pv = require_admin ev (handle_update_channel ev pv)"
| "dispatch ev E_Delete_channel pv = require_admin ev (handle_delete_channel ev pv)"
| "dispatch ev E_Test_channel pv = require_admin ev (handle_test_channel ev pv)"
| "dispatch ev E_List_rules pv = require_admin ev (handle_list_rules ev)"
| "dispatch ev E_Create_rule pv = require_admin ev (handle_create_rule ev)"
| "dispatch ev E_Update_rule pv = require_admin ev (handle_update_rule ev pv)"
| "dispatch ev E_Delete_rule pv = require_admin ev (handle_delete_rule ev pv)"
| "dispatch ev E_List_deliveries pv = require_admin ev (handle_list_deliveries ev)"
| "dispatch ev E_Overview pv = require_admin ev (handle_overview ev)"
| "dispatch ev E_Series pv = require_site_read ev pv (handle_series ev pv)"
| "dispatch ev E_Status pv = require_site_read ev pv (handle_status ev pv)"
| "dispatch ev E_Uptime pv = require_site_read ev pv (handle_uptime ev pv)"
| "dispatch ev E_Metrics pv = require_site_read ev pv (handle_metrics ev pv)"
| "dispatch ev E_Errors pv = require_site_read ev pv (handle_errors ev pv)"
| "dispatch ev E_Incidents pv = require_site_read ev pv (handle_incidents ev pv)"
| "dispatch ev E_Results pv = require_site_read ev pv (handle_results ev pv)"

definition plain_reply :: "int \<Rightarrow> response" where
  "plain_reply st = \<lparr>rs_Status = st, rs_Headers = [], rs_Cookie = None, rs_Body = Empty\<rparr>"

definition api_mux :: "env \<Rightarrow> string \<Rightarrow> request \<Rightarrow> server \<Rightarrow> response \<times> server" where
  "api_mux ev p r s =
     (case route_api (rq_Method r) (elems_of p) of
        Routed e pv \<Rightarrow> dispatch ev e pv r s
      | Method_not_allowed \<Rightarrow> (plain_reply 405, s)
      | Not_found \<Rightarrow> (plain_reply 404, s))"

definition deprecation_log_every :: int where "deprecation_log_every = 3600 * 1000000000"

definition should_log_deprecation :: "int \<Rightarrow> string \<Rightarrow> (string \<rightharpoonup> int) \<Rightarrow> bool \<times> (string \<rightharpoonup> int)" where
  "should_log_deprecation now p seen =
     (case seen p of
        Some t \<Rightarrow> if now - t < deprecation_log_every then (False, seen) else (True, seen(p \<mapsto> now))
      | None \<Rightarrow> (True, seen(p \<mapsto> now)))"

definition warn_deprecated :: "env \<Rightarrow> string \<Rightarrow> (request \<Rightarrow> server \<Rightarrow> response \<times> server) \<Rightarrow>
    request \<Rightarrow> server \<Rightarrow> response \<times> server" where
  "warn_deprecated ev p nxt r s =
     nxt r (s\<lparr>srv_DeprecationSeen := snd (should_log_deprecation (ev_Now ev) (path_unescape p) (srv_DeprecationSeen s))\<rparr>)"

definition cors_headers :: "string \<Rightarrow> (string \<times> string) list" where
  "cors_headers origin =
     [(''Access-Control-Allow-Origin'', origin), (''Vary'', ''Origin''),
      (''Access-Control-Allow-Methods'', ''GET, POST, PUT, DELETE, OPTIONS''),
      (''Access-Control-Allow-Headers'', ''X-API-Key, Content-Type''),
      (''Access-Control-Max-Age'', ''600'')]"

definition with_cors :: "(request \<Rightarrow> server \<Rightarrow> response \<times> server) \<Rightarrow> request \<Rightarrow> server \<Rightarrow> response \<times> server" where
  "with_cors nxt r s =
     (let origin = header_get ''Origin'' r;
          h = (if origin \<noteq> [] \<and> origin_allowed (srv_CorsOrigins s) origin then cors_headers origin else []);
          (resp, s) = (if rq_Method r = ''OPTIONS'' then (plain_reply 204, s) else nxt r s)
      in (resp\<lparr>rs_Headers := h @ rs_Headers resp\<rparr>, s))"

definition root_handler :: "env \<Rightarrow> request \<Rightarrow> server \<Rightarrow> response \<times> server" where
  "root_handler ev r s =
     (case root_mount (srv_LegacyRoutes s) (rq_Method r) (rq_Path r) of
        Redirect p \<Rightarrow> ((plain_reply 301)\<lparr>rs_Headers := [(''Location'', p)]\<rparr>, s)
      | Api p \<Rightarrow> api_mux ev p r s
      | Legacy p \<Rightarrow> warn_deprecated ev p (api_mux ev p) r s
      | No_mount \<Rightarrow> (plain_reply 404, s))"

definition serve :: "env \<Rightarrow> request \<Rightarrow> server \<Rightarrow> response \<times> server" where
  "serve ev r s = with_cors (root_handler ev) r s"

end
