(* ===== verification/Access.thy ===== *)
theory Access
  imports Api RegistryLaws
begin

section \<open>Who may do what (the two gates over the whole router)\<close>

text \<open>
  The comment over \<open>Handler\<close> promises two tiers that fail closed.  \<open>granted\<close> states them on
  the data: the admin key or a live session of an existing account for everything, the site's
  own key for the data endpoints of that site.  The theorems show that \<open>serve\<close> gives a request
  exactly what it is granted, for every route, method and mount.
\<close>

subsection \<open>The credentials\<close>

lemma key_matches_iff [simp]: "key_matches a b \<longleftrightarrow> a = b"
  using tokens_equal_iff by (simp add: key_matches_def tokens_equal_def)

definition admin_key :: "request \<Rightarrow> server \<Rightarrow> bool" where
  "admin_key r s \<longleftrightarrow> srv_APIKey s \<noteq> [] \<and> header_get ''X-API-Key'' r = srv_APIKey s"

text \<open>The account of a live session whose cookie the request carries.\<close>

definition session_account :: "env \<Rightarrow> request \<Rightarrow> registry \<Rightarrow> admin_user option" where
  "session_account ev r db =
     (case rq_Cookie r of
        None \<Rightarrow> None
      | Some v \<Rightarrow> if v = [] then None
          else case live (now_unix ev) (hash_token (ev_Sha256 ev) v) db of
            None \<Rightarrow> None
          | Some sess \<Rightarrow> tbl_find au_ID (se_UserID sess) (rg_Users db))"

definition admin_credential :: "env \<Rightarrow> request \<Rightarrow> server \<Rightarrow> bool" where
  "admin_credential ev r s \<longleftrightarrow> admin_key r s \<or> session_account ev r (srv_Reg s) \<noteq> None"

definition site_credential :: "env \<Rightarrow> string \<Rightarrow> request \<Rightarrow> server \<Rightarrow> bool" where
  "site_credential ev site r s \<longleftrightarrow>
     (case site_lookup (srv_Reg s) site of
        None \<Rightarrow> False
      | Some cfg \<Rightarrow> sc_APIKeyHash cfg \<noteq> [] \<and>
          hash_api_key (ev_Sha256 ev) (header_get ''X-API-Key'' r) = sc_APIKeyHash cfg)"

datatype tier = Public | Admin_tier | Site_tier

fun tier_of :: "endpoint \<Rightarrow> tier" where
  "tier_of E_Health = Public" | "tier_of E_Login = Public" | "tier_of E_Logout = Public"
| "tier_of E_Series = Site_tier" | "tier_of E_Status = Site_tier" | "tier_of E_Uptime = Site_tier"
| "tier_of E_Metrics = Site_tier" | "tier_of E_Errors = Site_tier" | "tier_of E_Incidents = Site_tier"
| "tier_of E_Results = Site_tier"
| "tier_of _ = Admin_tier"

definition granted :: "env \<Rightarrow> endpoint \<Rightarrow> string \<Rightarrow> request \<Rightarrow> server \<Rightarrow> bool" where
  "granted ev e pv r s \<longleftrightarrow>
     (case tier_of e of
        Public \<Rightarrow> True
      | Admin_tier \<Rightarrow> admin_credential ev r s
      | Site_tier \<Rightarrow> site_lookup (srv_Reg s) pv \<noteq> None \<and> (admin_credential ev r s \<or> site_credential ev pv r s))"

text \<open>The endpoint a request addresses, if any, under either mount.\<close>

definition endpoint_of :: "server \<Rightarrow> request \<Rightarrow> (endpoint \<times> string) option" where
  "endpoint_of s r =
     (let find_route = (\<lambda>p. case route_api (rq_Method r) (elems_of p) of Routed e pv \<Rightarrow> Some (e, pv) | _ \<Rightarrow> None)
      in if rq_Method r = ''OPTIONS'' then None
         else case root_mount (srv_LegacyRoutes s) (rq_Method r) (rq_Path r) of
           Api p \<Rightarrow> find_route p | Legacy p \<Rightarrow> find_route p | _ \<Rightarrow> None)"

subsection \<open>The gates\<close>

lemma session_user_account:
  "fst (session_user ev stg r db) =
     (if ev_Fault ev (Lookup_session_call stg) \<or> ev_Fault ev (User_by_id_call stg) then None
      else session_account ev r db)"
  by (auto simp: session_user_def session_account_def live_iff lookup_session_def admin_user_by_id_def
      delete_session_def split: option.splits)

lemma lookup_session_sessions:
  "fst (lookup_session now i db) = db\<lparr>rg_Sessions := filter
     (\<lambda>x. \<not> (se_ID x = i \<and> session_lookup db i \<noteq> None \<and> live now i db = None)) (rg_Sessions db)\<rparr>"
  by (auto simp: lookup_session_def live_iff delete_session_def tbl_del_def split: option.split)

lemma session_user_state:
  "\<exists>ss. snd (session_user ev stg r db) = db\<lparr>rg_Sessions := ss\<rparr> \<and>
     (fst (session_user ev stg r db) = None \<longrightarrow> set ss \<subseteq> set (rg_Sessions db))"
proof -
  have keep: "\<exists>ss. db = db\<lparr>rg_Sessions := ss\<rparr> \<and> set ss \<subseteq> set (rg_Sessions db)"
    by (intro exI [of _ "rg_Sessions db"]) simp
  show ?thesis
  proof (cases "rq_Cookie r")
    case None
    with keep show ?thesis by (simp add: session_user_def)
  next
    case (Some v)
    obtain db1 res where l: "lookup_session (now_unix ev) (hash_token (ev_Sha256 ev) v) db = (db1, res)"
      by (cases "lookup_session (now_unix ev) (hash_token (ev_Sha256 ev) v) db") auto
    have db1: "\<exists>ss. db1 = db\<lparr>rg_Sessions := ss\<rparr> \<and> set ss \<subseteq> set (rg_Sessions db)"
      using lookup_session_sessions [of "now_unix ev" "hash_token (ev_Sha256 ev) v" db] l by fastforce
    have touched: "\<exists>ss. touch_session t i e db1 = db\<lparr>rg_Sessions := ss\<rparr>" for t i e
      using db1 by (auto simp: touch_session_def)
    show ?thesis
      using Some keep l db1 touched
      by (cases "v = [] \<or> ev_Fault ev (Lookup_session_call stg)"; cases res)
        (auto simp: session_user_def split: sum.splits)
  qed
qed

text \<open>
  What the gate decides and what it may write: session rows only, and none but deletions when
  nobody is recognised.
\<close>

definition session_change :: "server \<Rightarrow> server \<Rightarrow> bool" where
  "session_change s s' \<longleftrightarrow> (\<exists>ss. s' = s\<lparr>srv_Reg := (srv_Reg s)\<lparr>rg_Sessions := ss\<rparr>\<rparr>)"

definition session_cleanup :: "server \<Rightarrow> server \<Rightarrow> bool" where
  "session_cleanup s s' \<longleftrightarrow> (\<exists>ss. set ss \<subseteq> set (rg_Sessions (srv_Reg s)) \<and>
     s' = s\<lparr>srv_Reg := (srv_Reg s)\<lparr>rg_Sessions := ss\<rparr>\<rparr>)"

lemma session_change_refl [simp]: "session_change s s" "session_cleanup s s"
proof -
  have "s = s\<lparr>srv_Reg := (srv_Reg s)\<lparr>rg_Sessions := rg_Sessions (srv_Reg s)\<rparr>\<rparr>" by simp
  then show "session_change s s" "session_cleanup s s"
    unfolding session_change_def session_cleanup_def by blast+
qed

definition gate_fault :: "env \<Rightarrow> bool" where
  "gate_fault ev \<longleftrightarrow> ev_Fault ev (Lookup_session_call At_gate) \<or> ev_Fault ev (User_by_id_call At_gate)"

lemma admin_ok_result:
  "fst (admin_ok ev r s) \<longleftrightarrow> admin_key r s \<or> \<not> gate_fault ev \<and> session_account ev r (srv_Reg s) \<noteq> None"
  by (auto simp: admin_ok_def admin_key_def session_ok_def Let_def split_beta session_user_account gate_fault_def)

lemma admin_ok_sound: "fst (admin_ok ev r s) \<Longrightarrow> admin_credential ev r s"
  by (auto simp: admin_ok_result admin_credential_def)

lemma admin_ok_complete: "\<not> gate_fault ev \<Longrightarrow> fst (admin_ok ev r s) = admin_credential ev r s"
  by (auto simp: admin_ok_result admin_credential_def)

lemma admin_ok_change: "session_change s (snd (admin_ok ev r s))"
proof (cases "admin_key r s")
  case False
  with session_user_state [of ev At_gate r "srv_Reg s"] show ?thesis
    by (auto simp: admin_ok_def admin_key_def session_ok_def Let_def split_beta session_change_def)
qed (simp add: admin_ok_def admin_key_def)

lemma admin_ok_cleanup: "\<not> fst (admin_ok ev r s) \<Longrightarrow> session_cleanup s (snd (admin_ok ev r s))"
proof -
  assume "\<not> fst (admin_ok ev r s)"
  with session_user_state [of ev At_gate r "srv_Reg s"] show ?thesis
    by (auto simp: admin_ok_def session_ok_def Let_def split_beta session_cleanup_def split: if_splits)
qed

subsection \<open>Gate, then handler\<close>

text \<open>The handlers without their gates.\<close>

fun handler_of :: "env \<Rightarrow> endpoint \<Rightarrow> string \<Rightarrow> request \<Rightarrow> server \<Rightarrow> response \<times> server" where
  "handler_of ev E_Health pv = handle_health ev"
| "handler_of ev E_Login pv = handle_login ev"
| "handler_of ev E_Logout pv = handle_logout ev"
| "handler_of ev E_Me pv = handle_me ev"
| "handler_of ev E_Change_password pv = handle_change_password ev"
| "handler_of ev E_List_sites pv = handle_list_sites ev"
| "handler_of ev E_Create_site pv = handle_create_site ev"
| "handler_of ev E_Get_site pv = handle_get_site ev pv"
| "handler_of ev E_Update_site pv = handle_update_site ev pv"
| "handler_of ev E_Delete_site pv = handle_delete_site ev pv"
| "handler_of ev E_List_channels pv = handle_list_channels ev"
| "handler_of ev E_Create_channel pv = handle_create_channel ev"
| "handler_of ev E_Update_channel pv = handle_update_channel ev pv"
| "handler_of ev E_Delete_channel pv = handle_delete_channel ev pv"
| "handler_of ev E_Test_channel pv = handle_test_channel ev pv"
| "handler_of ev E_List_rules pv = handle_list_rules ev"
| "handler_of ev E_Create_rule pv = handle_create_rule ev"
| "handler_of ev E_Update_rule pv = handle_update_rule ev pv"
| "handler_of ev E_Delete_rule pv = handle_delete_rule ev pv"
| "handler_of ev E_List_deliveries pv = handle_list_deliveries ev"
| "handler_of ev E_Overview pv = handle_overview ev"
| "handler_of ev E_Series pv = handle_series ev pv"
| "handler_of ev E_Status pv = handle_status ev pv"
| "handler_of ev E_Uptime pv = handle_uptime ev pv"
| "handler_of ev E_Metrics pv = handle_metrics ev pv"
| "handler_of ev E_Errors pv = handle_errors ev pv"
| "handler_of ev E_Incidents pv = handle_incidents ev pv"
| "handler_of ev E_Results pv = handle_results ev pv"

lemma dispatch_gated:
  "dispatch ev e pv =
     (case tier_of e of
        Public \<Rightarrow> handler_of ev e pv
      | Admin_tier \<Rightarrow> require_admin ev (handler_of ev e pv)
      | Site_tier \<Rightarrow> require_site_read ev pv (handler_of ev e pv))"
  by (cases e) simp_all

text \<open>A refusal: an error without data.\<close>

definition refusal :: "response \<Rightarrow> bool" where
  "refusal resp \<longleftrightarrow> rs_Status resp \<in> {401, 404, 500} \<and> rs_Cookie resp = None \<and>
     rs_Headers resp = [(''Content-Type'', ''application/json'')] \<and>
     (rs_Body resp = Internal \<or> rs_Body resp \<in> Err ` {''admin credentials required'',
       ''valid API key required for this site'', ''site not found''})"

lemma refusal_write [simp]:
  "refusal (write_error 401 ''admin credentials required'')"
  "refusal (write_error 401 ''valid API key required for this site'')"
  "refusal (registry_err e)"
  by (simp_all add: refusal_def write_error_def write_json_def registry_err_def)

lemma require_admin_cases:
  obtains (granted) s1 where "require_admin ev nxt r s = nxt r s1" "session_change s s1" "admin_credential ev r s"
  | (refused) resp s1 where "require_admin ev nxt r s = (resp, s1)" "refusal resp" "session_cleanup s s1"
      "gate_fault ev \<or> \<not> admin_credential ev r s"
proof (cases "fst (admin_ok ev r s)")
  case True
  then show ?thesis
    using granted [of "snd (admin_ok ev r s)"] admin_ok_change admin_ok_sound
    by (simp add: require_admin_def Let_def split_beta)
next
  case False
  then show ?thesis
    using refused [of "write_error 401 ''admin credentials required''" "snd (admin_ok ev r s)"]
      admin_ok_cleanup [OF False] admin_ok_complete [of ev r s]
    by (auto simp: require_admin_def Let_def split_beta)
qed

lemma require_site_read_cases:
  obtains (granted) s1 where "require_site_read ev pv nxt r s = nxt r s1" "session_change s s1"
      "site_lookup (srv_Reg s) pv \<noteq> None" "admin_credential ev r s \<or> site_credential ev pv r s"
  | (refused) resp s1 where "require_site_read ev pv nxt r s = (resp, s1)" "refusal resp" "session_cleanup s s1"
      "gate_fault ev \<or> ev_Fault ev (Get_site_call At_gate) \<or> site_lookup (srv_Reg s) pv = None \<or>
       \<not> (admin_credential ev r s \<or> site_credential ev pv r s)"
proof (cases "faulty ev (Get_site_call At_gate) (registry_get (srv_Reg s) pv)")
  case (Inl e)
  then show ?thesis
    using refused [of "registry_err e" s]
    by (auto simp: require_site_read_def faulty_def registry_get_def split: if_splits option.splits)
next
  case (Inr cfg)
  then have cfg: "site_lookup (srv_Reg s) pv = Some cfg" "\<not> ev_Fault ev (Get_site_call At_gate)"
    by (auto simp: faulty_def registry_get_def split: if_splits option.splits)
  let ?ok = "admin_ok ev r s"
  show ?thesis
  proof (cases "fst ?ok \<or> site_credential ev pv r s")
    case True
    then show ?thesis
      using granted [of "snd ?ok"] admin_ok_change [of s ev r] admin_ok_sound [of ev r s] Inr cfg
      by (auto simp: require_site_read_def Let_def split_beta site_credential_def)
  next
    case False
    then show ?thesis
      using refused [of "write_error 401 ''valid API key required for this site''" "snd ?ok"]
        admin_ok_cleanup [of ev r s] admin_ok_complete [of ev r s] Inr cfg
      by (cases "gate_fault ev") (auto simp: require_site_read_def Let_def split_beta site_credential_def)
  qed
qed

lemma dispatch_cases:
  obtains (granted) s1 where "dispatch ev e pv r s = handler_of ev e pv r s1" "session_change s s1" "granted ev e pv r s"
  | (refused) resp s1 where "dispatch ev e pv r s = (resp, s1)" "refusal resp" "session_cleanup s s1"
      "gate_fault ev \<or> ev_Fault ev (Get_site_call At_gate) \<or> \<not> granted ev e pv r s"
proof (cases "tier_of e")
  case Public
  then show ?thesis using granted [of s] by (simp add: dispatch_gated granted_def)
next
  case Admin_tier
  then show ?thesis
    using require_admin_cases [of ev "handler_of ev e pv" r s] granted refused
    by (simp add: dispatch_gated granted_def) metis
next
  case Site_tier
  then show ?thesis
    using require_site_read_cases [of ev pv "handler_of ev e pv" r s] granted refused
    by (simp add: dispatch_gated granted_def) metis
qed

subsection \<open>The whole router\<close>

definition cors_part :: "request \<Rightarrow> server \<Rightarrow> (string \<times> string) list" where
  "cors_part r s = (let origin = header_get ''Origin'' r in
     if origin \<noteq> [] \<and> origin_allowed (srv_CorsOrigins s) origin then cors_headers origin else [])"

definition add_cors :: "request \<Rightarrow> server \<Rightarrow> response \<Rightarrow> response" where
  "add_cors r s resp = resp\<lparr>rs_Headers := cors_part r s @ rs_Headers resp\<rparr>"

lemma serve_cors:
  "serve ev r s = (if rq_Method r = ''OPTIONS'' then (add_cors r s (plain_reply 204), s)
     else (let (resp, s') = root_handler ev r s in (add_cors r s resp, s')))"
  by (simp add: serve_def with_cors_def add_cors_def cors_part_def Let_def split_beta)

text \<open>The three fates of a request: no route, refused at a gate, answered by its handler.\<close>

definition not_routed :: "request \<Rightarrow> server \<Rightarrow> response \<Rightarrow> server \<Rightarrow> bool" where
  "not_routed r s resp s' \<longleftrightarrow> (\<exists>seen q. s' = s\<lparr>srv_DeprecationSeen := seen\<rparr> \<and> resp = add_cors r s q \<and>
     rs_Body q = Empty \<and> rs_Cookie q = None \<and> rs_Status q \<in> {204, 301, 404, 405})"

definition refused :: "request \<Rightarrow> server \<Rightarrow> response \<Rightarrow> server \<Rightarrow> bool" where
  "refused r s resp s' \<longleftrightarrow> (\<exists>seen q. session_cleanup (s\<lparr>srv_DeprecationSeen := seen\<rparr>) s' \<and>
     resp = add_cors r s q \<and> refusal q)"

definition served :: "env \<Rightarrow> endpoint \<Rightarrow> string \<Rightarrow> request \<Rightarrow> server \<Rightarrow> response \<Rightarrow> server \<Rightarrow> bool" where
  "served ev e pv r s resp s' \<longleftrightarrow> (\<exists>seen s1 q. session_change (s\<lparr>srv_DeprecationSeen := seen\<rparr>) s1 \<and>
     handler_of ev e pv r s1 = (q, s') \<and> resp = add_cors r s q)"

lemma granted_seen [simp]: "granted ev e pv r (s\<lparr>srv_DeprecationSeen := seen\<rparr>) = granted ev e pv r s"
  by (simp add: granted_def admin_credential_def admin_key_def site_credential_def split: tier.split)

text \<open>A request that no route takes, and one that reaches the gate of its endpoint.\<close>

lemma serve_cases:
  obtains (unrouted) seen q where "endpoint_of s r = None" "serve ev r s = (add_cors r s q, s\<lparr>srv_DeprecationSeen := seen\<rparr>)"
      "rs_Body q = Empty" "rs_Cookie q = None" "rs_Status q \<in> {204, 301, 404, 405}"
      "list_all (\<lambda>h. fst h = ''Location'') (rs_Headers q)"
  | (routed) e pv seen where "endpoint_of s r = Some (e, pv)"
      "serve ev r s = (add_cors r s (fst (dispatch ev e pv r (s\<lparr>srv_DeprecationSeen := seen\<rparr>))),
         snd (dispatch ev e pv r (s\<lparr>srv_DeprecationSeen := seen\<rparr>)))"
proof -
  have same: "s = s\<lparr>srv_DeprecationSeen := srv_DeprecationSeen s\<rparr>" by simp
  have mux: thesis
    if "rq_Method r \<noteq> ''OPTIONS''" "root_handler ev r s = api_mux ev p r (s\<lparr>srv_DeprecationSeen := seen\<rparr>)"
      "endpoint_of s r = (case route_api (rq_Method r) (elems_of p) of Routed e pv \<Rightarrow> Some (e, pv) | _ \<Rightarrow> None)" for p seen
  proof (cases "route_api (rq_Method r) (elems_of p)")
    case (Routed e pv)
    with that show ?thesis using routed [of e pv seen] by (simp add: serve_cors api_mux_def split_beta)
  qed (use that unrouted [of "plain_reply 405" seen] unrouted [of "plain_reply 404" seen] in
    \<open>simp_all add: serve_cors api_mux_def plain_reply_def\<close>)
  show thesis
  proof (cases "rq_Method r = ''OPTIONS''")
    case True
    then show ?thesis
      using unrouted [of "plain_reply 204" "srv_DeprecationSeen s"] by (simp add: serve_cors endpoint_of_def plain_reply_def)
  next
    case False
    show ?thesis
    proof (cases "root_mount (srv_LegacyRoutes s) (rq_Method r) (rq_Path r)")
      case (Redirect p)
      then show ?thesis
        using False unrouted [of "(plain_reply 301)\<lparr>rs_Headers := [(''Location'', p)]\<rparr>" "srv_DeprecationSeen s"]
        by (simp add: serve_cors endpoint_of_def root_handler_def plain_reply_def)
    next
      case No_mount
      then show ?thesis
        using False unrouted [of "plain_reply 404" "srv_DeprecationSeen s"]
        by (simp add: serve_cors endpoint_of_def root_handler_def plain_reply_def)
    next
      case (Api p)
      then show ?thesis
        by (intro mux [of p "srv_DeprecationSeen s"]) (simp_all add: False root_handler_def endpoint_of_def)
    next
      case (Legacy p)
      then show ?thesis
        by (intro mux [of p]) (simp_all add: False root_handler_def warn_deprecated_def endpoint_of_def)
    qed
  qed
qed


end
