(* ===== verification/ServerInv.thy ===== *)
theory ServerInv
  imports Access
begin

section \<open>The invariant of the service: registry, scheduler and stores in step\<close>

text \<open>
  Every handler changes several components: a site created through the API is a registry row,
  a database file and a goroutine.  \<open>server_inv\<close> says that they agree: the scheduler runs
  exactly the enabled sites of the registry, with their current configuration, and
  what the registry holds was validated.  Each handler keeps it, whatever fails on the way.
\<close>

subsection \<open>The invariant\<close>

definition enabled_sites :: "registry \<Rightarrow> string \<rightharpoonup> site_config" where
  "enabled_sites db k = (case site_lookup db k of None \<Rightarrow> None | Some c \<Rightarrow> if sc_Enabled c then Some c else None)"

definition rule_ok :: "alert_rule \<Rightarrow> bool" where
  "rule_ok r \<longleftrightarrow> valid_alert_kind (ru_Kind r) \<and> 1 \<le> ru_ConfirmAfter r \<and> ru_ConfirmAfter r \<le> 100 \<and> ru_SiteID r \<noteq> Some []"

definition channel_ok :: "alert_channel \<Rightarrow> bool" where
  "channel_ok c \<longleftrightarrow> ch_Type c = ''email'' \<and> ch_Name c \<noteq> []"

definition config_ok :: "registry \<Rightarrow> bool" where
  "config_ok db \<longleftrightarrow> list_all (\<lambda>c. validate c = None) (rg_Sites db) \<and> list_all rule_ok (rg_Rules db) \<and>
     list_all channel_ok (rg_Channels db)"

definition server_inv :: "server \<Rightarrow> bool" where
  "server_inv s \<longleftrightarrow> reg_inv (srv_Reg s) \<and> config_ok (srv_Reg s) \<and> sched_inv (srv_Sched s) \<and>
     running (srv_Sched s) = enabled_sites (srv_Reg s) \<and> stores_inv (srv_Stores s)"

named_theorems server_intros "preservation of the server's invariant"

lemma server_inv_simps [simp]:
  "server_inv (s\<lparr>srv_Limiter := l\<rparr>) = server_inv s" "server_inv (s\<lparr>srv_DeprecationSeen := d\<rparr>) = server_inv s"
  by (simp_all add: server_inv_def)

lemma server_inv_stores [server_intros]:
  "server_inv s \<Longrightarrow> stores_inv m \<Longrightarrow> server_inv (s\<lparr>srv_Stores := m\<rparr>)"
  by (simp add: server_inv_def)

lemma enabled_sites_cong: "rg_Sites db = rg_Sites db' \<Longrightarrow> enabled_sites db = enabled_sites db'"
  by (simp add: enabled_sites_def site_lookup_def fun_eq_iff)

text \<open>A registry operation that leaves the sites alone.\<close>

lemma server_inv_reg [server_intros]:
  "server_inv s \<Longrightarrow> reg_inv db \<Longrightarrow> rg_Sites db = rg_Sites (srv_Reg s) \<Longrightarrow>
   list_all rule_ok (rg_Rules db) \<Longrightarrow> list_all channel_ok (rg_Channels db) \<Longrightarrow> server_inv (s\<lparr>srv_Reg := db\<rparr>)"
  using enabled_sites_cong [of db "srv_Reg s"] by (simp add: server_inv_def config_ok_def)

lemma server_invD:
  "server_inv s \<Longrightarrow> reg_inv (srv_Reg s)" "server_inv s \<Longrightarrow> stores_inv (srv_Stores s)"
  "server_inv s \<Longrightarrow> sched_inv (srv_Sched s)" "server_inv s \<Longrightarrow> running (srv_Sched s) = enabled_sites (srv_Reg s)"
  "server_inv s \<Longrightarrow> list_all (\<lambda>c. validate c = None) (rg_Sites (srv_Reg s))"
  "server_inv s \<Longrightarrow> list_all rule_ok (rg_Rules (srv_Reg s))"
  "server_inv s \<Longrightarrow> list_all channel_ok (rg_Channels (srv_Reg s))"
  by (simp_all add: server_inv_def config_ok_def)

text \<open>A registry operation on the accounts and sessions only.\<close>

lemma server_inv_accounts:
  "server_inv s \<Longrightarrow> reg_inv db \<Longrightarrow> rg_Sites db = rg_Sites (srv_Reg s) \<Longrightarrow> rg_Rules db = rg_Rules (srv_Reg s) \<Longrightarrow>
   rg_Channels db = rg_Channels (srv_Reg s) \<Longrightarrow> server_inv (s\<lparr>srv_Reg := db\<rparr>)"
  by (rule server_inv_reg) (simp_all add: server_invD)

subsection \<open>Sessions and passwords\<close>

lemma session_user_kept:
  assumes "reg_inv db"
  shows "reg_inv (snd (session_user ev stg r db))"
    "rg_Sites (snd (session_user ev stg r db)) = rg_Sites db"
    "rg_Rules (snd (session_user ev stg r db)) = rg_Rules db"
    "rg_Channels (snd (session_user ev stg r db)) = rg_Channels db"
    "rg_Users (snd (session_user ev stg r db)) = rg_Users db"
    "rg_Deliveries (snd (session_user ev stg r db)) = rg_Deliveries db"
proof -
  obtain ss where ss: "snd (session_user ev stg r db) = db\<lparr>rg_Sessions := ss\<rparr>"
    using session_user_state by blast
  then show "rg_Sites (snd (session_user ev stg r db)) = rg_Sites db"
    "rg_Rules (snd (session_user ev stg r db)) = rg_Rules db"
    "rg_Channels (snd (session_user ev stg r db)) = rg_Channels db"
    "rg_Users (snd (session_user ev stg r db)) = rg_Users db"
    "rg_Deliveries (snd (session_user ev stg r db)) = rg_Deliveries db" by simp_all
  have l: "reg_inv (fst (lookup_session t i db))" for t i using assms by (rule inv_intros)
  show "reg_inv (snd (session_user ev stg r db))"
  proof (cases "rq_Cookie r")
    case (Some v)
    obtain db1 res where r: "lookup_session (now_unix ev) (hash_token (ev_Sha256 ev) v) db = (db1, res)"
      by (cases "lookup_session (now_unix ev) (hash_token (ev_Sha256 ev) v) db") auto
    then have "reg_inv db1" using l by (metis fst_conv)
    with Some r assms show ?thesis
      by (auto simp: session_user_def touch_session_inv split: sum.splits)
  qed (simp add: session_user_def assms)
qed

lemma server_inv_session_user [server_intros]:
  "server_inv s \<Longrightarrow> server_inv (s\<lparr>srv_Reg := snd (session_user ev stg r (srv_Reg s))\<rparr>)"
  by (rule server_inv_accounts) (simp_all add: session_user_kept server_invD)

lemma set_password_kept:
  "rg_Sites (fst (set_admin_password flt now u h db)) = rg_Sites db"
  "rg_Rules (fst (set_admin_password flt now u h db)) = rg_Rules db"
  "rg_Channels (fst (set_admin_password flt now u h db)) = rg_Channels db"
  by (simp_all add: set_admin_password_def Let_def)

lemma handle_login_inv [server_intros]: "server_inv s \<Longrightarrow> server_inv (snd (handle_login ev r s))"
proof -
  assume s: "server_inv s"
  have c: "server_inv (x\<lparr>srv_Reg := db\<rparr>)"
    if "server_inv x" "create_session now sid u e (srv_Reg x) = Inr db" for x now sid u e db
  proof (rule server_inv_accounts [OF that(1)])
    show "reg_inv db" using create_session_inv [OF server_invD(1) [OF that(1)], of now sid u e] that(2)
      by (simp add: stored_def)
  qed (use that(2) in \<open>auto simp: create_session_def session_insert_def split: if_splits option.splits\<close>)
  show ?thesis
    using s c [OF s] by (auto simp: handle_login_def Let_def split_beta split: sum.split bool.split)
qed

lemma handle_logout_inv [server_intros]: "server_inv s \<Longrightarrow> server_inv (snd (handle_logout ev r s))"
  using delete_session_inv [OF server_invD(1)]
  by (auto simp: handle_logout_def delete_session_def split: option.split intro!: server_inv_accounts)

lemma handle_me_inv [server_intros]: "server_inv s \<Longrightarrow> server_inv (snd (handle_me ev r s))"
  by (simp add: handle_me_def Let_def split_beta server_intros)

lemma handle_change_password_inv [server_intros]: "server_inv s \<Longrightarrow> server_inv (snd (handle_change_password ev r s))"
proof -
  assume s: "server_inv s"
  define s1 where "s1 = s\<lparr>srv_Reg := snd (session_user ev In_handler r (srv_Reg s))\<rparr>"
  have s1: "server_inv s1" unfolding s1_def using s by (rule server_intros)
  have "server_inv (s1\<lparr>srv_Reg := fst (set_admin_password flt now u h (srv_Reg s1))\<rparr>)" for flt now u h
    by (rule server_inv_accounts [OF s1]) (simp_all add: set_password_kept set_password_inv server_invD s1)
  with s1 show ?thesis
    unfolding handle_change_password_def Let_def split_beta s1_def [symmetric]
    by (auto split: option.split sum.split)
qed

subsection \<open>Sites\<close>

lemma validate_columns [simp]:
  "validate (c\<lparr>sc_APIKeyHash := h\<rparr>) = validate c" "validate (c\<lparr>sc_CreatedAt := t\<rparr>) = validate c"
  "validate (c\<lparr>sc_UpdatedAt := t\<rparr>) = validate c"
  by (simp_all add: validate_def)

lemma validate_id: "validate c = None \<Longrightarrow> is_slug (sc_ID c)"
  by (auto simp: validate_def split: option.splits)

lemma registry_create_ok:
  assumes "registry_create c db = Inr db'"
  shows "db' = db\<lparr>rg_Sites := rg_Sites db @ [c]\<rparr>" "\<not> tbl_has sc_ID (sc_ID c) (rg_Sites db)"
  using assms by (auto simp: registry_create_def site_insert_def tbl_insert_def split: if_splits)

lemma enabled_sites_create:
  "\<not> tbl_has sc_ID (sc_ID c) (rg_Sites db) \<Longrightarrow> enabled_sites (db\<lparr>rg_Sites := rg_Sites db @ [c]\<rparr>) =
     (if sc_Enabled c then (enabled_sites db)(sc_ID c \<mapsto> c) else enabled_sites db)"
  by (auto simp: enabled_sites_def site_lookup_def tbl_find_snoc fun_eq_iff tbl_has_find split: option.split)

text \<open>A new site, with its loop when it is enabled.\<close>

lemma server_inv_create:
  assumes "server_inv s" "registry_create c (srv_Reg s) = Inr db" "validate c = None"
  shows "server_inv (s\<lparr>srv_Reg := db, srv_Sched := (if sc_Enabled c then start c (srv_Sched s) else srv_Sched s)\<rparr>)"
proof -
  note ok = registry_create_ok [OF assms(2)]
  note inv = server_invD [OF assms(1)]
  have "reg_inv db" using site_ops_inv(1) [OF inv(1), of c] assms(2) by (simp add: stored_def)
  moreover have "config_ok db" using inv(5-7) assms(3) by (simp add: config_ok_def ok(1))
  moreover have "enabled_sites db = (if sc_Enabled c then (enabled_sites (srv_Reg s))(sc_ID c \<mapsto> c) else enabled_sites (srv_Reg s))"
    unfolding ok(1) by (rule enabled_sites_create [OF ok(2)])
  ultimately show ?thesis
    using inv by (simp add: server_inv_def running_start start_inv)
qed

lemma handle_create_site_inv [server_intros]:
  assumes "server_inv s"
  shows "server_inv (snd (handle_create_site ev r s))"
proof -
  have step: "server_inv (s\<lparr>srv_Reg := db, srv_Stores := snd (manager_get b t i m), srv_Sched := start c (srv_Sched s)\<rparr>)"
    if "registry_create c (srv_Reg s) = Inr db" "validate c = None" "sc_Enabled c" "stores_inv m" for db c b t i m
    using server_inv_stores [OF server_inv_create [OF assms that(1,2)] manager_get_inv [OF that(4)], of b t i] that(3)
    by (simp add: server_inv_def)
  have step': "server_inv (s\<lparr>srv_Reg := db, srv_Stores := snd (manager_get b t i m)\<rparr>)"
    if "registry_create c (srv_Reg s) = Inr db" "validate c = None" "\<not> sc_Enabled c" "stores_inv m" for db c b t i m
    using server_inv_stores [OF server_inv_create [OF assms that(1,2)] manager_get_inv [OF that(4)], of b t i] that(3)
    by (simp add: server_inv_def)
  show ?thesis
    using assms server_invD(2) [OF assms]
    unfolding handle_create_site_def Let_def insert_new_site_def faulty_def
    by (auto split: sum.splits option.splits if_splits intro!: step step')
qed

lemma handle_get_site_inv [server_intros]: "server_inv s \<Longrightarrow> server_inv (snd (handle_get_site ev i r s))"
  by (simp add: handle_get_site_def split: sum.split)

lemma enabled_sites_set:
  assumes "site_lookup db (sc_ID c) = Some old" "sc_CreatedAt c = sc_CreatedAt old"
  shows "enabled_sites (db\<lparr>rg_Sites := tbl_set sc_ID (sc_ID c) (set_site_columns c) (rg_Sites db)\<rparr>) =
    (enabled_sites db)(sc_ID c := (if sc_Enabled c then Some c else None))"
proof -
  have key: "sc_ID (set_site_columns c x) = sc_ID x" for x by (simp add: set_site_columns_def)
  have "sc_ID old = sc_ID c" using assms(1) by (auto simp: site_lookup_def dest: tbl_find_Some_key)
  with assms(2) have "set_site_columns c old = c" by (simp add: set_site_columns_def)
  with assms(1) show ?thesis
    by (auto simp: enabled_sites_def site_lookup_def tbl_find_set [of sc_ID "set_site_columns c", OF key] fun_eq_iff)
qed

lemma apply_defaults_kept [simp]:
  "sc_CreatedAt (apply_defaults c) = sc_CreatedAt c" "sc_Enabled (apply_defaults c) = sc_Enabled c"
  "sc_APIKeyHash (apply_defaults c) = sc_APIKeyHash c"
  by (simp_all add: default_defs)

lemma apply_defaults_id [simp]: "sc_ID c \<noteq> [] \<Longrightarrow> sc_ID (apply_defaults c) = sc_ID c"
  by (simp add: default_defs)

lemma server_inv_update:
  assumes "server_inv s" "site_lookup (srv_Reg s) (sc_ID c) = Some old" "sc_CreatedAt c = sc_CreatedAt old"
    and "registry_update c (srv_Reg s) = Inr db" "validate c = None"
  shows "server_inv (s\<lparr>srv_Reg := db, srv_Sched := restart c (srv_Sched s)\<rparr>)"
proof -
  note inv = server_invD [OF assms(1)]
  have db: "db = (srv_Reg s)\<lparr>rg_Sites := tbl_set sc_ID (sc_ID c) (set_site_columns c) (rg_Sites (srv_Reg s))\<rparr>"
    using assms(4) by (auto simp: registry_update_def split: if_splits)
  have "reg_inv db" using site_ops_inv(2) [OF inv(1), of c] assms(4) by (simp add: stored_def)
  moreover have "validate (set_site_columns c x) = None" if "sc_ID x = sc_ID c" for x
  proof -
    have "set_site_columns c x = c\<lparr>sc_CreatedAt := sc_CreatedAt x\<rparr>" using that by (simp add: set_site_columns_def)
    then show ?thesis using assms(5) by simp
  qed
  then have "config_ok db" using inv(5-7) by (auto simp: config_ok_def db intro!: list_all_tbl_set)
  moreover have "enabled_sites db = (enabled_sites (srv_Reg s))(sc_ID c := (if sc_Enabled c then Some c else None))"
    unfolding db by (rule enabled_sites_set [OF assms(2,3)])
  ultimately show ?thesis
    using inv by (simp add: server_inv_def running_restart restart_inv)
qed

lemma site_lookup_ID: "site_lookup db i = Some c \<Longrightarrow> sc_ID c = i"
  by (auto simp: site_lookup_def dest: tbl_find_Some_key)

text \<open>A registered site has a non-empty id, so an update keeps it.\<close>

lemma registered_id: "server_inv s \<Longrightarrow> site_lookup (srv_Reg s) i = Some c \<Longrightarrow> is_slug i \<and> i \<noteq> []"
proof -
  assume s: "server_inv s" and c: "site_lookup (srv_Reg s) i = Some c"
  from c have "c \<in> set (rg_Sites (srv_Reg s))" "sc_ID c = i"
    by (auto simp: site_lookup_def dest: tbl_find_Some_key)
  with server_invD(5) [OF s] have "is_slug i" by (auto simp: list_all_iff dest: validate_id)
  then show ?thesis by (auto simp: is_slug_iff)
qed

lemma handle_update_site_inv [server_intros]:
  assumes "server_inv s"
  shows "server_inv (snd (handle_update_site ev i r s))"
proof -
  have step: "server_inv (s\<lparr>srv_Reg := db, srv_Sched := restart (c\<lparr>sc_APIKeyHash := h, sc_UpdatedAt := t\<rparr>) (srv_Sched s)\<rparr>)"
    if "registry_get (srv_Reg s) i = Inr old" "c = apply_defaults (x\<lparr>sc_ID := i, sc_CreatedAt := sc_CreatedAt old\<rparr>)"
      "validate c = None" "registry_update (c\<lparr>sc_APIKeyHash := h, sc_UpdatedAt := t\<rparr>) (srv_Reg s) = Inr db"
    for old c x h t db
  proof (rule server_inv_update [OF assms])
    have l: "site_lookup (srv_Reg s) i = Some old" using that(1) by (simp add: registry_get_def split: option.splits)
    then show "site_lookup (srv_Reg s) (sc_ID (c\<lparr>sc_APIKeyHash := h, sc_UpdatedAt := t\<rparr>)) = Some old"
      using registered_id [OF assms l] that(2) by simp
  qed (use that in simp_all)
  show ?thesis
    using assms unfolding handle_update_site_def Let_def faulty_def
    by (auto split: sum.splits option.splits if_splits intro!: step)
qed

lemma enabled_sites_remove: "enabled_sites (site_remove i db) = (enabled_sites db)(i := None)"
  by (auto simp: enabled_sites_def site_lookup_def site_remove_def tbl_find_del fun_eq_iff)

lemma server_inv_delete:
  assumes "server_inv s" "registry_delete i (srv_Reg s) = Inr db"
  shows "server_inv (s\<lparr>srv_Reg := db, srv_Sched := stop i (srv_Sched s)\<rparr>)"
proof -
  note inv = server_invD [OF assms(1)]
  have db: "db = site_remove i (srv_Reg s)" using assms(2) by (auto simp: registry_delete_def split: if_splits)
  have "reg_inv db" using site_ops_inv(3) [OF inv(1), of i] assms(2) by (simp add: stored_def)
  moreover have "config_ok db"
    using inv(5-7) by (auto simp: config_ok_def db site_remove_def tbl_del_def intro: list_all_filter)
  ultimately show ?thesis
    using inv by (simp add: server_inv_def running_stop [unfolded stop_def] db enabled_sites_remove stop_def stop_locked_inv)
qed

lemma handle_delete_site_inv [server_intros]:
  assumes "server_inv s"
  shows "server_inv (snd (handle_delete_site ev i r s))"
proof -
  have step: "server_inv (s\<lparr>srv_Reg := db, srv_Sched := stop i (srv_Sched s), srv_Stores := snd (manager_delete f i m)\<rparr>)"
    if "registry_delete i (srv_Reg s) = Inr db" "stores_inv m" for db f m
    by (rule server_inv_stores [OF server_inv_delete [OF assms that(1)] manager_delete_inv [OF that(2)]])
  show ?thesis
    using assms server_inv_delete [OF assms] step server_invD(2) [OF assms]
    unfolding handle_delete_site_def Let_def faulty_def by (auto split: sum.splits if_splits)
qed

subsection \<open>Data endpoints\<close>

lemma store_for_inv: "server_inv s \<Longrightarrow> server_inv (snd (store_for ev i s))"
  using manager_get_inv [OF server_invD(2), of s "ev_Broken ev" "now_unix ev" i]
  by (auto simp: store_for_def split: sum.splits prod.splits intro!: server_inv_stores)

lemma read_store_inv: "server_inv s \<Longrightarrow> server_inv (snd (read_store ev i query s))"
  using store_for_inv [of s ev i] by (auto simp: read_store_def split: sum.splits prod.splits)

lemma data_handlers_inv [server_intros]:
  assumes "server_inv s"
  shows "server_inv (snd (handle_status ev i r s))" "server_inv (snd (handle_uptime ev i r s))"
    "server_inv (snd (handle_metrics ev i r s))" "server_inv (snd (handle_errors ev i r s))"
    "server_inv (snd (handle_incidents ev i r s))" "server_inv (snd (handle_results ev i r s))"
    "server_inv (snd (handle_series ev i r s))"
  using read_store_inv [OF assms]
  by (simp_all add: handle_status_def handle_uptime_def handle_metrics_def handle_errors_def
      handle_incidents_def handle_results_def handle_series_def)

lemma handle_overview_inv [server_intros]: "server_inv s \<Longrightarrow> server_inv (snd (handle_overview ev r s))"
  by (auto simp: handle_overview_def Let_def split_beta overview_def
      intro!: server_inv_stores overview_loop_inv dest: server_invD)

lemma read_only_inv [server_intros]:
  assumes "server_inv s"
  shows "server_inv (snd (handle_health ev r s))" "server_inv (snd (handle_list_sites ev r s))"
    "server_inv (snd (handle_list_channels ev r s))" "server_inv (snd (handle_list_rules ev r s))"
    "server_inv (snd (handle_list_deliveries ev r s))" "server_inv (snd (handle_test_channel ev pv r s))"
  using assms
  by (simp_all add: handle_health_def handle_list_sites_def handle_list_channels_def handle_list_rules_def
      handle_list_deliveries_def handle_test_channel_def split: option.split sum.split)

subsection \<open>Alert configuration\<close>

lemma decode_channel_ok:
  assumes "decode_channel ev r = Inr inp"
  shows "ci_Type inp = ''email''" "ci_Name inp \<noteq> []" "ev_ParseAddress ev (ci_Target inp)"
    "ci_Name inp = trim_space (ci_Name inp)" "ci_Target inp = trim_space (ci_Target inp)"
  using assms by (auto simp: decode_channel_def Let_def split: sum.splits if_splits)

lemma decode_rule_ok:
  assumes "decode_rule ev r db = Inr inp"
  shows "valid_alert_kind (ri_Kind inp)" "\<not> is_err (get_alert_channel db (ri_ChannelID inp))"
    "case ri_SiteID inp of None \<Rightarrow> True | Some i \<Rightarrow> i \<noteq> [] \<and> registry_exists db i"
    "case ri_ConfirmAfter inp of None \<Rightarrow> True | Some n \<Rightarrow> 1 \<le> n \<and> n \<le> 100"
  using assms
  by (auto simp: decode_rule_def Let_def faulty_def split: sum.splits option.splits if_splits)

lemma channel_op_kept:
  assumes "server_inv s" "reg_inv db" "rg_Sites db = rg_Sites (srv_Reg s)" "rg_Rules db = rg_Rules (srv_Reg s)"
    and "list_all channel_ok (rg_Channels db)"
  shows "server_inv (s\<lparr>srv_Reg := db\<rparr>)"
  using assms server_invD(6) [OF assms(1)] by (intro server_inv_reg) simp_all

lemma handle_create_channel_inv [server_intros]:
  assumes "server_inv s"
  shows "server_inv (snd (handle_create_channel ev r s))"
proof -
  have step: "server_inv (s\<lparr>srv_Reg := snd (create_alert_channel t c (srv_Reg s))\<rparr>)" if "channel_ok c" for t c
    by (rule channel_op_kept [OF assms channel_ops_inv(1) [OF server_invD(1) [OF assms]]])
      (use that server_invD(7) [OF assms] in
        \<open>simp_all add: create_alert_channel_def Let_def channel_ok_def\<close>)
  show ?thesis
    using assms unfolding handle_create_channel_def Let_def split_beta
    by (auto split: sum.split intro!: step simp: channel_ok_def dest: decode_channel_ok)
qed

lemma handle_update_channel_inv [server_intros]:
  assumes "server_inv s"
  shows "server_inv (snd (handle_update_channel ev pv r s))"
proof -
  have step: "server_inv (s\<lparr>srv_Reg := db\<rparr>)"
    if "channel_ok c" "update_alert_channel t c (srv_Reg s) = Inr db" for t c db
  proof (rule channel_op_kept [OF assms])
    show "reg_inv db" using channel_ops_inv(2) [OF server_invD(1) [OF assms], of t c] that(2) by (simp add: stored_def)
    have "channel_ok (x\<lparr>ch_Name := ch_Name c, ch_Type := ch_Type c, ch_Target := ch_Target c,
        ch_Enabled := ch_Enabled c, ch_UpdatedAt := t\<rparr>)" for x
      using that(1) by (simp add: channel_ok_def)
    then show "list_all channel_ok (rg_Channels db)"
      using that(2) server_invD(7) [OF assms]
      by (auto simp: update_alert_channel_def split: if_splits intro!: list_all_tbl_set)
  qed (use that(2) in \<open>auto simp: update_alert_channel_def split: if_splits\<close>)
  have ok: "channel_ok (case e of None \<Rightarrow> c | Some b \<Rightarrow> c\<lparr>ch_Enabled := b\<rparr>) = channel_ok c" for e c
    by (simp add: channel_ok_def split: option.split)
  show ?thesis
    using assms unfolding handle_update_channel_def Let_def faulty_def
    by (auto split: sum.splits option.splits if_splits intro!: step simp: channel_ok_def dest: decode_channel_ok)
qed

lemma handle_delete_channel_inv [server_intros]:
  assumes "server_inv s"
  shows "server_inv (snd (handle_delete_channel ev pv r s))"
proof -
  have step: "server_inv (s\<lparr>srv_Reg := db\<rparr>)" if "delete_alert_channel i (srv_Reg s) = Inr db" for i db
  proof (rule server_inv_reg [OF assms])
    show "reg_inv db" using delete_channel_inv [OF server_invD(1) [OF assms], of i] that by (simp add: stored_def)
    show "rg_Sites db = rg_Sites (srv_Reg s)" "list_all rule_ok (rg_Rules db)" "list_all channel_ok (rg_Channels db)"
      using that server_invD(6,7) [OF assms]
      by (auto simp: delete_alert_channel_def tbl_del_def split: if_splits intro: list_all_filter)
  qed
  show ?thesis
    using assms unfolding handle_delete_channel_def faulty_def
    by (auto split: sum.splits option.splits if_splits intro!: step)
qed

lemma rule_op_kept:
  assumes "server_inv s" "reg_inv db" "rg_Sites db = rg_Sites (srv_Reg s)" "rg_Channels db = rg_Channels (srv_Reg s)"
    and "list_all rule_ok (rg_Rules db)"
  shows "server_inv (s\<lparr>srv_Reg := db\<rparr>)"
  using assms server_invD(7) [OF assms(1)] by (intro server_inv_reg) simp_all

lemma handle_create_rule_inv [server_intros]:
  assumes "server_inv s"
  shows "server_inv (snd (handle_create_rule ev r s))"
proof -
  have step: "server_inv (s\<lparr>srv_Reg := db\<rparr>)"
    if "rule_ok a" "create_alert_rule t a (srv_Reg s) = Inr (a', db)" for t a a' db
  proof (rule rule_op_kept [OF assms])
    show "reg_inv db" using create_rule_inv [OF server_invD(1) [OF assms], of t a] that(2) by (simp add: stored_def)
    show "list_all rule_ok (rg_Rules db)"
      using that server_invD(6) [OF assms] by (auto simp: create_alert_rule_def Let_def rule_ok_def split: if_splits)
  qed (use that(2) in \<open>auto simp: create_alert_rule_def Let_def split: if_splits\<close>)
  have ok: "rule_ok \<lparr>ru_ID = 0, ru_SiteID = ri_SiteID inp, ru_ChannelID = ch, ru_Kind = ri_Kind inp, ru_Enabled = b,
      ru_ConfirmAfter = (case ri_ConfirmAfter inp of None \<Rightarrow> 2 | Some n \<Rightarrow> n), ru_CreatedAt = 0, ru_UpdatedAt = 0\<rparr>"
    if "decode_rule ev r db = Inr inp" for inp ch b db
    using decode_rule_ok [OF that] by (auto simp: rule_ok_def split: option.splits)
  show ?thesis
    using assms unfolding handle_create_rule_def Let_def faulty_def
    by (auto split: sum.splits if_splits intro!: step ok)
qed

lemma handle_update_rule_inv [server_intros]:
  assumes "server_inv s"
  shows "server_inv (snd (handle_update_rule ev pv r s))"
proof -
  have step: "server_inv (s\<lparr>srv_Reg := db\<rparr>)"
    if "rule_ok a" "update_alert_rule t a (srv_Reg s) = Inr db" for t a db
  proof (rule rule_op_kept [OF assms])
    show "reg_inv db" using rule_ops_inv(1) [OF server_invD(1) [OF assms], of t a] that(2) by (simp add: stored_def)
    have "rule_ok (x\<lparr>ru_SiteID := ru_SiteID a, ru_ChannelID := ru_ChannelID a, ru_Kind := ru_Kind a,
        ru_Enabled := ru_Enabled a, ru_ConfirmAfter := ru_ConfirmAfter a, ru_UpdatedAt := t\<rparr>)" for x
      using that(1) by (simp add: rule_ok_def)
    then show "list_all rule_ok (rg_Rules db)"
      using that(2) server_invD(6) [OF assms]
      by (auto simp: update_alert_rule_def split: if_splits intro!: list_all_tbl_set)
  qed (use that(2) in \<open>auto simp: update_alert_rule_def split: if_splits\<close>)
  have old: "1 \<le> ru_ConfirmAfter a \<and> ru_ConfirmAfter a \<le> 100" if "get_alert_rule (srv_Reg s) i = Inr a" for i a
    using that server_invD(6) [OF assms]
    by (auto simp: get_alert_rule_def list_all_iff rule_ok_def filter_eq_Cons_iff split: list.splits)
  show ?thesis
  proof (cases "path_id pv")
    case (Some i)
    show ?thesis
    proof (cases "faulty ev Get_rule_call (get_alert_rule (srv_Reg s) i)")
      case (Inr a)
      then have a: "1 \<le> ru_ConfirmAfter a \<and> ru_ConfirmAfter a \<le> 100" by (auto simp: faulty_def old split: if_splits)
      show ?thesis
      proof (cases "decode_rule ev r (srv_Reg s)")
        case inp: (Inr inp)
        show ?thesis
          using assms Some Inr a decode_rule_ok [OF inp]
          unfolding handle_update_rule_def Let_def faulty_def inp
          by (cases "ri_Enabled inp"; cases "ri_ConfirmAfter inp")
            (auto simp: inp rule_ok_def split: sum.splits if_splits option.splits intro!: step)
      qed (use assms Some Inr in \<open>simp add: handle_update_rule_def\<close>)
    qed (use assms Some in \<open>simp add: handle_update_rule_def\<close>)
  qed (use assms in \<open>simp add: handle_update_rule_def\<close>)
qed

lemma handle_delete_rule_inv [server_intros]:
  assumes "server_inv s"
  shows "server_inv (snd (handle_delete_rule ev pv r s))"
proof -
  have step: "server_inv (s\<lparr>srv_Reg := db\<rparr>)" if "delete_alert_rule i (srv_Reg s) = Inr db" for i db
  proof (rule rule_op_kept [OF assms])
    show "reg_inv db" using rule_ops_inv(2) [OF server_invD(1) [OF assms], of i] that by (simp add: stored_def)
  qed (use that server_invD(6) [OF assms] in
    \<open>auto simp: delete_alert_rule_def tbl_del_def split: if_splits intro: list_all_filter\<close>)
  show ?thesis
    using assms unfolding handle_delete_rule_def faulty_def
    by (auto split: sum.splits option.splits if_splits intro!: step)
qed

subsection \<open>The router\<close>

lemma handler_of_inv: "server_inv s \<Longrightarrow> server_inv (snd (handler_of ev e pv r s))"
  by (cases e) (simp_all add: server_intros)

lemma admin_ok_inv: "server_inv s \<Longrightarrow> server_inv (snd (admin_ok ev r s))"
  by (simp add: admin_ok_def session_ok_def Let_def split_beta server_intros)

lemma dispatch_inv: "server_inv s \<Longrightarrow> server_inv (snd (dispatch ev e pv r s))"
  using handler_of_inv [of "snd (admin_ok ev r s)" ev e pv r] handler_of_inv [of s ev e pv r] admin_ok_inv [of s ev r]
  by (cases "tier_of e")
    (auto simp: dispatch_gated require_admin_def require_site_read_def Let_def split_beta split: sum.split)

lemma serve_inv: "server_inv s \<Longrightarrow> server_inv (snd (serve ev r s))"
proof -
  assume s: "server_inv s"
  have m: "server_inv (snd (api_mux ev p r x))" if "server_inv x" for p x
    using that dispatch_inv by (simp add: api_mux_def split: routed.split)
  have "server_inv (snd (root_handler ev r s))"
    using s m by (simp add: root_handler_def warn_deprecated_def split: mount.split)
  with s show ?thesis by (simp add: serve_cors Let_def split_beta)
qed

end
