(* ===== verification/Frames.thy ===== *)
theory Frames
  imports ServerInv
begin

section \<open>What each handler leaves alone\<close>

text \<open>
  One frame lemma per group of endpoints, lifted through the gates and the router to \<open>serve\<close>:
  which parts of the server a request to an endpoint can change.
\<close>

lemmas site_handler_defs = handle_list_sites_def handle_create_site_def handle_get_site_def
  handle_update_site_def handle_delete_site_def
lemmas data_handler_defs = handle_status_def handle_uptime_def handle_metrics_def handle_errors_def
  handle_incidents_def handle_results_def handle_series_def handle_overview_def handle_health_def
lemmas alert_handler_defs = handle_list_channels_def handle_create_channel_def handle_update_channel_def
  handle_delete_channel_def handle_test_channel_def handle_list_rules_def handle_create_rule_def
  handle_update_rule_def handle_delete_rule_def handle_list_deliveries_def

definition same_settings :: "server \<Rightarrow> server \<Rightarrow> bool" where
  "same_settings s s' \<longleftrightarrow> srv_APIKey s' = srv_APIKey s \<and> srv_CorsOrigins s' = srv_CorsOrigins s \<and>
     srv_LegacyRoutes s' = srv_LegacyRoutes s \<and> srv_SecureCookies s' = srv_SecureCookies s \<and>
     srv_RealIPHeader s' = srv_RealIPHeader s \<and> srv_HasSender s' = srv_HasSender s"

text \<open>The data endpoints may open database files.\<close>

definition stores_change :: "server \<Rightarrow> server \<Rightarrow> bool" where
  "stores_change s s' \<longleftrightarrow> (\<exists>m. s' = s\<lparr>srv_Stores := m\<rparr>)"

lemma stores_change_simps [simp]: "stores_change s s" "stores_change s (s\<lparr>srv_Stores := m\<rparr>)"
proof -
  have "s = s\<lparr>srv_Stores := srv_Stores s\<rparr>" by simp
  then show "stores_change s s" unfolding stores_change_def by blast
qed (auto simp: stores_change_def)

lemma read_store_frame: "stores_change s (snd (read_store ev i query s))"
  by (auto simp: read_store_def store_for_def split: sum.splits prod.splits)

definition data_endpoint :: "endpoint \<Rightarrow> bool" where
  "data_endpoint e \<longleftrightarrow> tier_of e = Site_tier \<or> e = E_Overview \<or> e = E_Health"

lemma data_frame: "data_endpoint e \<Longrightarrow> stores_change s (snd (handler_of ev e pv r s))"
  by (cases e) (simp_all add: data_endpoint_def data_handler_defs read_store_frame Let_def split_beta)

text \<open>The alert endpoints change the alert tables only.\<close>

definition alert_endpoint :: "endpoint \<Rightarrow> bool" where
  "alert_endpoint e \<longleftrightarrow> e \<in> {E_List_channels, E_Create_channel, E_Update_channel, E_Delete_channel, E_Test_channel,
     E_List_rules, E_Create_rule, E_Update_rule, E_Delete_rule, E_List_deliveries}"

definition alert_change :: "server \<Rightarrow> server \<Rightarrow> bool" where
  "alert_change s s' \<longleftrightarrow> (\<exists>chs rules. s' = s\<lparr>srv_Reg := (srv_Reg s)\<lparr>rg_Channels := chs, rg_Rules := rules\<rparr>\<rparr>)"

lemma alert_change_reg:
  "rg_Sites db = rg_Sites (srv_Reg s) \<Longrightarrow> rg_Users db = rg_Users (srv_Reg s) \<Longrightarrow>
   rg_Sessions db = rg_Sessions (srv_Reg s) \<Longrightarrow> rg_Deliveries db = rg_Deliveries (srv_Reg s) \<Longrightarrow>
   alert_change s (s\<lparr>srv_Reg := db\<rparr>)"
  unfolding alert_change_def by (intro exI [of _ "rg_Channels db"] exI [of _ "rg_Rules db"]) simp

lemma alert_change_refl [simp]: "alert_change s s"
  using alert_change_reg [of "srv_Reg s" s] by simp

lemma alert_ops_frame:
  "update_alert_channel t c (srv_Reg s) = Inr db \<Longrightarrow> alert_change s (s\<lparr>srv_Reg := db\<rparr>)"
  "alert_change s (s\<lparr>srv_Reg := snd (create_alert_channel t c (srv_Reg s))\<rparr>)"
  "delete_alert_channel i (srv_Reg s) = Inr db \<Longrightarrow> alert_change s (s\<lparr>srv_Reg := db\<rparr>)"
  "create_alert_rule t a (srv_Reg s) = Inr (a', db) \<Longrightarrow> alert_change s (s\<lparr>srv_Reg := db\<rparr>)"
  "update_alert_rule t a (srv_Reg s) = Inr db \<Longrightarrow> alert_change s (s\<lparr>srv_Reg := db\<rparr>)"
  "delete_alert_rule i (srv_Reg s) = Inr db \<Longrightarrow> alert_change s (s\<lparr>srv_Reg := db\<rparr>)"
  by (rule alert_change_reg; auto simp: update_alert_channel_def create_alert_channel_def
      delete_alert_channel_def create_alert_rule_def update_alert_rule_def delete_alert_rule_def Let_def split: if_splits)+

lemma alert_frame: "alert_endpoint e \<Longrightarrow> alert_change s (snd (handler_of ev e pv r s))"
  unfolding alert_endpoint_def
  by (elim insertE emptyE)
    (auto simp: alert_handler_defs Let_def split_beta faulty_def alert_ops_frame
      split: option.split sum.split)


text \<open>The account endpoints change accounts, sessions and the throttle; only a login touches the throttle.\<close>

definition account_endpoint :: "endpoint \<Rightarrow> bool" where
  "account_endpoint e \<longleftrightarrow> e \<in> {E_Login, E_Logout, E_Me, E_Change_password}"

definition account_change :: "server \<Rightarrow> server \<Rightarrow> bool" where
  "account_change s s' \<longleftrightarrow> (\<exists>us ss l. s' = s\<lparr>srv_Reg := (srv_Reg s)\<lparr>rg_Users := us, rg_Sessions := ss\<rparr>, srv_Limiter := l\<rparr>)"

lemma account_changeI:
  "rg_Sites db = rg_Sites (srv_Reg s) \<Longrightarrow> rg_Channels db = rg_Channels (srv_Reg s) \<Longrightarrow>
   rg_Rules db = rg_Rules (srv_Reg s) \<Longrightarrow> rg_Deliveries db = rg_Deliveries (srv_Reg s) \<Longrightarrow>
   account_change s (s\<lparr>srv_Reg := db, srv_Limiter := l\<rparr>)"
  unfolding account_change_def
  by (intro exI [of _ "rg_Users db"] exI [of _ "rg_Sessions db"] exI [of _ l]) simp

lemma account_change_reg:
  "rg_Sites db = rg_Sites (srv_Reg s) \<Longrightarrow> rg_Channels db = rg_Channels (srv_Reg s) \<Longrightarrow>
   rg_Rules db = rg_Rules (srv_Reg s) \<Longrightarrow> rg_Deliveries db = rg_Deliveries (srv_Reg s) \<Longrightarrow>
   account_change s (s\<lparr>srv_Reg := db\<rparr>)"
  using account_changeI [of db s "srv_Limiter s"] by simp

lemma account_change_simps [simp]: "account_change s s" "account_change s (s\<lparr>srv_Limiter := l\<rparr>)"
  using account_changeI [of "srv_Reg s" s] account_change_reg [of "srv_Reg s" s] by simp_all

lemma set_password_frame: "rg_Deliveries (fst (set_admin_password flt now u h db)) = rg_Deliveries db"
  by (simp add: set_admin_password_def Let_def)

lemma create_session_frame:
  "create_session now sid u e db = Inr db' \<Longrightarrow> \<exists>x. db' = db\<lparr>rg_Sessions := rg_Sessions db @ [x]\<rparr>"
  by (auto simp: create_session_def session_insert_def tbl_insert_def split: if_splits option.splits)

lemma session_user_frame:
  "rg_Sites (snd (session_user ev stg r db)) = rg_Sites db" "rg_Rules (snd (session_user ev stg r db)) = rg_Rules db"
  "rg_Channels (snd (session_user ev stg r db)) = rg_Channels db"
  "rg_Deliveries (snd (session_user ev stg r db)) = rg_Deliveries db"
  "rg_Users (snd (session_user ev stg r db)) = rg_Users db"
  using session_user_state [of ev stg r db] by auto

lemma handle_login_frame: "account_change s (snd (handle_login ev r s))"
  by (auto simp: handle_login_def Let_def split_beta split: sum.split bool.split
      intro!: account_changeI dest: create_session_frame)

lemma handle_logout_frame: "account_change s (snd (handle_logout ev r s))"
  by (auto simp: handle_logout_def delete_session_def split: option.split intro!: account_change_reg)

lemma handle_me_frame: "account_change s (snd (handle_me ev r s))"
  by (simp add: handle_me_def Let_def split_beta account_change_reg session_user_frame)

lemma handle_change_password_frame: "account_change s (snd (handle_change_password ev r s))"
  by (auto simp: handle_change_password_def Let_def split_beta set_password_frame set_password_kept session_user_frame
      split: option.split sum.split intro!: account_change_reg)

lemma account_frame: "account_endpoint e \<Longrightarrow> account_change s (snd (handler_of ev e pv r s))"
  unfolding account_endpoint_def
  by (elim insertE emptyE) (simp_all add: handle_login_frame handle_logout_frame handle_me_frame handle_change_password_frame)


text \<open>The configuration endpoints change the site table, the scheduler and the files.\<close>

definition config_endpoint :: "endpoint \<Rightarrow> bool" where
  "config_endpoint e \<longleftrightarrow> e \<in> {E_List_sites, E_Create_site, E_Get_site, E_Update_site, E_Delete_site}"

definition site_change :: "server \<Rightarrow> server \<Rightarrow> bool" where
  "site_change s s' \<longleftrightarrow> (\<exists>sites m sc. s' = s\<lparr>srv_Reg := (srv_Reg s)\<lparr>rg_Sites := sites\<rparr>, srv_Stores := m, srv_Sched := sc\<rparr>)"

lemma site_change_refl [simp]: "site_change s s"
proof -
  have "s = s\<lparr>srv_Reg := (srv_Reg s)\<lparr>rg_Sites := rg_Sites (srv_Reg s)\<rparr>, srv_Stores := srv_Stores s, srv_Sched := srv_Sched s\<rparr>" by simp
  then show ?thesis unfolding site_change_def by blast
qed

lemma site_change_updates:
  assumes "site_change s s'"
  shows "site_change s (s'\<lparr>srv_Stores := m\<rparr>)" "site_change s (s'\<lparr>srv_Sched := c\<rparr>)"
    "site_change s (s'\<lparr>srv_Reg := (srv_Reg s')\<lparr>rg_Sites := rows\<rparr>\<rparr>)"
proof -
  from assms obtain rows0 m0 c0 where s': "s' = s\<lparr>srv_Reg := (srv_Reg s)\<lparr>rg_Sites := rows0\<rparr>, srv_Stores := m0, srv_Sched := c0\<rparr>"
    by (auto simp: site_change_def)
  show "site_change s (s'\<lparr>srv_Stores := m\<rparr>)" unfolding site_change_def s'
    by (intro exI [of _ rows0] exI [of _ m] exI [of _ c0] server.equality) simp_all
  show "site_change s (s'\<lparr>srv_Sched := c\<rparr>)" unfolding site_change_def s'
    by (intro exI [of _ rows0] exI [of _ m0] exI [of _ c] server.equality) simp_all
  show "site_change s (s'\<lparr>srv_Reg := (srv_Reg s')\<lparr>rg_Sites := rows\<rparr>\<rparr>)" unfolding site_change_def s'
    by (intro exI [of _ rows] exI [of _ m0] exI [of _ c0] server.equality) simp_all
qed

lemma site_ops_rows:
  "registry_create c db = Inr db' \<Longrightarrow> \<exists>rows. db' = db\<lparr>rg_Sites := rows\<rparr>"
  "registry_update c db = Inr db' \<Longrightarrow> \<exists>rows. db' = db\<lparr>rg_Sites := rows\<rparr>"
  "registry_delete i db = Inr db' \<Longrightarrow> \<exists>rows. db' = db\<lparr>rg_Sites := rows\<rparr>"
  by (auto simp: registry_update_def registry_delete_def site_remove_def dest: registry_create_ok split: if_splits)

lemma site_change_reg: "\<exists>rows. db = (srv_Reg s)\<lparr>rg_Sites := rows\<rparr> \<Longrightarrow> site_change s (s\<lparr>srv_Reg := db\<rparr>)"
  using site_change_updates(3) [OF site_change_refl] by auto

lemma faulty_InrD: "faulty ev c x = Inr y \<Longrightarrow> x = Inr y"
  by (simp add: faulty_def split: if_splits)

lemma handle_create_site_frame: "site_change s (snd (handle_create_site ev r s))"
proof -
  have "site_change s (s\<lparr>srv_Reg := db\<rparr>)" if "insert_new_site ev c (srv_Reg s) = Inr db" for c db
    using that by (intro site_change_reg site_ops_rows(1) [of c]) (auto simp: insert_new_site_def faulty_def split: if_splits)
  then show ?thesis
    unfolding handle_create_site_def Let_def
    by (auto split: sum.split option.split prod.split intro: site_change_updates)
qed

lemma handle_update_site_frame: "site_change s (snd (handle_update_site ev i r s))"
proof -
  have "site_change s (s\<lparr>srv_Reg := db\<rparr>)" if "faulty ev f (registry_update c (srv_Reg s)) = Inr db" for f c db
    by (intro site_change_reg site_ops_rows(2) [of c] faulty_InrD [OF that])
  then show ?thesis
    unfolding handle_update_site_def Let_def
    by (auto split: sum.split option.split prod.split intro: site_change_updates)
qed

lemma handle_delete_site_frame: "site_change s (snd (handle_delete_site ev i r s))"
proof -
  have "site_change s (s\<lparr>srv_Reg := db\<rparr>)" if "faulty ev f (registry_delete i (srv_Reg s)) = Inr db" for f db
    by (intro site_change_reg site_ops_rows(3) [of i] faulty_InrD [OF that])
  then show ?thesis
    unfolding handle_delete_site_def Let_def by (auto split: sum.split intro: site_change_updates)
qed

lemma config_frame: "config_endpoint e \<Longrightarrow> site_change s (snd (handler_of ev e pv r s))"
  unfolding config_endpoint_def
  by (elim insertE emptyE) (simp_all add: handle_create_site_frame handle_update_site_frame handle_delete_site_frame
      handle_list_sites_def handle_get_site_def split: sum.split)

lemma endpoint_groups: "data_endpoint e \<or> alert_endpoint e \<or> account_endpoint e \<or> config_endpoint e"
  by (cases e) (simp_all add: data_endpoint_def alert_endpoint_def account_endpoint_def config_endpoint_def)

subsection \<open>Through the gates and the router\<close>

lemmas change_defs = stores_change_def alert_change_def account_change_def site_change_def session_change_def session_cleanup_def

lemma same_settings_trans: "same_settings a b \<Longrightarrow> same_settings b c \<Longrightarrow> same_settings a c"
  by (simp add: same_settings_def)

lemma change_settings:
  "stores_change s s' \<Longrightarrow> same_settings s s'" "alert_change s s' \<Longrightarrow> same_settings s s'"
  "account_change s s' \<Longrightarrow> same_settings s s'" "site_change s s' \<Longrightarrow> same_settings s s'"
  by (auto simp: change_defs same_settings_def)

lemma handler_settings: "same_settings s (snd (handler_of ev e pv r s))"
  using endpoint_groups [of e] data_frame [of e s ev pv r] alert_frame [of e s ev pv r]
    account_frame [of e s ev pv r] config_frame [of e s ev pv r] change_settings by blast

lemma gate_settings: "session_change s s' \<Longrightarrow> same_settings s s'" "session_cleanup s s' \<Longrightarrow> same_settings s s'"
  by (auto simp: session_change_def session_cleanup_def same_settings_def)

text \<open>A relation that the gates and every handler respect holds across \<open>serve\<close>.\<close>

lemma serve_frame:
  assumes "\<And>seen. R s (s\<lparr>srv_DeprecationSeen := seen\<rparr>)"
    and "\<And>x y. R s x \<Longrightarrow> session_change x y \<Longrightarrow> R s y" and "\<And>x y. R s x \<Longrightarrow> session_cleanup x y \<Longrightarrow> R s y"
    and "\<And>x e pv. R s x \<Longrightarrow> endpoint_of s r = Some (e, pv) \<Longrightarrow> R s (snd (handler_of ev e pv r x))"
  shows "R s (snd (serve ev r s))"
proof (cases rule: serve_cases [of s r ev, case_names unrouted routed])
  case (unrouted seen q)
  then show ?thesis using assms(1) by simp
next
  case (routed e pv seen)
  let ?s = "s\<lparr>srv_DeprecationSeen := seen\<rparr>"
  show ?thesis
  proof (cases rule: dispatch_cases [of ev e pv r ?s, case_names granted refused])
    case (granted s1)
    with routed assms(4) [OF assms(2) [OF assms(1)] routed(1)] show ?thesis by simp
  next
    case (refused resp s1)
    with routed assms(3) [OF assms(1)] show ?thesis by simp
  qed
qed

lemma serve_settings: "same_settings s (snd (serve ev r s))"
proof (rule serve_frame [where R = same_settings])
  show "same_settings s (s\<lparr>srv_DeprecationSeen := seen\<rparr>)" for seen by (simp add: same_settings_def)
qed (blast intro: same_settings_trans gate_settings handler_settings)+

lemma serve_limiter:
  assumes "\<And>pv. endpoint_of s r \<noteq> Some (E_Login, pv)"
  shows "srv_Limiter (snd (serve ev r s)) = srv_Limiter s"
proof (rule serve_frame [where R = "\<lambda>s s'. srv_Limiter s' = srv_Limiter s"])
  have other: "srv_Limiter (snd (handler_of ev e pv r x)) = srv_Limiter x" if "e \<noteq> E_Login" for e pv x
  proof (cases "account_endpoint e")
    case True
    with that show ?thesis
      by (auto simp: account_endpoint_def handle_logout_def handle_me_def handle_change_password_def Let_def split_beta
          split: option.split sum.split)
  next
    case False
    then show ?thesis
      using endpoint_groups [of e] data_frame [of e x ev pv r] alert_frame [of e x ev pv r] config_frame [of e x ev pv r]
      by (auto simp: stores_change_def alert_change_def site_change_def)
  qed
  show "srv_Limiter (snd (handler_of ev e pv r x)) = srv_Limiter s"
    if "srv_Limiter x = srv_Limiter s" "endpoint_of s r = Some (e, pv)" for x e pv
    using that other [of e pv x] assms by auto
qed (auto simp: session_change_def session_cleanup_def)

lemma handler_sites:
  assumes "e \<notin> {E_Create_site, E_Update_site, E_Delete_site}"
  shows "rg_Sites (srv_Reg (snd (handler_of ev e pv r s))) = rg_Sites (srv_Reg s)"
proof (cases "config_endpoint e")
  case True
  with assms show ?thesis
    by (auto simp: config_endpoint_def handle_list_sites_def handle_get_site_def split: sum.split)
next
  case False
  then show ?thesis
    using endpoint_groups [of e] data_frame [of e s ev pv r] alert_frame [of e s ev pv r] account_frame [of e s ev pv r]
    by (auto simp: stores_change_def alert_change_def account_change_def)
qed

end
