(* ===== verification/Accounts.thy ===== *)
theory Accounts
  imports Frames RegistryLaws
begin

section \<open>Logging in (api/auth.go with auth/ratelimit.go and storage/session.go)\<close>

text \<open>
  The login endpoint composes the throttle, the accounts and the sessions.  The first property
  bounds password guessing from the outside: it speaks of the answers the server gave, in any run
  over any endpoints.  The others follow a session from the login to its end.
\<close>

subsection \<open>The outcomes of a login\<close>

definition login_keys :: "server \<Rightarrow> request \<Rightarrow> string list" where
  "login_keys s r =
     (case decode_body decode_login r of
        Inl _ \<Rightarrow> []
      | Inr inp \<Rightarrow> throttle_keys (lr_Username inp) (client_ip (srv_RealIPHeader s) r))"

lemma decode_body_error: "decode_body dec r = Inl e \<Longrightarrow> rs_Status e = 400"
  by (auto simp: decode_body_def write_error_def write_json_def split: body.splits option.splits)

lemma status_write [simp]: "rs_Status (write_error n m) = n" "rs_Status (write_json n b) = n"
  by (simp_all add: write_error_def write_json_def)

lemma handle_login_cases:
  obtains (invalid) resp where "handle_login ev r s = (resp, s)" "rs_Status resp = 400"
  | (throttled) resp s' where "handle_login ev r s = (resp, s')" "rs_Status resp = 429"
      "\<not> fst (allowed (ev_Now ev) (login_keys s r) (srv_Limiter s))"
      "s' = s\<lparr>srv_Limiter := snd (retry_after (ev_Now ev) (login_keys s r)
         (snd (allowed (ev_Now ev) (login_keys s r) (srv_Limiter s))))\<rparr>"
  | (fault) resp s' where "handle_login ev r s = (resp, s')" "rs_Status resp = 500"
      "fst (allowed (ev_Now ev) (login_keys s r) (srv_Limiter s))"
      "s' = s\<lparr>srv_Limiter := snd (allowed (ev_Now ev) (login_keys s r) (srv_Limiter s))\<rparr>"
  | (failed) s' where "handle_login ev r s = (write_error 401 ''invalid username or password'', s')"
      "fst (allowed (ev_Now ev) (login_keys s r) (srv_Limiter s))" "login_keys s r \<noteq> []"
      "s' = s\<lparr>srv_Limiter := record_failure (ev_Now ev) (login_keys s r)
         (snd (allowed (ev_Now ev) (login_keys s r) (srv_Limiter s)))\<rparr>"
  | (granted) inp u token sid db where "decode_body decode_login r = Inr inp"
      "admin_user_by_name (srv_Reg s) (lr_Username inp) = Inr u"
      "check_password (ev_Compare ev) (au_PasswordHash u) (lr_Password inp)"
      "new_session_token (ev_Sha256 ev) (ev_Entropy ev) = Inr (token, sid)"
      "fst (allowed (ev_Now ev) (login_keys s r) (srv_Limiter s))"
      "create_session (now_unix ev) sid (au_ID u) (session_expiry ev) (srv_Reg s) = Inr db"
      "handle_login ev r s = ((write_json 200 (R_login (au_Username u) (session_expiry ev)))
         \<lparr>rs_Cookie := Some (session_cookie_for s token (session_expiry ev))\<rparr>,
         s\<lparr>srv_Reg := db, srv_Limiter := reset (login_keys s r)
           (snd (allowed (ev_Now ev) (login_keys s r) (srv_Limiter s)))\<rparr>)"
proof (cases "decode_body decode_login r")
  case (Inl e)
  then show ?thesis using invalid [of e] decode_body_error [OF Inl] by (simp add: handle_login_def)
next
  case (Inr inp)
  show ?thesis
  proof (cases "lr_Username inp = [] \<or> lr_Password inp = []")
    case True
    with Inr show ?thesis using invalid by (simp add: handle_login_def)
  next
    case full: False
    have keys: "throttle_keys (lr_Username inp) (client_ip (srv_RealIPHeader s) r) = login_keys s r"
      by (simp add: login_keys_def Inr)
    obtain ok lim where lim: "allowed (ev_Now ev) (login_keys s r) (srv_Limiter s) = (ok, lim)" by fastforce
    note unfold = handle_login_def Inr sum.case if_not_P [OF full] Let_def keys lim prod.case
    show ?thesis
    proof (cases ok)
      case False
      obtain d lim' where "retry_after (ev_Now ev) (login_keys s r) lim = (d, lim')" by fastforce
      with False show ?thesis
        by (intro throttled [of "fst (handle_login ev r s)"]) (simp_all add: unfold)
    next
      case True
      show ?thesis
      proof (cases "ev_Fault ev User_by_name_call")
        case fault1: True
        with True lim show ?thesis by (intro fault [of "write_error 500 ''login unavailable''"]) (simp_all add: unfold)
      next
        case no_fault1: False
        show ?thesis
        proof (cases "\<exists>u. admin_user_by_name (srv_Reg s) (lr_Username inp) = Inr u \<and>
            check_password (ev_Compare ev) (au_PasswordHash u) (lr_Password inp)")
          case False
          then have "handle_login ev r s = (write_error 401 ''invalid username or password'',
              s\<lparr>srv_Limiter := record_failure (ev_Now ev) (login_keys s r) lim\<rparr>)"
            using True no_fault1 by (auto simp: unfold split: sum.splits bool.splits)
          with True lim show ?thesis by (intro failed) (simp_all add: login_keys_def throttle_keys_def Inr)
        next
          case u: True
          then obtain u where u: "admin_user_by_name (srv_Reg s) (lr_Username inp) = Inr u"
            "check_password (ev_Compare ev) (au_PasswordHash u) (lr_Password inp)" by blast
          let ?create = "\<lambda>sid. create_session (now_unix ev) sid (au_ID u) (session_expiry ev) (srv_Reg s)"
          have err: ?thesis if "handle_login ev r s = (write_error 500 ''could not start session'', s\<lparr>srv_Limiter := lim\<rparr>)"
            using that lim True by (intro fault [of "write_error 500 ''could not start session''"]) simp_all
          show ?thesis
          proof (cases "new_session_token (ev_Sha256 ev) (ev_Entropy ev)")
            case (Inl e)
            with u True no_fault1 show ?thesis by (intro err) (simp add: unfold)
          next
            case tok: (Inr p)
            obtain token sid where p: "p = (token, sid)" by fastforce
            show ?thesis
            proof (cases "ev_Fault ev Create_session_call")
              case True
              with u \<open>ok\<close> no_fault1 tok p show ?thesis by (intro err) (simp add: unfold)
            next
              case False
              show ?thesis
              proof (cases "?create sid")
                case (Inl e)
                with False u \<open>ok\<close> no_fault1 tok p show ?thesis by (intro err) (simp add: unfold)
              next
                case db: (Inr db)
                with False u \<open>ok\<close> no_fault1 tok p lim show ?thesis
                  by (intro granted [OF Inr u(1,2) _ _ db]) (simp_all add: unfold session_cookie_for_def)
              qed
            qed
          qed
        qed
      qed
    qed
  qed
qed

subsection \<open>Guessing is bounded\<close>

text \<open>
  What an observer of the answers counts: the refused logins of each throttle key since
  its last granted one.  Events are requests some time after one another.
\<close>

definition note_answer :: "int \<Rightarrow> server \<Rightarrow> request \<Rightarrow> response \<Rightarrow> (string \<Rightarrow> int list) \<Rightarrow> string \<Rightarrow> int list" where
  "note_answer now s r resp h =
     (case endpoint_of s r of
        Some (E_Login, _) \<Rightarrow>
          if rs_Status resp = 401 then note_call now (Record_failure (login_keys s r)) h
          else if rs_Status resp = 200 then note_call now (Reset (login_keys s r)) h else h
      | _ \<Rightarrow> h)"

fun observed_step :: "int \<times> server \<times> (string \<Rightarrow> int list) \<Rightarrow> nat \<times> env \<times> request \<Rightarrow> int \<times> server \<times> (string \<Rightarrow> int list)" where
  "observed_step (now, s, h) (dt, ev, r) =
     (let now = now + int dt; (resp, s') = serve (ev\<lparr>ev_Now := now\<rparr>) r s
      in (now, s', note_answer now s r resp h))"

text \<open>The throttle knows what the observer counted, and no key is over the limit.\<close>

definition throttle_inv :: "int \<times> server \<times> (string \<Rightarrow> int list) \<Rightarrow> bool" where
  "throttle_inv st \<longleftrightarrow> (case st of (now, s, h) \<Rightarrow>
     agrees now (srv_Limiter s) h \<and> lm_Max (srv_Limiter s) = DefaultMaxAttempts \<and>
     lm_Window (srv_Limiter s) = DefaultWindow \<and>
     (\<forall>k. int (length (recent now DefaultWindow h k)) \<le> DefaultMaxAttempts))"

lemma recent_mono: "now \<le> now' \<Longrightarrow> length (recent now' w h k) \<le> length (recent now w h k)"
proof -
  assume "now \<le> now'"
  then have "recent now' w h k = filter (\<lambda>t. t > now' - w) (recent now w h k)"
    by (auto simp: recent_def intro: filter_cong)
  then show ?thesis by simp
qed

lemma throttle_inv_later: "throttle_inv (now, s, h) \<Longrightarrow> now \<le> now' \<Longrightarrow> throttle_inv (now', s, h)"
  using recent_mono [of now now' DefaultWindow h]
  by (auto simp: throttle_inv_def intro: agrees_later order.trans [OF of_nat_mono])

lemma throttle_inv_cong: "srv_Limiter s' = srv_Limiter s \<Longrightarrow> throttle_inv (now, s', h) = throttle_inv (now, s, h)"
  by (simp add: throttle_inv_def)

lemma login_keys_count: "count_list (login_keys s r) k = (if k \<in> set (login_keys s r) then 1 else 0)"
  by (auto simp: login_keys_def throttle_keys_def split: sum.split)

lemma record_bounded:
  assumes "throttle_inv (now, s, h)" "fst (allowed now (login_keys s r) (srv_Limiter s))" "0 < w"
  shows "int (length (recent now w (note_call now (Record_failure (login_keys s r)) h) k)) \<le>
    (if k \<in> set (login_keys s r) then int (length (recent now w h k)) + 1 else int (length (recent now w h k)))"
  using assms(3) by (auto simp: note_call_def recent_def login_keys_count)

lemma handle_login_throttle:
  assumes "throttle_inv (now, s, h)" "ev_Now ev = now" "handle_login ev r s = (resp, s')"
  shows "throttle_inv (now, s', if rs_Status resp = 401 then note_call now (Record_failure (login_keys s r)) h
           else if rs_Status resp = 200 then note_call now (Reset (login_keys s r)) h else h)"
proof -
  let ?l = "snd (allowed now (login_keys s r) (srv_Limiter s))"
  have inv: "agrees now (srv_Limiter s) h" "lm_Max (srv_Limiter s) = DefaultMaxAttempts"
    "lm_Window (srv_Limiter s) = DefaultWindow"
    "int (length (recent now DefaultWindow h k)) \<le> DefaultMaxAttempts" for k
    using assms(1) by (simp_all add: throttle_inv_def)
  note al = allowed_agrees [OF inv(1), of "login_keys s r"]
  show ?thesis
  proof (cases rule: handle_login_cases [of ev r s, case_names invalid throttled fault failed granted])
    case (invalid x)
    with assms show ?thesis by simp
  next
    case (throttled x y)
    then have "s' = s\<lparr>srv_Limiter := snd (retry_after now (login_keys s r) ?l)\<rparr>" using assms(2,3) by simp
    with throttled assms retry_after_agrees [OF al(2), of "login_keys s r"] al inv show ?thesis
      by (simp add: throttle_inv_def)
  next
    case (fault x y)
    then have "s' = s\<lparr>srv_Limiter := ?l\<rparr>" using assms(2,3) by simp
    with fault assms al inv show ?thesis by (simp add: throttle_inv_def)
  next
    case (failed y)
    have few: "int (length (recent now DefaultWindow h k)) < DefaultMaxAttempts" if "k \<in> set (login_keys s r)" for k
      using failed(2) that al(1) assms(2) inv(2,3) by (simp add: list_all_iff)
    have "int (length (recent now DefaultWindow (note_call now (Record_failure (login_keys s r)) h) k)) \<le> DefaultMaxAttempts" for k
      using few [of k] inv(4) [of k] record_bounded [OF assms(1), of r DefaultWindow k] failed(2) assms(2)
      by (simp add: DefaultWindow_def split: if_splits)
    moreover have "s' = s\<lparr>srv_Limiter := record_failure now (login_keys s r) ?l\<rparr>" "rs_Status resp = 401"
      using failed(1,4) assms(2,3) by auto
    ultimately show ?thesis
      using record_failure_agrees [OF al(2), of "login_keys s r"] al inv by (simp add: throttle_inv_def)
  next
    case (granted inp u token sid db)
    have "int (length (recent now DefaultWindow (note_call now (Reset (login_keys s r)) h) k)) \<le> DefaultMaxAttempts" for k
      using inv(4) [of k] by (simp add: note_call_def recent_def DefaultMaxAttempts_def)
    moreover have "s' = s\<lparr>srv_Reg := db, srv_Limiter := reset (login_keys s r) ?l\<rparr>" "rs_Status resp = 200"
      using granted(7) assms(2,3) by auto
    ultimately show ?thesis
      using reset_agrees [OF al(2), of "login_keys s r"] al inv by (simp add: throttle_inv_def reset_attempts)
  qed
qed

lemma login_served:
  assumes "endpoint_of s r = Some (E_Login, pv)"
  obtains seen where "serve ev r s = (add_cors r s (fst (handle_login ev r (s\<lparr>srv_DeprecationSeen := seen\<rparr>))),
    snd (handle_login ev r (s\<lparr>srv_DeprecationSeen := seen\<rparr>)))"
proof (cases rule: serve_cases [of s r ev, case_names unrouted routed])
  case (routed e pv seen)
  with assms that [of seen] show ?thesis by simp
qed (use assms in simp)

lemma observed_step_inv: "throttle_inv st \<Longrightarrow> throttle_inv (observed_step st e)"
proof -
  assume st: "throttle_inv st"
  obtain now s h dt ev r where e: "st = (now, s, h)" "e = (dt, ev, r)" by (cases st; cases e) auto
  define now' where "now' = now + int dt"
  define ev' where "ev' = ev\<lparr>ev_Now := now'\<rparr>"
  have inv: "throttle_inv (now', s, h)" using st e(1) by (auto simp: now'_def intro: throttle_inv_later)
  obtain resp s' where sv: "serve ev' r s = (resp, s')" by fastforce
  have "throttle_inv (now', s', note_answer now' s r resp h)"
  proof (cases "\<exists>pv. endpoint_of s r = Some (E_Login, pv)")
    case False
    then have "srv_Limiter s' = srv_Limiter s" using serve_limiter [of s r ev'] sv by auto
    moreover have "note_answer now' s r resp h = h"
    proof (cases "endpoint_of s r")
      case (Some a)
      with False show ?thesis by (cases a; cases "fst a") (simp_all add: note_answer_def)
    qed (simp add: note_answer_def)
    ultimately show ?thesis using inv throttle_inv_cong [of s' s now' h] by simp
  next
    case True
    then obtain pv where ep: "endpoint_of s r = Some (E_Login, pv)" by blast
    from login_served [OF this, of ev'] obtain seen where
      l: "serve ev' r s = (add_cors r s (fst (handle_login ev' r (s\<lparr>srv_DeprecationSeen := seen\<rparr>))),
        snd (handle_login ev' r (s\<lparr>srv_DeprecationSeen := seen\<rparr>)))" .
    let ?s = "s\<lparr>srv_DeprecationSeen := seen\<rparr>"
    have "throttle_inv (now', ?s, h)" using inv throttle_inv_cong [of ?s s now' h] by simp
    moreover have "ev_Now ev' = now'" by (simp add: ev'_def)
    ultimately have t: "throttle_inv (now', snd (handle_login ev' r ?s),
        if rs_Status (fst (handle_login ev' r ?s)) = 401 then note_call now' (Record_failure (login_keys ?s r)) h
        else if rs_Status (fst (handle_login ev' r ?s)) = 200 then note_call now' (Reset (login_keys ?s r)) h else h)"
      by (rule handle_login_throttle) simp
    have "rs_Status resp = rs_Status (fst (handle_login ev' r ?s))" "s' = snd (handle_login ev' r ?s)"
      using l sv by (simp_all add: add_cors_def)
    moreover have "login_keys ?s r = login_keys s r" by (simp add: login_keys_def split: sum.split)
    ultimately show ?thesis using t by (simp only: note_answer_def ep option.case prod.case endpoint.case)
  qed
  then show ?thesis using e sv by (simp add: Let_def now'_def ev'_def)
qed

interpretation observed: stepping observed_step throttle_inv
  by unfold_locales (rule observed_step_inv)


text \<open>
  The bound is per spelling, not per account: the throttle keys on the name as typed, the lookup
  on the normalised name, so every number of trailing blanks is a key of its own for one account.
\<close>

lemma trim_trailing_blanks: "trim_space (name @ replicate n (CHR '' '')) = trim_space name"
proof -
  have drop: "dropWhile is_space (replicate n (CHR '' '') @ xs) = dropWhile is_space xs" for xs
    by (induction n) (simp_all add: is_space_def byte_def)
  show ?thesis
  proof (cases "\<forall>c\<in>set name. is_space c")
    case True
    then have "dropWhile is_space name = []" "dropWhile is_space (name @ replicate n (CHR '' '')) = []"
      by (simp_all add: is_space_def byte_def)
    then show ?thesis unfolding trim_space_def trim_by_def by (simp only:)
  next
    case False
    then obtain c where "c \<in> set name" "\<not> is_space c" by blast
    then have "dropWhile is_space (name @ ys) = dropWhile is_space name @ ys" for ys by (rule dropWhile_append1)
    with drop show ?thesis by (simp add: trim_space_def trim_by_def)
  qed
qed

lemma throttle_counts_spellings:
  "admin_user_by_name db (name @ replicate n (CHR '' '')) = admin_user_by_name db name"
  "(hd (throttle_keys (name @ replicate n (CHR '' '')) ip) = hd (throttle_keys (name @ replicate m (CHR '' '')) ip')) = (n = m)"
proof -
  show "admin_user_by_name db (name @ replicate n (CHR '' '')) = admin_user_by_name db name"
    by (simp add: admin_user_by_name_def normalise_username_def trim_trailing_blanks)
  have "replicate n (CHR '' '') = replicate m (CHR '' '') \<longleftrightarrow> n = m" by (metis length_replicate)
  then show "(hd (throttle_keys (name @ replicate n (CHR '' '')) ip) = hd (throttle_keys (name @ replicate m (CHR '' '')) ip')) = (n = m)"
    by (simp add: throttle_keys_def)
qed

subsection \<open>From login to logout\<close>

lemma b64url_empty [simp]: "b64url_encode b = [] \<longleftrightarrow> b = []"
  by (cases b rule: b64url_encode.cases) simp_all

lemma create_session_ok:
  assumes "create_session now sid u e db = Inr db'"
  shows "db' = db\<lparr>rg_Sessions := rg_Sessions db @ [\<lparr>se_ID = sid, se_UserID = u, se_CreatedAt = now,
       se_ExpiresAt = e, se_LastSeenAt = now\<rparr>]\<rparr>" "\<not> tbl_has se_ID sid (rg_Sessions db)"
  using assms by (auto simp: create_session_def session_insert_def tbl_insert_def split: if_splits)

lemma user_by_name_id:
  "reg_inv db \<Longrightarrow> admin_user_by_name db n = Inr u \<Longrightarrow> tbl_find au_ID (au_ID u) (rg_Users db) = Some u"
proof -
  assume "reg_inv db" and u: "admin_user_by_name db n = Inr u"
  then have "unique_by au_ID (rg_Users db)" unfolding reg_inv_def by blast
  moreover have "u \<in> set (rg_Users db)"
    using u by (auto simp: admin_user_by_name_def dest: tbl_find_Some_key split: option.splits)
  ultimately show ?thesis by (rule tbl_find_mem)
qed

text \<open>
  C15: a session is what the login granted and nothing more.  A login answered 200 was given the
  name of an account and a password that account's hash accepts; the cookie it sets is hidden
  from scripts, stands for exactly that account at every time before the expiry and for nobody
  from then on, and after a logout with it for nobody at any time.
\<close>

theorem session_from_login_to_logout:
  assumes "server_inv s" "handle_login ev r s = (resp, s')" "rs_Status resp = 200"
    and "ev_Entropy ev \<noteq> Some []" "ev_Sha256 ev' = ev_Sha256 ev" "\<not> ev_Fault ev' Delete_session_call"
  shows "\<exists>inp u c. decode_body decode_login r = Inr inp \<and>
    admin_user_by_name (srv_Reg s) (lr_Username inp) = Inr u \<and>
    check_password (ev_Compare ev) (au_PasswordHash u) (lr_Password inp) \<and>
    rs_Cookie resp = Some c \<and> co_HttpOnly c \<and>
    (let r' = r\<lparr>rq_Cookie := Some (co_Value c)\<rparr> in
       session_account ev' r' (srv_Reg s') = (if now_unix ev' < session_expiry ev then Some u else None) \<and>
       session_account ev' r' (srv_Reg (snd (handle_logout ev' r' s'))) = None)"
proof (cases rule: handle_login_cases [of ev r s, case_names invalid throttled fault failed granted])
  case (granted inp u token sid db)
  let ?c = "session_cookie_for s token (session_expiry ev)"
  let ?r = "r\<lparr>rq_Cookie := Some token\<rparr>"
  from granted(7) assms(2) have s': "srv_Reg s' = db" "rs_Cookie resp = Some ?c" by auto
  have token: "token \<noteq> []" "sid = hash_token (ev_Sha256 ev') token"
    using granted(4) assms(4,5) by (auto simp: new_session_token_def Let_def split: option.splits)
  note db = create_session_ok [OF granted(6)]
  have l: "session_lookup db sid = Some \<lparr>se_ID = sid, se_UserID = au_ID u, se_CreatedAt = now_unix ev,
       se_ExpiresAt = session_expiry ev, se_LastSeenAt = now_unix ev\<rparr>"
    using db by (simp add: session_lookup_def tbl_find_snoc)
  moreover have "rg_Users db = rg_Users (srv_Reg s)" using db(1) by simp
  moreover note user_by_name_id [OF server_invD(1) [OF assms(1)] granted(2)]
  ultimately have "session_account ev' ?r (srv_Reg s') = (if now_unix ev' < session_expiry ev then Some u else None)"
    using token s'(1) by (auto simp: session_account_def live_iff)
  moreover have "session_account ev' ?r (srv_Reg (snd (handle_logout ev' ?r s'))) = None"
    using token assms(6) s'(1)
    by (simp add: handle_logout_def session_account_def live_iff delete_session_def session_lookup_def tbl_find_del)
  ultimately show ?thesis
    using granted(1-3) s'(2) by (intro exI [of _ inp] exI [of _ u] exI [of _ ?c]) (simp add: session_cookie_for_def Let_def)
qed (use assms in auto)


subsection \<open>No username oracle\<close>

text \<open>The answer to a login that is refused, and the throttle it leaves: no account is looked at.\<close>

definition login_refusal :: "env \<Rightarrow> request \<Rightarrow> server \<Rightarrow> response \<times> limiter" where
  "login_refusal ev r s =
     (case decode_body decode_login r of
        Inl e \<Rightarrow> (e, srv_Limiter s)
      | Inr inp \<Rightarrow>
          if lr_Username inp = [] \<or> lr_Password inp = [] then
            (write_error 400 ''username and password are required'', srv_Limiter s)
          else
            let keys = throttle_keys (lr_Username inp) (client_ip (srv_RealIPHeader s) r);
                (ok, lim) = allowed (ev_Now ev) keys (srv_Limiter s)
            in if \<not> ok then
                 let (retry, lim) = retry_after (ev_Now ev) keys lim in
                 ((write_error 429 ''too many login attempts; try again later'')\<lparr>rs_Headers :=
                    [(''Retry-After'', show_int (quot_trunc retry 1000000000 + 1)), (''Content-Type'', ''application/json'')]\<rparr>, lim)
               else (write_error 401 ''invalid username or password'', record_failure (ev_Now ev) keys lim))"

lemma login_refused:
  assumes "rs_Status (fst (handle_login ev r s)) \<notin> {200, 500}"
  shows "handle_login ev r s = (fst (login_refusal ev r s), s\<lparr>srv_Limiter := snd (login_refusal ev r s)\<rparr>)"
proof (cases "decode_body decode_login r")
  case (Inl e)
  then show ?thesis by (simp add: handle_login_def login_refusal_def)
next
  case (Inr inp)
  show ?thesis
  proof (cases "lr_Username inp = [] \<or> lr_Password inp = []")
    case True
    with Inr show ?thesis by (simp add: handle_login_def login_refusal_def)
  next
    case False
    let ?keys = "throttle_keys (lr_Username inp) (client_ip (srv_RealIPHeader s) r)"
    obtain ok lim where a: "allowed (ev_Now ev) ?keys (srv_Limiter s) = (ok, lim)" by fastforce
    note login = handle_login_def login_refusal_def Inr False a Let_def
    show ?thesis
    proof (cases "ok \<and> \<not> ev_Fault ev User_by_name_call")
      case False
      then show ?thesis using assms by (auto simp: login split: prod.split)
    next
      case granted: True
      let ?found = "admin_user_by_name (srv_Reg s) (lr_Username inp)"
      let ?hash = "case ?found of Inl _ \<Rightarrow> ev_DummyHash ev | Inr u \<Rightarrow> au_PasswordHash u"
      show ?thesis
      proof (cases "check_password (ev_Compare ev) ?hash (lr_Password inp) \<and> \<not> is_err ?found")
        case True
        then have "rs_Status (fst (handle_login ev r s)) \<in> {200, 500}"
          using granted by (cases ?found) (auto simp: login split: sum.split)
        with assms show ?thesis by blast
      next
        case False
        then show ?thesis using granted
          by (cases ?found; cases "check_password (ev_Compare ev) ?hash (lr_Password inp)") (simp_all add: login)
      qed
    qed
  qed
qed

text \<open>
  C13: a refused login tells nothing about the accounts.  For the same request and throttle, whatever
  accounts two registries hold, two logins that neither succeed nor meet a failing database get
  the same answer, leave the same throttle and change nothing else: an unknown name and a
  wrong password cannot be told apart.
\<close>

theorem refused_login_tells_nothing:
  "let (q, t) = handle_login ev r (s\<lparr>srv_Reg := db\<rparr>); (q', t') = handle_login ev r (s\<lparr>srv_Reg := db'\<rparr>) in
   if rs_Status q \<in> {200, 500} \<or> rs_Status q' \<in> {200, 500} then True
   else q = q' \<and> t = t'\<lparr>srv_Reg := db\<rparr> \<and> srv_Reg t' = db'"
proof -
  have "login_refusal ev r (s\<lparr>srv_Reg := db\<rparr>) = login_refusal ev r (s\<lparr>srv_Reg := db'\<rparr>)"
    by (cases "decode_body decode_login r") (simp_all add: login_refusal_def Let_def)
  then show ?thesis
    using login_refused [of ev r "s\<lparr>srv_Reg := db\<rparr>"] login_refused [of ev r "s\<lparr>srv_Reg := db'\<rparr>"]
    by (auto simp: Let_def split_beta)
qed

subsection \<open>A worked example\<close>

text \<open>One account, \<open>ann\<close>, with one session open.\<close>

definition demo_env :: env where
  "demo_env = \<lparr>ev_Now = 0, ev_Fault = \<lambda>_. False, ev_PasswordFault = \<lambda>_. False, ev_Taken = False,
     ev_Broken = \<lambda>_. False, ev_ReadFails = \<lambda>_ _. False, ev_RmFails = \<lambda>_. False, ev_Entropy = Some ''xyz'',
     ev_DummyHash = [], ev_Sha256 = \<lambda>x. x, ev_Bcrypt = \<lambda>p c. Some p, ev_Compare = \<lambda>h p. h = p,
     ev_ParseAddress = \<lambda>_. True, ev_Send = \<lambda>_ _ _. None\<rparr>"

definition demo_registry :: registry where
  "demo_registry = empty_registry\<lparr>
     rg_Users := [\<lparr>au_ID = 1, au_Username = ''ann'', au_PasswordHash = ''secret'', au_CreatedAt = 0, au_UpdatedAt = 0\<rparr>],
     rg_Sessions := [\<lparr>se_ID = hash_token (\<lambda>x. x) ''t'', se_UserID = 1, se_CreatedAt = 0, se_ExpiresAt = 100, se_LastSeenAt = 0\<rparr>]\<rparr>"

definition demo_server :: server where
  "demo_server = new_server demo_registry (new_manager Map.empty) new_scheduler ''k'' []"

definition demo_request :: "string \<Rightarrow> string \<Rightarrow> json \<Rightarrow> request" where
  "demo_request m p j = \<lparr>rq_Method = m, rq_Path = p, rq_Query = [], rq_Headers = [(''X-API-Key'', ''k'')], rq_Cookie = Some ''t'',
     rq_RemoteAddr = ''10.0.0.1:80'', rq_Body = Parsed j\<rparr>"

lemma demo_server_inv: "server_inv demo_server"
proof -
  have "normalise_username ''ann'' = ''ann''" by code_simp
  then have "reg_inv demo_registry"
    by (simp add: reg_inv_def demo_registry_def empty_registry_def unique_by_def tbl_has_def)
  moreover have "config_ok demo_registry" by (simp add: config_ok_def demo_registry_def empty_registry_def)
  moreover have "running new_scheduler = enabled_sites demo_registry"
    by (simp add: running_def new_scheduler_def enabled_sites_def site_lookup_def demo_registry_def
        empty_registry_def tbl_find_def fun_eq_iff)
  ultimately show ?thesis
    by (simp add: server_inv_def demo_server_def new_server_def sched_inv_new stores_inv_def new_manager_def)
qed

definition demo_login :: request where
  "demo_login = demo_request ''POST'' ''/api/auth/login'' (J_obj [(''username'', J_str '' Ann''), (''password'', J_str ''secret'')])"

theorem session_from_login_to_logout_witness:
  "\<exists>c. rs_Cookie (fst (handle_login demo_env demo_login demo_server)) = Some c \<and>
     session_account demo_env (demo_login\<lparr>rq_Cookie := Some (co_Value c)\<rparr>)
       (srv_Reg (snd (handle_login demo_env demo_login demo_server))) \<noteq> None"
proof -
  have st: "rs_Status (fst (handle_login demo_env demo_login demo_server)) = 200" by code_simp
  have e: "ev_Entropy demo_env \<noteq> Some []" "\<not> ev_Fault demo_env Delete_session_call" by (simp_all add: demo_env_def)
  have t: "now_unix demo_env < session_expiry demo_env" by code_simp
  from session_from_login_to_logout [OF demo_server_inv prod.collapse [symmetric] st e(1) refl e(2)] t
  show ?thesis by (auto simp: Let_def)
qed

definition demo_change :: request where
  "demo_change = demo_request ''PUT'' ''/api/auth/password''
     (J_obj [(''current_password'', J_str ''secret''), (''new_password'', J_str ''correct horse'')])"


end
