(* ===== verification/SiteLife.thy ===== *)
theory SiteLife
  imports Accounts
begin

section \<open>The life of a site through the API\<close>

text \<open>
  The sites of the registry as a map from ids to configurations, and what each endpoint does
  to that map: the contract of the configuration endpoints, which \<open>serve\<close> implements whatever
  the mount, the credentials and the failing database calls.  The same for the
  monitoring data of the sites.
\<close>

abbreviation sites_of :: "server \<Rightarrow> string \<rightharpoonup> site_config" where
  "sites_of s \<equiv> site_lookup (srv_Reg s)"

definition added_site :: "unix \<Rightarrow> response \<Rightarrow> (string \<rightharpoonup> site_config) \<Rightarrow> (string \<rightharpoonup> site_config) \<Rightarrow> bool" where
  "added_site now resp m m' \<longleftrightarrow> (\<exists>c key. m (sc_ID c) = None \<and> validate c = None \<and> m' = m(sc_ID c \<mapsto> c) \<and>
     sc_CreatedAt c = now \<and> sc_UpdatedAt c = now \<and> rs_Body resp = R_site (marshal_site c) key)"

definition replaced_site :: "unix \<Rightarrow> string \<Rightarrow> response \<Rightarrow> (string \<rightharpoonup> site_config) \<Rightarrow> (string \<rightharpoonup> site_config) \<Rightarrow> bool" where
  "replaced_site now i resp m m' \<longleftrightarrow> (\<exists>old c key. m i = Some old \<and> sc_ID c = i \<and> validate c = None \<and> m' = m(i \<mapsto> c) \<and>
     sc_CreatedAt c = sc_CreatedAt old \<and> sc_UpdatedAt c = now \<and> rs_Body resp = R_site (marshal_site c) key)"

definition listed_sites :: "site_view list \<Rightarrow> (string \<rightharpoonup> site_config) \<Rightarrow> bool" where
  "listed_sites vs m \<longleftrightarrow> (\<exists>xs. vs = map marshal_site xs \<and> sorted (map sc_ID xs) \<and> distinct (map sc_ID xs) \<and>
     (\<forall>k c. m k = Some c \<longleftrightarrow> c \<in> set xs \<and> sc_ID c = k))"

fun sites_spec :: "unix \<Rightarrow> endpoint \<Rightarrow> string \<Rightarrow> response \<Rightarrow> (string \<rightharpoonup> site_config) \<Rightarrow> (string \<rightharpoonup> site_config) \<Rightarrow> bool" where
  "sites_spec now E_Create_site i resp m m' = (if rs_Status resp = 201 then added_site now resp m m' else m' = m)"
| "sites_spec now E_Update_site i resp m m' = (if rs_Status resp = 200 then replaced_site now i resp m m' else m' = m)"
| "sites_spec now E_Delete_site i resp m m' = (if rs_Status resp = 204 then m i \<noteq> None \<and> m' = m(i := None) else m' = m)"
| "sites_spec now E_Get_site i resp m m' \<longleftrightarrow> m' = m \<and>
     (if rs_Status resp = 200 then \<exists>c. m i = Some c \<and> rs_Body resp = R_site (marshal_site c) [] else True)"
| "sites_spec now E_List_sites i resp m m' \<longleftrightarrow> m' = m \<and>
     (if rs_Status resp = 200 then \<exists>vs. listed_sites vs m \<and> rs_Body resp = R_sites vs else True)"
| "sites_spec now _ i resp m m' \<longleftrightarrow> m' = m"

subsection \<open>The handlers\<close>

lemma write_site_simps [simp]:
  "rs_Status (write_site n c key) = n" "rs_Body (write_site n c key) = R_site (marshal_site c) key"
  by (simp_all add: write_site_def write_json_def)

lemma errors_not_ok [simp]: "rs_Status (registry_err e) \<noteq> 200" "rs_Status (registry_err e) \<noteq> 204"
  by (simp_all add: registry_err_def)

lemma create_site_spec:
  assumes "handle_create_site ev r s = (resp, s')"
  shows "if rs_Status resp = 201 then added_site (now_unix ev) resp (sites_of s) (sites_of s') else s' = s"
proof -
  have step: "added_site (now_unix ev) (write_site 201 c key) (sites_of s) (site_lookup db)"
    if "insert_new_site ev c (srv_Reg s) = Inr db" "validate c = None" "sc_CreatedAt c = now_unix ev" "sc_UpdatedAt c = now_unix ev"
    for c key db
  proof -
    from that(1) have "registry_create c (srv_Reg s) = Inr db"
      by (auto simp: insert_new_site_def faulty_def split: if_splits)
    note ok = registry_create_ok [OF this]
    have "sites_of s (sc_ID c) = None" using ok(2) by (auto simp: site_lookup_def tbl_has_find)
    moreover have "site_lookup db = (sites_of s)(sc_ID c \<mapsto> c)"
      using ok by (auto simp: site_lookup_def fun_eq_iff tbl_find_snoc)
    ultimately show ?thesis unfolding added_site_def using that(2-4)
      by (intro exI [of _ c] exI [of _ key]) simp
  qed
  show ?thesis
    using assms unfolding handle_create_site_def Let_def
    by (auto dest!: decode_body_error split: sum.splits option.splits if_splits prod.splits
        intro!: step)
qed

lemma update_site_spec:
  assumes "handle_update_site ev i r s = (resp, s')" "i \<noteq> []"
  shows "if rs_Status resp = 200 then replaced_site (now_unix ev) i resp (sites_of s) (sites_of s') else s' = s"
proof -
  have step: "replaced_site (now_unix ev) i (write_site 200 c key) (sites_of s) (site_lookup db)"
    if "faulty ev f (registry_get (srv_Reg s) i) = Inr old" "faulty ev g (registry_update c (srv_Reg s)) = Inr db"
      "validate c = None" "sc_ID c = i" "sc_CreatedAt c = sc_CreatedAt old" "sc_UpdatedAt c = now_unix ev"
    for c key db old f g
  proof -
    from that(1) have l: "sites_of s i = Some old" by (auto simp: faulty_def registry_get_def split: if_splits option.splits)
    from that(2) have db: "db = (srv_Reg s)\<lparr>rg_Sites := tbl_set sc_ID i (set_site_columns c) (rg_Sites (srv_Reg s))\<rparr>"
      by (auto simp: faulty_def registry_update_def that(4) split: if_splits)
    have "set_site_columns c old = c"
      using site_lookup_ID [OF l] that(4,5) by (simp add: set_site_columns_def)
    moreover have "sc_ID (set_site_columns c x) = sc_ID x" for x by (simp add: set_site_columns_def)
    ultimately have "site_lookup db = (sites_of s)(i \<mapsto> c)"
      using l by (auto simp: site_lookup_def db fun_eq_iff tbl_find_set)
    with l that(3-6) show ?thesis unfolding replaced_site_def
      by (intro exI [of _ old] exI [of _ c] exI [of _ key]) simp
  qed
  show ?thesis
    using assms unfolding handle_update_site_def Let_def
    by (auto dest!: decode_body_error split: sum.splits option.splits if_splits prod.splits intro!: step)
qed

lemma delete_site_spec:
  assumes "handle_delete_site ev i r s = (resp, s')"
  shows "if rs_Status resp = 204 then sites_of s i \<noteq> None \<and> sites_of s' = (sites_of s)(i := None) else s' = s"
proof -
  have step: "site_lookup db = (sites_of s)(i := None) \<and> sites_of s i \<noteq> None"
    if "faulty ev f (registry_delete i (srv_Reg s)) = Inr db" for f db
    using that by (auto simp: faulty_def registry_delete_def site_lookup_def site_remove_def tbl_find_del
        tbl_has_find fun_eq_iff split: if_splits)
  show ?thesis
    using assms unfolding handle_delete_site_def Let_def no_content_def
    by (auto split: sum.splits if_splits dest!: step)
qed

lemma listed_sites_registry: "unique_by sc_ID (rg_Sites db) \<Longrightarrow> listed_sites (map marshal_site (registry_list db)) (site_lookup db)"
  unfolding listed_sites_def
proof (intro exI [of _ "registry_list db"] conjI allI refl)
  assume u: "unique_by sc_ID (rg_Sites db)"
  show "sorted (map sc_ID (registry_list db))" by (simp add: registry_list_def)
  show "distinct (map sc_ID (registry_list db))"
    using u unique_by_sort [of sc_ID "rg_Sites db"] by (simp add: unique_by_def registry_list_def)
  show "site_lookup db k = Some c \<longleftrightarrow> c \<in> set (registry_list db) \<and> sc_ID c = k" for k c
    using tbl_find_mem [OF u, of c] by (auto simp: site_lookup_def registry_list_def dest: tbl_find_Some_key)
qed

lemma handler_sites_spec:
  assumes "handler_of ev e pv r s = (resp, s')" and u: "unique_by sc_ID (rg_Sites (srv_Reg s))" and "sites_of s [] = None"
  shows "sites_spec (now_unix ev) e pv resp (sites_of s) (sites_of s')"
proof -
  have other: "sites_of s' = sites_of s" if "e \<notin> {E_Create_site, E_Update_site, E_Delete_site}"
    using handler_sites [OF that, of ev pv r s] assms(1) by (simp add: site_lookup_def fun_eq_iff)
  show ?thesis
  proof (cases "config_endpoint e")
    case True
    then consider "e = E_List_sites" | "e = E_Get_site" | "e = E_Create_site" | "e = E_Update_site" | "e = E_Delete_site"
      by (auto simp: config_endpoint_def)
    then show ?thesis
    proof cases
      case 1
      with assms(1) other listed_sites_registry [OF u] show ?thesis
        by (auto simp: handle_list_sites_def write_json_def split: if_splits)
    next
      case 2
      with assms(1) other show ?thesis
        by (auto simp: handle_get_site_def faulty_def registry_get_def write_json_def split: if_splits sum.splits option.splits)
    next
      case 3
      with create_site_spec [of ev r s resp s'] assms(1) show ?thesis by (auto split: if_splits)
    next
      case 4
      show ?thesis
      proof (cases "pv = []")
        case True
        with assms 4 have "s' = s \<and> rs_Status resp \<noteq> 200"
          by (auto simp: handle_update_site_def faulty_def registry_get_def split: if_splits)
        with 4 show ?thesis by simp
      next
        case False
        with update_site_spec [of ev pv r s resp s'] 4 assms(1) show ?thesis by (auto split: if_splits)
      qed
    next
      case 5
      with delete_site_spec [of ev pv r s resp s'] assms(1) show ?thesis by (auto split: if_splits)
    qed
  next
    case False
    with other show ?thesis by (cases e) (simp_all add: config_endpoint_def)
  qed
qed

subsection \<open>The router\<close>

lemma add_cors_simps [simp]: "rs_Status (add_cors r s q) = rs_Status q" "rs_Body (add_cors r s q) = rs_Body q"
  by (simp_all add: add_cors_def)

lemma sites_spec_cors [simp]: "sites_spec now e i (add_cors r s q) m m' = sites_spec now e i q m m'"
  by (cases e) (simp_all add: added_site_def replaced_site_def)

lemma sites_spec_refusal: "refusal q \<Longrightarrow> sites_spec now e i q m m"
  by (cases e) (auto simp: refusal_def)

lemma session_change_sites: "session_change s s' \<Longrightarrow> rg_Sites (srv_Reg s') = rg_Sites (srv_Reg s)"
  "session_cleanup s s' \<Longrightarrow> rg_Sites (srv_Reg s') = rg_Sites (srv_Reg s)"
  by (auto simp: session_change_def session_cleanup_def)

lemma sites_of_cong: "rg_Sites (srv_Reg s) = rg_Sites (srv_Reg s') \<Longrightarrow> sites_of s = sites_of s'"
  by (simp add: site_lookup_def fun_eq_iff)

text \<open>
  C11: the configuration API is a map from ids to sites.  Whatever request is served, on any mount
  and whatever database call fails: 201 on a create means a valid site was added under a new id;
  200 on an update that the valid site of the path was put in place of a registered one, with its id
  and creation time; 204 on a delete that a registered id was removed; a listing shows every
  site once in id order, a read the site stored; and in every other case no site changed.
\<close>

theorem sites_api_refines_map:
  assumes "server_inv s"
  shows "let (resp, s') = serve ev r s in
    case endpoint_of s r of
      None \<Rightarrow> sites_of s' = sites_of s
    | Some (e, i) \<Rightarrow> sites_spec (now_unix ev) e i resp (sites_of s) (sites_of s')"
proof (cases rule: serve_cases [of s r ev, case_names unrouted routed])
  case (unrouted seen q)
  then show ?thesis by simp
next
  case (routed e pv seen)
  let ?s = "s\<lparr>srv_DeprecationSeen := seen\<rparr>"
  show ?thesis
  proof (cases rule: dispatch_cases [of ev e pv r ?s, case_names granted refused])
    case (granted s1)
    have same: "rg_Sites (srv_Reg s1) = rg_Sites (srv_Reg s)" using session_change_sites(1) [OF granted(2)] by simp
    have "unique_by sc_ID (rg_Sites (srv_Reg s))" using server_invD(1) [OF assms] unfolding reg_inv_def by blast
    then have u: "unique_by sc_ID (rg_Sites (srv_Reg s1))" using same by simp
    have no: "sites_of s1 [] = None" using registered_id [OF assms, of "[]"] sites_of_cong [OF same] by (cases "sites_of s []") auto
    obtain q s' where q: "handler_of ev e pv r s1 = (q, s')" by fastforce
    from handler_sites_spec [OF this u no] sites_of_cong [OF same] routed granted(1) q show ?thesis by simp
  next
    case (refused q s1)
    have "sites_of s1 = sites_of s" by (rule sites_of_cong) (use session_change_sites(2) [OF refused(3)] in simp)
    with sites_spec_refusal [OF refused(2)] routed refused(1) show ?thesis by simp
  qed
qed

definition demo_delete :: request where
  "demo_delete = demo_request ''DELETE'' ''/api/sites/shop'' J_null"

theorem sites_api_refines_map_witness:
  "endpoint_of demo_server demo_delete = Some (E_Delete_site, ''shop'') \<and>
   sites_spec 0 E_Delete_site ''shop'' (fst (serve demo_env demo_delete demo_server))
     (sites_of demo_server) (sites_of (snd (serve demo_env demo_delete demo_server)))"
proof -
  have e: "endpoint_of demo_server demo_delete = Some (E_Delete_site, ''shop'')" by code_simp
  have "now_unix demo_env = 0" by code_simp
  with sites_api_refines_map [OF demo_server_inv, of demo_env demo_delete] e show ?thesis
    by (simp only: Let_def split_beta option.case prod.case fst_conv snd_conv simp_thms)
qed

subsection \<open>The monitoring data\<close>

abbreviation files_of :: "server \<Rightarrow> string \<rightharpoonup> site_db" where
  "files_of s \<equiv> sm_Files (srv_Stores s)"

definition purges :: "request \<Rightarrow> endpoint \<Rightarrow> string \<Rightarrow> string \<Rightarrow> bool" where
  "purges r e i k \<longleftrightarrow> e = E_Delete_site \<and> i = k \<and> query_get ''purge'' r = ''true''"

lemma manager_delete_files:
  "sm_Files (snd (manager_delete rm i m)) = (if safe_id i \<and> \<not> rm [] then (sm_Files m)(i := None) else sm_Files m)"
  by (simp add: manager_delete_def Let_def)

lemma read_store_keeps:
  "files_of s k = Some db \<Longrightarrow> files_of (snd (read_store ev i query s)) k = Some db"
  using manager_get_keeps [of "srv_Stores s" k db "ev_Broken ev" "now_unix ev" i]
  by (auto simp: read_store_def store_for_def split: sum.splits prod.splits)

lemma handler_files:
  assumes "files_of s k = Some db" "handler_of ev e i r s = (resp, s')"
  shows "files_of s' k = (if purges r e i k \<and> rs_Status resp = 204 \<and> safe_id k \<and> \<not> ev_RmFails ev [] then None else Some db)"
proof (cases "config_endpoint e")
  case True
  then consider "e = E_List_sites" | "e = E_Get_site" | "e = E_Create_site" | "e = E_Update_site" | "e = E_Delete_site"
    by (auto simp: config_endpoint_def)
  then show ?thesis
  proof cases
    case 3
    with assms show ?thesis
      by (auto simp: handle_create_site_def Let_def purges_def manager_get_keeps split: sum.splits option.splits if_splits)
  next
    case 4
    with assms show ?thesis
      by (auto simp: handle_update_site_def Let_def purges_def split: sum.splits option.splits)
  next
    case 5
    with assms show ?thesis
      by (auto simp: handle_delete_site_def Let_def purges_def manager_delete_files no_content_def registry_err_def
          split: sum.splits if_splits)
  qed (use assms in \<open>auto simp: handle_list_sites_def handle_get_site_def purges_def split: sum.splits if_splits\<close>)
next
  case False
  then have p: "\<not> purges r e i k" by (auto simp: purges_def config_endpoint_def)
  have "files_of (snd (handler_of ev e i r s)) k = Some db"
  proof (cases "data_endpoint e")
    case True
    then show ?thesis
      using read_store_keeps [OF assms(1)] assms(1)
      by (cases e) (auto simp: data_endpoint_def data_handler_defs Let_def split_beta overview_def overview_loop_keeps)
  next
    case d: False
    with False endpoint_groups [of e] alert_frame [of e s ev i r] account_frame [of e s ev i r] assms(1) show ?thesis
      by (auto simp: alert_change_def account_change_def)
  qed
  with p assms(2) show ?thesis by simp
qed

text \<open>
  C26: monitoring data is lost in one way only.  A request of any kind leaves the stored history of
  every site as it is, except a delete of that very site that asks for a purge and is
  answered 204; then the history is gone.
\<close>

theorem data_survives_requests:
  "let (resp, s') = serve ev r s in
   case files_of s k of
     None \<Rightarrow> True
   | Some db \<Rightarrow> files_of s' k =
       (if endpoint_of s r = Some (E_Delete_site, k) \<and> query_get ''purge'' r = ''true'' \<and> rs_Status resp = 204 \<and>
           safe_id k \<and> \<not> ev_RmFails ev [] then None else Some db)"
proof (cases "files_of s k")
  case (Some db)
  show ?thesis
  proof (cases rule: serve_cases [of s r ev, case_names unrouted routed])
    case (unrouted seen q)
    with Some show ?thesis by simp
  next
    case (routed e pv seen)
    show ?thesis
    proof (cases rule: dispatch_cases [of ev e pv r "s\<lparr>srv_DeprecationSeen := seen\<rparr>", case_names granted refused])
      case (granted s1)
      obtain q s' where q: "handler_of ev e pv r s1 = (q, s')" by fastforce
      have "files_of s1 k = Some db" using granted(2) Some by (auto simp: session_change_def)
      from handler_files [OF this q] Some routed granted(1) q show ?thesis by (auto simp: purges_def)
    next
      case (refused q s1)
      have "files_of s1 k = Some db" using refused(3) Some by (auto simp: session_cleanup_def)
      moreover have "rs_Status q \<noteq> 204" using refused(2) by (auto simp: refusal_def)
      ultimately show ?thesis using Some routed refused(1) by simp
    qed
  qed
qed simp

subsection \<open>Keys\<close>

fun hides_keys :: "reply \<Rightarrow> bool" where
  "hides_keys (R_site v _) = (sc_APIKeyHash (sv_Site v) = [])"
| "hides_keys (R_sites vs) = list_all (\<lambda>v. sc_APIKeyHash (sv_Site v) = []) vs"
| "hides_keys (R_overview rows) = list_all (\<lambda>(v, row). sc_APIKeyHash (sv_Site v) = [] \<and> sc_APIKeyHash (ov_Site row) = []) rows"
| "hides_keys _ = True"

lemma marshal_hides [simp]: "sc_APIKeyHash (sv_Site (marshal_site c)) = []"
  by (simp add: marshal_site_def)

lemma error_bodies [simp]:
  "hides_keys (rs_Body (write_error n m))" "hides_keys (rs_Body (registry_err x))" "hides_keys (rs_Body (alert_err x))"
  "rs_Body (write_json n b) = b" "hides_keys (rs_Body no_content)"
  by (simp_all add: write_error_def write_json_def registry_err_def alert_err_def no_content_def)

lemma decode_errors_hide:
  "decode_body dec r = Inl x \<Longrightarrow> hides_keys (rs_Body x)" "decode_channel ev r = Inl y \<Longrightarrow> hides_keys (rs_Body y)"
  "decode_rule ev r db = Inl z \<Longrightarrow> hides_keys (rs_Body z)"
proof -
  show b: "decode_body dec r = Inl x \<Longrightarrow> hides_keys (rs_Body x)" for dec :: "json \<Rightarrow> 'b option" and r x
    by (auto simp: decode_body_def split: body.splits option.splits)
  show "decode_channel ev r = Inl y \<Longrightarrow> hides_keys (rs_Body y)"
    by (auto simp: decode_channel_def Let_def dest: b split: sum.splits if_splits)
  show "decode_rule ev r db = Inl z \<Longrightarrow> hides_keys (rs_Body z)"
    by (auto simp: decode_rule_def Let_def dest: b split: sum.splits option.splits if_splits)
qed

lemma read_store_hides: "(\<And>db. hides_keys (query db)) \<Longrightarrow> hides_keys (rs_Body (fst (read_store ev i query s)))"
  by (auto simp: read_store_def store_for_def split: sum.split prod.split)

lemma account_handlers_hide:
  "hides_keys (rs_Body (fst (handle_login ev r s)))" "hides_keys (rs_Body (fst (handle_logout ev r s)))"
  "hides_keys (rs_Body (fst (handle_me ev r s)))" "hides_keys (rs_Body (fst (handle_change_password ev r s)))"
proof -
  show "hides_keys (rs_Body (fst (handle_login ev r s)))"
    by (auto simp: handle_login_def Let_def split_beta dest: decode_errors_hide(1) split: sum.split bool.split)
  show "hides_keys (rs_Body (fst (handle_logout ev r s)))" "hides_keys (rs_Body (fst (handle_me ev r s)))"
    by (simp_all add: handle_logout_def no_content_def handle_me_def Let_def split_beta)
  show "hides_keys (rs_Body (fst (handle_change_password ev r s)))"
    by (auto simp: handle_change_password_def Let_def split_beta dest: decode_errors_hide(1) split: option.split sum.split)
qed

lemma config_handlers_hide:
  "hides_keys (rs_Body (fst (handle_list_sites ev r s)))" "hides_keys (rs_Body (fst (handle_create_site ev r s)))"
  "hides_keys (rs_Body (fst (handle_get_site ev i r s)))" "hides_keys (rs_Body (fst (handle_update_site ev i r s)))"
  "hides_keys (rs_Body (fst (handle_delete_site ev i r s)))"
  by (auto simp: site_handler_defs Let_def split_beta list_all_iff dest: decode_errors_hide(1)
      split: sum.split option.split)

lemma alert_handlers_hide: "alert_endpoint e \<Longrightarrow> hides_keys (rs_Body (fst (handler_of ev e i r s)))"
  unfolding alert_endpoint_def
  by (elim insertE emptyE)
    (auto simp: alert_handler_defs Let_def split_beta dest: decode_errors_hide split: option.split sum.split)

lemma data_handlers_hide: "data_endpoint e \<Longrightarrow> hides_keys (rs_Body (fst (handler_of ev e i r s)))"
  by (cases e) (auto simp: data_endpoint_def data_handler_defs Let_def split_beta list_all_iff zero_site_def
      intro!: read_store_hides)

text \<open>
  C39: no response shows the hash of an API key, of any site, on any endpoint.
\<close>

theorem responses_hide_keys: "hides_keys (rs_Body (fst (serve ev r s)))"
proof (cases rule: serve_cases [of s r ev, case_names unrouted routed])
  case (routed e pv seen)
  show ?thesis
  proof (cases rule: dispatch_cases [of ev e pv r "s\<lparr>srv_DeprecationSeen := seen\<rparr>", case_names granted refused])
    case (granted s1)
    have "hides_keys (rs_Body (fst (handler_of ev e pv r s1)))"
      using endpoint_groups [of e] data_handlers_hide [of e ev pv r s1] alert_handlers_hide [of e ev pv r s1]
      by (auto simp: account_endpoint_def config_endpoint_def account_handlers_hide config_handlers_hide)
    with routed granted(1) show ?thesis by simp
  next
    case (refused q s1)
    then have "hides_keys (rs_Body q)" by (auto simp: refusal_def)
    with routed refused(1) show ?thesis by simp
  qed
qed simp

end
