(* ===== verification/Smtp.thy ===== *)
theory Smtp
  imports Dispatch
begin

section \<open>The mail transport (internal/alerts/smtp.go)\<close>

text \<open>
  \<open>SMTPSender.Send\<close> as the sequence of its steps: each is a command to the server with the error
  it may return, and the first error ends the dialogue.  The log of a dialogue holds the commands
  that were issued, each with whether the connection was encrypted by then.  The answers of
  the server are arguments; \<open>net/smtp\<close> itself refuses an address with a line break.
\<close>

subsection \<open>Configuration\<close>

record smtp_config =
  mc_Host :: string
  mc_Port :: int
  mc_Username :: string
  mc_Password :: string
  mc_From :: string
  mc_InsecureSkipVerify :: bool

definition configured :: "smtp_config \<Rightarrow> bool" where
  "configured c \<longleftrightarrow> mc_Host c \<noteq> [] \<and> mc_From c \<noteq> []"

text \<open>\<open>net.JoinHostPort\<close> brackets a host with a colon.\<close>

definition smtp_addr :: "smtp_config \<Rightarrow> string" where
  "smtp_addr c =
     (let port = (if mc_Port c = 0 then 587 else mc_Port c); h = mc_Host c
      in (if CHR '':'' \<in> set h then ''['' @ h @ '']'' else h) @ '':'' @ show_int port)"

subsection \<open>Messages\<close>

abbreviation cr :: char where "cr \<equiv> CHR 0x0D"
abbreviation lf :: char where "lf \<equiv> CHR 0x0A"

definition crlf :: string where "crlf = [cr, lf]"

definition sanitise_header :: "string \<Rightarrow> string" where
  "sanitise_header v = join '' '' (Prelude.fields (map (\<lambda>c. if c = cr \<or> c = lf then CHR '' '' else c) v))"

text \<open>\<open>ReplaceAll(body, "\r\n", "\n")\<close> and \<open>ReplaceAll(_, "\n", "\r\n")\<close>.\<close>

fun drop_cr :: "string \<Rightarrow> string" where
  "drop_cr (c # d # s) = (if c = cr \<and> d = lf then lf # drop_cr s else c # drop_cr (d # s))"
| "drop_cr s = s"

definition add_cr :: "string \<Rightarrow> string" where
  "add_cr s = concat (map (\<lambda>c. if c = lf then crlf else [c]) s)"

text \<open>The layout \<open>time.RFC1123Z\<close>, \<open>zone\<close> being the offset of the local time in seconds.\<close>

definition weekday_names :: "string list" where
  "weekday_names = [''Sun'', ''Mon'', ''Tue'', ''Wed'', ''Thu'', ''Fri'', ''Sat'']"

definition month_names :: "string list" where
  "month_names = [''Jan'', ''Feb'', ''Mar'', ''Apr'', ''May'', ''Jun'', ''Jul'', ''Aug'', ''Sep'', ''Oct'', ''Nov'', ''Dec'']"

definition format_rfc1123z :: "int \<Rightarrow> unix \<Rightarrow> string" where
  "format_rfc1123z zone t =
     (let loc = t + zone; days = loc div 86400; secs = loc mod 86400; (y, m, d) = civil_date days;
          off = \<bar>zone\<bar> div 60
      in weekday_names ! nat ((days + 4) mod 7) @ '', '' @ pad 2 d @ '' '' @ month_names ! nat ((m - 1) mod 12) @ '' '' @
         pad 4 y @ '' '' @ pad 2 (secs div 3600) @ '':'' @ pad 2 (secs div 60 mod 60) @ '':'' @ pad 2 (secs mod 60) @ '' '' @
         (if zone < 0 then ''-'' else ''+'') @ pad 2 (off div 60) @ pad 2 (off mod 60))"

definition header_lines :: "string \<Rightarrow> string \<Rightarrow> string \<Rightarrow> string \<Rightarrow> string list" where
  "header_lines sender to subject date =
     [''From: '' @ sender, ''To: '' @ to, ''Subject: '' @ sanitise_header subject, ''Date: '' @ date,
      ''MIME-Version: 1.0'', ''Content-Type: text/plain; charset=utf-8'', ''Auto-Submitted: auto-generated'']"

definition build_message :: "string \<Rightarrow> string \<Rightarrow> string \<Rightarrow> string \<Rightarrow> string \<Rightarrow> string" where
  "build_message date sender to subject body =
     concat (map (\<lambda>l. l @ crlf) (header_lines sender to subject date)) @ crlf @ add_cr (drop_cr body)"

subsection \<open>The dialogue\<close>

datatype smtp_cmd =
    Dial_tls string | Dial_plain string | Set_deadline | Greet | Ehlo_starttls | Start_tls
  | Auth_plain string string | Mail_from string | Rcpt_to string | Data_start | Write_data string
  | Close_data | Quit

text \<open>\<open>answer\<close> gives the error of a command, if any.\<close>

definition broken_line :: "string \<Rightarrow> bool" where
  "broken_line s \<longleftrightarrow> cr \<in> set s \<or> lf \<in> set s"

fun smtp_error :: "(smtp_cmd \<Rightarrow> string option) \<Rightarrow> smtp_cmd \<Rightarrow> string option" where
  "smtp_error answer (Mail_from a) =
     (if broken_line a then Some ''smtp: A line must not contain CR or LF'' else answer (Mail_from a))"
| "smtp_error answer (Rcpt_to a) =
     (if broken_line a then Some ''smtp: A line must not contain CR or LF'' else answer (Rcpt_to a))"
| "smtp_error answer c = answer c"

fun encrypts :: "smtp_cmd \<Rightarrow> bool" where
  "encrypts (Dial_tls _) = True" | "encrypts Start_tls = True" | "encrypts _ = False"

fun run_dialogue :: "(smtp_cmd \<Rightarrow> string option) \<Rightarrow> bool \<Rightarrow> (smtp_cmd \<times> string) list \<Rightarrow>
    string option \<times> (bool \<times> smtp_cmd) list" where
  "run_dialogue answer enc [] = (None, [])"
| "run_dialogue answer enc ((c, what) # cs) =
     (case smtp_error answer c of
        Some e \<Rightarrow> (Some (what @ e), [(enc, c)])
      | None \<Rightarrow> let (r, cmds) = run_dialogue answer (enc \<or> encrypts c) cs in (r, (enc, c) # cmds))"

definition smtp_steps :: "string \<Rightarrow> smtp_config \<Rightarrow> string \<Rightarrow> string \<Rightarrow> string \<Rightarrow> (smtp_cmd \<times> string) list" where
  "smtp_steps date c to subject body =
     (let implicit = (mc_Port c = 465) in
      [(if implicit then Dial_tls (smtp_addr c) else Dial_plain (smtp_addr c), ''dial '' @ smtp_addr c @ '': ''),
       (Set_deadline, []), (Greet, ''smtp handshake: '')] @
      (if implicit then [] else [(Ehlo_starttls, []), (Start_tls, ''starttls: '')]) @
      (if mc_Username c \<noteq> [] then [(Auth_plain (mc_Username c) (mc_Password c), ''smtp auth: '')] else []) @
      [(Mail_from (mc_From c), ''mail from: ''), (Rcpt_to to, ''rcpt to '' @ to @ '': ''), (Data_start, ''data: ''),
       (Write_data (build_message date (mc_From c) to subject body), ''write body: ''),
       (Close_data, ''close body: ''), (Quit, [])])"

definition smtp_send :: "(smtp_cmd \<Rightarrow> string option) \<Rightarrow> string \<Rightarrow> smtp_config \<Rightarrow> string \<Rightarrow> string \<Rightarrow> string \<Rightarrow>
    string option \<times> (bool \<times> smtp_cmd) list" where
  "smtp_send answer date c to subject body =
     (if \<not> configured c then (Some ''smtp is not configured (set UPTIME_SMTP_HOST and UPTIME_SMTP_FROM)'', [])
      else if to = [] then (Some ''no recipient'', [])
      else run_dialogue answer False (smtp_steps date c to subject body))"

subsection \<open>What a message contains\<close>

lemma sanitise_no_break: "\<not> broken_line (sanitise_header v)"
proof -
  have "c \<noteq> cr \<and> c \<noteq> lf" if "c \<in> set (sanitise_header v)" for c
  proof -
    from that have "c = CHR '' '' \<or> (\<exists>w \<in> set (Prelude.fields (map (\<lambda>c. if c = cr \<or> c = lf then CHR '' '' else c) v)). c \<in> set w)"
      unfolding sanitise_header_def using set_join [of "'' ''"] by fastforce
    then have "c = CHR '' '' \<or> \<not> is_space c" using fields_no_space by blast
    then show ?thesis by (auto simp: is_space_def byte_def)
  qed
  then show ?thesis by (auto simp: broken_line_def)
qed

lemma broken_line_append [simp]: "broken_line (a @ b) \<longleftrightarrow> broken_line a \<or> broken_line b"
  by (auto simp: broken_line_def)

lemma show_nat_no_break [simp]: "\<not> broken_line (show_nat n)"
  by (auto simp: broken_line_def is_digit_def byte_def dest!: show_nat_digits)

lemma show_int_no_break [simp]: "\<not> broken_line (show_int i)"
  by (auto simp: broken_line_def is_digit_def byte_def dest!: show_int_chars)

lemma pad_no_break [simp]: "\<not> broken_line (pad w i)"
  using show_int_no_break [of i] by (auto simp: pad_def Let_def broken_line_def)

lemma names_no_break:
  "\<not> broken_line (weekday_names ! nat (d mod 7))" "\<not> broken_line (month_names ! nat (m mod 12))"
proof -
  have all: "list_all (\<lambda>w. \<not> broken_line w) weekday_names" "list_all (\<lambda>w. \<not> broken_line w) month_names"
    by (simp_all add: weekday_names_def month_names_def broken_line_def)
  have "nat (d mod 7) < length weekday_names" "nat (m mod 12) < length month_names"
    by (simp_all add: weekday_names_def month_names_def nat_less_iff)
  with all show "\<not> broken_line (weekday_names ! nat (d mod 7))" "\<not> broken_line (month_names ! nat (m mod 12))"
    by (metis list_all_length)+
qed

lemma date_no_break: "\<not> broken_line (format_rfc1123z zone t)"
proof -
  have "\<not> broken_line '', ''" "\<not> broken_line '' ''" "\<not> broken_line '':''" "\<not> broken_line ''-''" "\<not> broken_line ''+''"
    by (simp_all add: broken_line_def)
  then show ?thesis
    by (auto simp: format_rfc1123z_def Let_def names_no_break simp del: append.simps split: prod.split)
qed

lemma header_lines_no_break:
  assumes "\<not> broken_line sender" "\<not> broken_line to" "\<not> broken_line date"
  shows "list_all (\<lambda>l. \<not> broken_line l) (header_lines sender to subject date)"
  using assms sanitise_no_break [of subject] by (simp add: header_lines_def) (simp add: broken_line_def)

text \<open>Every line feed of the body stands after a carriage return.\<close>

definition lf_after_cr :: "string \<Rightarrow> bool" where
  "lf_after_cr s \<longleftrightarrow> successively (\<lambda>a b. b = lf \<longrightarrow> a = cr) (CHR '' '' # s)"

lemma add_cr_successively: "successively (\<lambda>a b. b = lf \<longrightarrow> a = cr) (c # add_cr s)"
proof (induction s arbitrary: c)
  case (Cons x s)
  show ?case
  proof (cases "x = lf")
    case True
    with Cons.IH [of lf] show ?thesis by (simp add: add_cr_def crlf_def)
  next
    case False
    with Cons show ?thesis by (simp add: add_cr_def)
  qed
qed (simp add: add_cr_def)

text \<open>
  A message is safe when its header block is exactly the seven lines the program writes, none with
  a line break inside, and the text follows the empty line with proper line ends.
\<close>

definition safe_message :: "string \<Rightarrow> string \<Rightarrow> string \<Rightarrow> bool" where
  "safe_message subject to m \<longleftrightarrow> (\<exists>sender date txt.
     m = concat (map (\<lambda>l. l @ crlf) (header_lines sender to subject date)) @ crlf @ txt \<and>
     list_all (\<lambda>l. \<not> broken_line l) (header_lines sender to subject date) \<and> lf_after_cr txt)"

lemma build_message_safe:
  assumes "\<not> broken_line sender" "\<not> broken_line to" "\<not> broken_line date"
  shows "safe_message subject to (build_message date sender to subject body)"
  unfolding safe_message_def build_message_def
  using header_lines_no_break [OF assms] add_cr_successively [of "CHR '' ''" "drop_cr body"]
  by (intro exI [of _ sender] exI [of _ date] exI [of _ "add_cr (drop_cr body)"]) (simp add: lf_after_cr_def)

text \<open>What may be said on a connection that is not encrypted.\<close>

fun protected :: "string \<Rightarrow> string \<Rightarrow> bool \<times> smtp_cmd \<Rightarrow> bool" where
  "protected subject to (enc, Auth_plain u p) = enc"
| "protected subject to (enc, Mail_from a) = enc"
| "protected subject to (enc, Rcpt_to a) = enc"
| "protected subject to (enc, Data_start) = enc"
| "protected subject to (enc, Write_data m) = (enc \<and> safe_message subject to m)"
| "protected subject to (enc, c) = True"

lemma mail_part_protected:
  assumes "\<not> broken_line date"
    and "run_dialogue answer True [(Mail_from sender, w1), (Rcpt_to to, w2), (Data_start, w3),
      (Write_data (build_message date sender to subject body), w4), (Close_data, w5), (Quit, w6)] = (r, cmds)"
  shows "list_all (protected subject to) cmds"
  using assms(2) build_message_safe [OF _ _ assms(1)]
  by (auto split: option.splits prod.splits if_splits simp: Let_def)

text \<open>
  C32: mail is protected on the way.  Whatever the server answers, the password, the addresses
  and the text go out only over an encrypted connection, and a message that is written has
  exactly the seven header lines of the program: a line break in a site name, an address or
  the text cannot add a header or end the header block.  Without host or sender, or without
  a recipient, no connection is opened.
\<close>

theorem mail_is_protected:
  "let (err, cmds) = smtp_send answer (format_rfc1123z zone now) c to subject body in
   list_all (protected subject to) cmds \<and>
   (if configured c \<and> to \<noteq> [] then cmds \<noteq> [] else err \<noteq> None \<and> cmds = [])"
proof -
  obtain err cmds where r: "smtp_send answer (format_rfc1123z zone now) c to subject body = (err, cmds)" by fastforce
  show ?thesis
  proof (cases "configured c \<and> to \<noteq> []")
    case True
    define tail where "tail = [(Mail_from (mc_From c), ''mail from: ''), (Rcpt_to to, ''rcpt to '' @ to @ '': ''), (Data_start, ''data: ''),
       (Write_data (build_message (format_rfc1123z zone now) (mc_From c) to subject body), ''write body: ''),
       (Close_data, ''close body: ''), (Quit, [])]"
    have mail: "list_all (protected subject to) lg" if "run_dialogue answer True tail = (e, lg)" for e lg
      using mail_part_protected [OF date_no_break that [unfolded tail_def]] .
    have auth: "list_all (protected subject to) lg"
      if "run_dialogue answer True ((if mc_Username c \<noteq> [] then [(Auth_plain (mc_Username c) (mc_Password c), ''smtp auth: '')] else []) @ tail) = (e, lg)" for e lg
      using that mail by (auto split: if_splits option.splits prod.splits simp: Let_def)
    have "list_all (protected subject to) cmds" "cmds \<noteq> []"
      using r True auth unfolding smtp_send_def smtp_steps_def Let_def tail_def [symmetric]
      by (auto split: if_splits option.splits prod.splits simp: Let_def)
    with r True show ?thesis by simp
  next
    case False
    with r show ?thesis by (auto simp: smtp_send_def split: if_splits)
  qed
qed

text \<open>
  A line break in a subject becomes one space; the channel target, in contrast, is used as
  typed: the form with a display name that \<open>decodeChannel\<close> accepts reaches \<open>RCPT TO\<close> unchanged.
\<close>

lemma sanitise_example:
  "sanitise_header (''[DOWN] shop'' @ crlf @ ''Bcc: x@y'') = ''[DOWN] shop Bcc: x@y''"
  by code_simp

lemma display_name_reaches_rcpt:
  "Rcpt_to ''Ops <ops@example.com>'' \<in> fst ` set (smtp_steps date c ''Ops <ops@example.com>'' subject body)"
  by (simp add: smtp_steps_def Let_def)

end
