(* ===== verification/Startup.thy ===== *)
theory Startup
  imports ServerInv Smtp
begin

section \<open>Starting the service (cmd/monitor: main.go, adminuser.go)\<close>

text \<open>
  \<open>run\<close> puts the components together: it seeds the first account from the environment, refuses
  to start without a credential, imports the seed file, starts the loops of the enabled
  sites and builds the server.  Environment variables are a function \<open>getenv\<close>, files that hold JSON
  a function \<open>readf\<close>, which is \<open>None\<close> for one that cannot be read or parsed; \<open>bf\<close> says which
  database calls fail.
\<close>

datatype boot_call =
    Count_users | Create_user | Find_user | Purge_sessions | Seed_exists string | Seed_create string | List_at_start

datatype boot_error =
    Db_error | Password_rejected auth_error | No_credential | Seed_unreadable | Secret_unreadable | Passwords_differ

record run_opts =
  ro_DataDir :: string
  ro_Addr :: string
  ro_APIKey :: string
  ro_ReqTimeout :: int
  ro_SeedPath :: string
  ro_BlockPriv :: bool
  ro_CorsOrigins :: "string list"
  ro_LegacyRoutes :: bool
  ro_SetPwUser :: string
  ro_RealIPHeader :: string

subsection \<open>Configuration from flags and environment\<close>

definition split_origins :: "string \<Rightarrow> string list" where
  "split_origins s = filter (\<lambda>x. x \<noteq> []) (map trim_space (split_on (CHR '','') s))"

definition smtp_config_from_env :: "(string \<Rightarrow> string) \<Rightarrow> smtp_config" where
  "smtp_config_from_env getenv =
     \<lparr>mc_Host = trim_space (getenv ''UPTIME_SMTP_HOST''),
      mc_Port = (case parse_int (getenv ''UPTIME_SMTP_PORT'') of None \<Rightarrow> 587 | Some p \<Rightarrow> if p \<le> 0 then 587 else p),
      mc_Username = getenv ''UPTIME_SMTP_USER'', mc_Password = getenv ''UPTIME_SMTP_PASS'',
      mc_From = trim_space (getenv ''UPTIME_SMTP_FROM''),
      mc_InsecureSkipVerify = (getenv ''UPTIME_SMTP_INSECURE'' = ''true'')\<rparr>"

subsection \<open>The first account, and the lockout escape hatch\<close>

definition seed_admin_user :: "(boot_call \<Rightarrow> bool) \<Rightarrow> (string \<Rightarrow> nat \<Rightarrow> string option) \<Rightarrow> (string \<Rightarrow> string) \<Rightarrow>
    unix \<Rightarrow> registry \<Rightarrow> (boot_error + bool) \<times> registry" where
  "seed_admin_user bf bcrypt getenv now db =
     (if bf Count_users then (Inl Db_error, db)
      else if admin_user_count db > 0 then (Inr True, db)
      else
        let user = trim_space (getenv ''UPTIME_ADMIN_USER''); pass = getenv ''UPTIME_ADMIN_PASSWORD''
        in if user = [] \<or> pass = [] then (Inr False, db)
           else case hash_password bcrypt pass of
             Inl e \<Rightarrow> (Inl (Password_rejected e), db)
           | Inr hash \<Rightarrow>
               if bf Create_user then (Inl Db_error, db)
               else case create_admin_user now user hash db of
                 Inl _ \<Rightarrow> (Inl Db_error, db)
               | Inr (_, db') \<Rightarrow> (Inr True, db'))"

text \<open>\<open>-set-password\<close>: the two lines read from the terminal, \<open>None\<close> when reading fails.\<close>

definition set_password :: "(boot_call \<Rightarrow> bool) \<Rightarrow> (password_stmt \<Rightarrow> bool) \<Rightarrow> (string \<Rightarrow> nat \<Rightarrow> string option) \<Rightarrow>
    unix \<Rightarrow> string \<Rightarrow> string option \<Rightarrow> string option \<Rightarrow> registry \<Rightarrow> boot_error option \<times> registry" where
  "set_password bf flt bcrypt now username pw1 pw2 db =
     (case pw1 of
        None \<Rightarrow> (Some Secret_unreadable, db)
      | Some p1 \<Rightarrow>
          (case pw2 of
             None \<Rightarrow> (Some Secret_unreadable, db)
           | Some p2 \<Rightarrow>
               if p1 \<noteq> p2 then (Some Passwords_differ, db)
               else case hash_password bcrypt p1 of
                 Inl e \<Rightarrow> (Some (Password_rejected e), db)
               | Inr hash \<Rightarrow>
                   if bf Find_user then (Some Db_error, db)
                   else case admin_user_by_name db username of
                     Inl _ \<Rightarrow>
                       if bf Create_user then (Some Db_error, db)
                       else (case create_admin_user now username hash db of
                          Inl _ \<Rightarrow> (Some Db_error, db) | Inr (_, db') \<Rightarrow> (None, db'))
                   | Inr user \<Rightarrow>
                       (case set_admin_password flt now (au_ID user) hash db of
                          (db', Some _) \<Rightarrow> (Some Db_error, db') | (db', None) \<Rightarrow> (None, db'))))"

subsection \<open>The seed file\<close>

fun seed_loop :: "(boot_call \<Rightarrow> bool) \<Rightarrow> (string \<Rightarrow> bool) \<Rightarrow> unix \<Rightarrow> site_config list \<Rightarrow> registry \<Rightarrow> store_manager \<Rightarrow>
    boot_error option \<times> registry \<times> store_manager" where
  "seed_loop bf broken now [] db m = (None, db, m)"
| "seed_loop bf broken now (s # ss) db m =
     (let s = apply_defaults s in
      if validate s \<noteq> None then seed_loop bf broken now ss db m
      else if bf (Seed_exists (sc_ID s)) then (Some Db_error, db, m)
      else if registry_exists db (sc_ID s) then seed_loop bf broken now ss db m
      else
        let s = s\<lparr>sc_CreatedAt := now, sc_UpdatedAt := now\<rparr> in
        if bf (Seed_create (sc_ID s)) then (Some Db_error, db, m)
        else case registry_create s db of
          Inl _ \<Rightarrow> (Some Db_error, db, m)
        | Inr db' \<Rightarrow> seed_loop bf broken now ss db' (snd (manager_get broken now (sc_ID s) m)))"

text \<open>\<open>json.Unmarshal\<close> into a slice of sites; a file that cannot be read or parsed is \<open>None\<close>.\<close>

definition decode_sites :: "json \<Rightarrow> site_config list option" where
  "decode_sites j = dec_list (dec_obj site_field) zero_site j []"

definition seed :: "(boot_call \<Rightarrow> bool) \<Rightarrow> (string \<Rightarrow> bool) \<Rightarrow> unix \<Rightarrow> json option \<Rightarrow> registry \<Rightarrow> store_manager \<Rightarrow>
    boot_error option \<times> registry \<times> store_manager" where
  "seed bf broken now file db m =
     (case file of
        None \<Rightarrow> (Some Seed_unreadable, db, m)
      | Some j \<Rightarrow> (case decode_sites j of
            None \<Rightarrow> (Some Seed_unreadable, db, m)
          | Some sites \<Rightarrow> seed_loop bf broken now sites db m))"

subsection \<open>run\<close>

text \<open>
  Up to the moment the listener starts; the registry and the files are returned also when the
  start fails.  The sender is always set: without a mail server it reports that on every send.
\<close>

definition startup :: "(boot_call \<Rightarrow> bool) \<Rightarrow> (string \<Rightarrow> bool) \<Rightarrow> (string \<Rightarrow> nat \<Rightarrow> string option) \<Rightarrow> (string \<Rightarrow> string) \<Rightarrow>
    (string \<Rightarrow> json option) \<Rightarrow> unix \<Rightarrow> run_opts \<Rightarrow> registry \<Rightarrow> store_manager \<Rightarrow> (boot_error + server) \<times> registry \<times> store_manager" where
  "startup bf broken bcrypt getenv readf now opts db m =
     (case seed_admin_user bf bcrypt getenv now db of
        (Inl e, db) \<Rightarrow> (Inl e, db, m)
      | (Inr haveAdminUser, db) \<Rightarrow>
          if ro_APIKey opts = [] \<and> \<not> haveAdminUser then (Inl No_credential, db, m)
          else
            let db = (if bf Purge_sessions then db else snd (purge_expired_sessions now db)) in
            case (if ro_SeedPath opts = [] then (None, db, m) else seed bf broken now (readf (ro_SeedPath opts)) db m) of
              (Some e, db, m) \<Rightarrow> (Inl e, db, m)
            | (None, db, m) \<Rightarrow>
                if bf List_at_start then (Inl Db_error, db, m)
                else (Inr (with_real_ip_header (ro_RealIPHeader opts) (with_sender (with_legacy_routes (ro_LegacyRoutes opts)
                        (new_server db m (start_all (registry_list db) new_scheduler) (ro_APIKey opts) (ro_CorsOrigins opts))))),
                      db, m))"

subsection \<open>What the start leaves behind\<close>

text \<open>The loops that \<open>StartAll\<close> begins are those of the enabled sites.\<close>

lemma running_at_start:
  assumes "reg_inv db"
  shows "running (start_all (registry_list db) new_scheduler) = enabled_sites db"
proof
  fix k
  have u: "unique_by sc_ID (rg_Sites db)" using assms unfolding reg_inv_def by blast
  then have s: "unique_by sc_ID (registry_list db)" by (simp add: registry_list_def unique_by_sort)
  have "set (registry_list db) = set (rg_Sites db)" by (simp add: registry_list_def)
  note same = tbl_find_same [OF s u this]
  have "running new_scheduler = Map.empty" by (simp add: running_def new_scheduler_def fun_eq_iff)
  then have "running (start_all (registry_list db) new_scheduler) k = tbl_find sc_ID k (filter sc_Enabled (registry_list db))"
    by (simp only: running_start_all [OF sched_inv_new] empty_map_add map_of_rev_keys [OF unique_by_filter [OF s]])
  also have "\<dots> = enabled_sites db k"
    by (simp only: tbl_find_filter [OF s] same enabled_sites_def site_lookup_def)
  finally show "running (start_all (registry_list db) new_scheduler) k = enabled_sites db k" .
qed
lemma create_user_kept:
  assumes "create_admin_user now u h db = Inr (i, db')"
  shows "rg_Sites db' = rg_Sites db" "rg_Rules db' = rg_Rules db" "rg_Channels db' = rg_Channels db"
    "rg_Sessions db' = rg_Sessions db" "admin_user_count db' > 0" "reg_inv db \<Longrightarrow> reg_inv db'"
  using assms create_user_inv [of db now u h]
  by (auto simp: create_admin_user_def Let_def admin_user_count_def stored_def split: if_splits)

text \<open>The parts of the registry that the configuration's validity rests on.\<close>

lemma config_ok_cong:
  "rg_Sites db' = rg_Sites db \<Longrightarrow> rg_Rules db' = rg_Rules db \<Longrightarrow> rg_Channels db' = rg_Channels db \<Longrightarrow>
   config_ok db' = config_ok db"
  by (simp add: config_ok_def)

lemma seed_admin_user_outcome:
  assumes "seed_admin_user bf bcrypt getenv now db = (res, db')"
  shows "res \<noteq> Inr True \<Longrightarrow> db' = db" "res = Inr False \<Longrightarrow> admin_user_count db = 0"
    "res = Inr True \<Longrightarrow> admin_user_count db' > 0"
    "db' = db \<or> (\<exists>u h i. create_admin_user now u h db = Inr (i, db'))"
  using assms create_user_kept(5) [of now _ _ db _ db']
  by (auto simp: seed_admin_user_def Let_def admin_user_count_def split: if_splits sum.splits)

lemma seed_admin_user_kept:
  assumes "seed_admin_user bf bcrypt getenv now db = (res, db')"
  shows "reg_inv db \<Longrightarrow> reg_inv db'" "config_ok db \<Longrightarrow> config_ok db'" "rg_Sites db' = rg_Sites db"
proof -
  note c = seed_admin_user_outcome(4) [OF assms]
  show "reg_inv db \<Longrightarrow> reg_inv db'" using c create_user_kept(6) by blast
  show "config_ok db \<Longrightarrow> config_ok db'" using c create_user_kept(1-3) config_ok_cong by metis
  show "rg_Sites db' = rg_Sites db" using c create_user_kept(1) by blast
qed

lemma purge_kept:
  "rg_Sites (snd (purge_expired_sessions now db)) = rg_Sites db"
  "rg_Rules (snd (purge_expired_sessions now db)) = rg_Rules db"
  "rg_Channels (snd (purge_expired_sessions now db)) = rg_Channels db"
  "rg_Users (snd (purge_expired_sessions now db)) = rg_Users db"
  by (simp_all add: purge_expired_sessions_def)

lemma registry_create_config:
  "registry_create c db = Inr db' \<Longrightarrow> validate c = None \<Longrightarrow> reg_inv db \<Longrightarrow> config_ok db \<Longrightarrow> reg_inv db' \<and> config_ok db'"
  using registry_create_ok [of c db db'] site_ops_inv(1) [of db c] by (simp add: config_ok_def stored_def)

lemma seed_loop_kept:
  "seed_loop bf broken now ss db m = (res, db', m') \<Longrightarrow> reg_inv db \<and> config_ok db \<and> stores_inv m \<Longrightarrow>
   (reg_inv db' \<and> config_ok db' \<and> stores_inv m') \<and> rg_Users db' = rg_Users db"
proof (induction ss arbitrary: db m)
  case (Cons s ss)
  let ?s = "apply_defaults s\<lparr>sc_CreatedAt := now, sc_UpdatedAt := now\<rparr>"
  show ?case
  proof (cases "registry_create ?s db")
    case (Inr db1)
    have "reg_inv db1 \<and> config_ok db1" if "validate (apply_defaults s) = None"
      using registry_create_config [OF Inr] that Cons.prems(2) by simp
    moreover have "rg_Users db1 = rg_Users db" using registry_create_ok(1) [OF Inr] by simp
    moreover have "stores_inv (snd (manager_get broken now (sc_ID (apply_defaults s)) m))"
      using Cons.prems(2) by (simp add: manager_get_inv)
    ultimately show ?thesis
      using Cons Inr by (auto simp: Let_def split: if_splits)
  qed (use Cons in \<open>auto simp: Let_def split: if_splits\<close>)
qed simp

lemma startup_cases:
  assumes "startup bf broken bcrypt getenv readf now opts db m = (Inr s, db', m')"
  obtains db1 db2 hasUser where "seed_admin_user bf bcrypt getenv now db = (Inr hasUser, db1)"
    "ro_APIKey opts = [] \<longrightarrow> hasUser"
    "db2 = (if bf Purge_sessions then db1 else snd (purge_expired_sessions now db1))"
    "(if ro_SeedPath opts = [] then (None, db2, m) else seed bf broken now (readf (ro_SeedPath opts)) db2 m) = (None, db', m')"
    "s = (new_server db' m' (start_all (registry_list db') new_scheduler) (ro_APIKey opts) (ro_CorsOrigins opts))
       \<lparr>srv_LegacyRoutes := ro_LegacyRoutes opts, srv_HasSender := True, srv_RealIPHeader := ro_RealIPHeader opts\<rparr>"
  using assms
  by (auto simp: startup_def with_defs Let_def split: sum.splits prod.splits option.splits if_splits)

lemma seed_kept:
  assumes "seed bf broken now file db m = (res, db', m')" "reg_inv db \<and> config_ok db \<and> stores_inv m"
  shows "(reg_inv db' \<and> config_ok db' \<and> stores_inv m') \<and> rg_Users db' = rg_Users db"
  using assms seed_loop_kept by (auto simp: seed_def split: option.splits)

lemma startup_inv:
  assumes "startup bf broken bcrypt getenv readf now opts db m = (Inr s, db', m')"
    and "reg_inv db" "config_ok db" "stores_inv m"
  shows "server_inv s"
proof (rule startup_cases [OF assms(1)])
  fix db1 db2 hasUser
  assume a: "seed_admin_user bf bcrypt getenv now db = (Inr hasUser, db1)"
    "db2 = (if bf Purge_sessions then db1 else snd (purge_expired_sessions now db1))"
    "(if ro_SeedPath opts = [] then (None, db2, m) else seed bf broken now (readf (ro_SeedPath opts)) db2 m) = (None, db', m')"
    "s = (new_server db' m' (start_all (registry_list db') new_scheduler) (ro_APIKey opts) (ro_CorsOrigins opts))
       \<lparr>srv_LegacyRoutes := ro_LegacyRoutes opts, srv_HasSender := True, srv_RealIPHeader := ro_RealIPHeader opts\<rparr>"
  have "reg_inv db1" "config_ok db1" using seed_admin_user_kept [OF a(1)] assms(2,3) by simp_all
  then have "reg_inv db2" "config_ok db2"
    using purge_sessions_inv [of db1 now] config_ok_cong [OF purge_kept(1-3), of now db1] a(2) by simp_all
  then have "reg_inv db' \<and> config_ok db' \<and> stores_inv m'"
    using a(3) assms(4) seed_kept [of bf broken now _ db2 m None db' m'] by (auto split: if_splits)
  then show "server_inv s"
    by (simp add: a(4) server_inv_def new_server_def running_at_start start_all_inv sched_inv_new)
qed

lemma purge_count [simp]: "admin_user_count (snd (purge_expired_sessions now db)) = admin_user_count db"
  by (simp add: admin_user_count_def purge_kept)

lemma seed_loop_users: "seed_loop bf broken now ss db m = (res, db', m') \<Longrightarrow> rg_Users db' = rg_Users db"
proof (induction ss arbitrary: db m)
  case (Cons s ss)
  then show ?case
    by (auto simp: Let_def split: if_splits sum.splits dest!: registry_create_ok(1))
qed simp

lemma seed_users: "seed bf broken now file db m = (res, db', m') \<Longrightarrow> rg_Users db' = rg_Users db"
  by (auto simp: seed_def seed_loop_users split: option.splits)

lemma seed_admin_user_unset:
  "fst (seed_admin_user bf bcrypt getenv now db) = Inr False \<longleftrightarrow> \<not> bf Count_users \<and> admin_user_count db = 0 \<and>
     (trim_space (getenv ''UPTIME_ADMIN_USER'') = [] \<or> getenv ''UPTIME_ADMIN_PASSWORD'' = [])"
  "fst (seed_admin_user bf bcrypt getenv now db) \<noteq> Inl No_credential"
  by (auto simp: seed_admin_user_def Let_def admin_user_count_def split: sum.split)

lemma seed_not_refused: "fst (seed bf broken now file db m) \<noteq> Some No_credential"
proof -
  have "fst (seed_loop bf broken now ss db m) \<noteq> Some No_credential" for ss
    by (induction bf broken now ss db m rule: seed_loop.induct) (auto simp: Let_def split: sum.split)
  then show ?thesis by (simp add: seed_def split: option.split)
qed

lemma startup_refused:
  "fst (startup bf broken bcrypt getenv readf now opts db m) = Inl No_credential \<longleftrightarrow>
     ro_APIKey opts = [] \<and> fst (seed_admin_user bf bcrypt getenv now db) = Inr False"
proof -
  obtain r db1 where "seed_admin_user bf bcrypt getenv now db = (r, db1)" by fastforce
  then show ?thesis
    using seed_admin_user_unset(2) [of bf bcrypt getenv now db] seed_not_refused [of bf broken now]
    by (auto simp: startup_def with_defs Let_def split: sum.split option.split prod.split bool.split)
      (metis fst_conv)+
qed

lemma startup_refused_unchanged:
  "startup bf broken bcrypt getenv readf now opts db m = (Inl No_credential, db', m') \<Longrightarrow> db' = db \<and> m' = m"
proof -
  assume s: "startup bf broken bcrypt getenv readf now opts db m = (Inl No_credential, db', m')"
  then have "ro_APIKey opts = [] \<and> fst (seed_admin_user bf bcrypt getenv now db) = Inr False"
    using startup_refused by (metis fst_conv)
  moreover from this obtain db1 where "seed_admin_user bf bcrypt getenv now db = (Inr False, db1)"
    by (metis prod.collapse)
  ultimately show ?thesis using s seed_admin_user_outcome(1) by (auto simp: startup_def with_defs)
qed

text \<open>
  C17: the service never starts open.  A server is built only with a non-empty API key or with
  at least one account, and with no key, no account and no account in the environment the start
  is refused before anything is changed.
\<close>

theorem startup_fails_closed:
  "let (res, db', m') = startup bf broken bcrypt getenv readf now opts db m in
   (case res of
      Inr s \<Rightarrow> srv_APIKey s = ro_APIKey opts \<and> srv_Reg s = db' \<and>
        (if srv_APIKey s = [] then admin_user_count (srv_Reg s) > 0 else True)
    | Inl e \<Rightarrow> (if e = No_credential then db' = db \<and> m' = m else True)) \<and>
   (res = Inl No_credential) = (\<not> bf Count_users \<and> ro_APIKey opts = [] \<and> admin_user_count db = 0 \<and>
      (trim_space (getenv ''UPTIME_ADMIN_USER'') = [] \<or> getenv ''UPTIME_ADMIN_PASSWORD'' = []))"
proof -
  obtain res db' m' where r: "startup bf broken bcrypt getenv readf now opts db m = (res, db', m')"
    by (cases "startup bf broken bcrypt getenv readf now opts db m") auto
  have refused: "(res = Inl No_credential) = (\<not> bf Count_users \<and> ro_APIKey opts = [] \<and> admin_user_count db = 0 \<and>
      (trim_space (getenv ''UPTIME_ADMIN_USER'') = [] \<or> getenv ''UPTIME_ADMIN_PASSWORD'' = []))"
    using startup_refused [of bf broken bcrypt getenv readf now opts db m] seed_admin_user_unset(1) [of bf bcrypt getenv now db]
    by (auto simp: r)
  show ?thesis
  proof (cases res)
    case (Inr s)
    from startup_cases [OF r [unfolded Inr]] obtain db1 db2 hasUser where a:
      "seed_admin_user bf bcrypt getenv now db = (Inr hasUser, db1)" "ro_APIKey opts = [] \<longrightarrow> hasUser"
      "db2 = (if bf Purge_sessions then db1 else snd (purge_expired_sessions now db1))"
      "(if ro_SeedPath opts = [] then (None, db2, m) else seed bf broken now (readf (ro_SeedPath opts)) db2 m) = (None, db', m')"
      "s = (new_server db' m' (start_all (registry_list db') new_scheduler) (ro_APIKey opts) (ro_CorsOrigins opts))
       \<lparr>srv_LegacyRoutes := ro_LegacyRoutes opts, srv_HasSender := True, srv_RealIPHeader := ro_RealIPHeader opts\<rparr>"
      by metis
    have "admin_user_count db' = admin_user_count db2"
      using a(4) by (auto simp: admin_user_count_def seed_users split: if_splits)
    moreover have "admin_user_count db2 > 0" if hasUser
      using seed_admin_user_outcome(3) [OF a(1)] that a(3) by simp
    ultimately show ?thesis using r Inr a(2) refused by (auto simp: a(5) new_server_def)
  next
    case (Inl e)
    with r refused startup_refused_unchanged [of bf broken bcrypt getenv readf now opts db m db' m'] show ?thesis by auto
  qed
qed


subsection \<open>The service in step\<close>

interpretation server_run: stepping "\<lambda>s (ev, r). snd (serve ev r s)" server_inv
  by unfold_locales (auto simp: serve_inv)

text \<open>
  C4: started on a consistent database, the service runs exactly the enabled sites of its
  registry, each with its current configuration and in at most one live loop, and all its
  stored configuration is valid: after the start and after any sequence of requests, whoever sends
  them and whatever fails on the way.
\<close>

theorem service_in_step:
  assumes "reg_inv db" "config_ok db" "stores_inv m"
    and "fst (startup bf broken bcrypt getenv readf now opts db m) = Inr s"
  shows "let s' = foldl (\<lambda>s (ev, r). snd (serve ev r s)) s reqs in
    (\<forall>k. running (srv_Sched s') k = (case site_lookup (srv_Reg s') k of
        None \<Rightarrow> None | Some c \<Rightarrow> if sc_Enabled c then Some c else None)) \<and>
    sched_inv (srv_Sched s') \<and> reg_inv (srv_Reg s') \<and> config_ok (srv_Reg s')"
proof -
  obtain db' m' where "startup bf broken bcrypt getenv readf now opts db m = (Inr s, db', m')"
    using assms(4) by (metis prod.collapse)
  from server_run.run_inv [OF startup_inv [OF this assms(1-3)], of reqs]
  show ?thesis by (simp add: server_inv_def enabled_sites_def Let_def)
qed

definition demo_opts :: run_opts where
  "demo_opts = \<lparr>ro_DataDir = ''data'', ro_Addr = '':8080'', ro_APIKey = ''k'', ro_ReqTimeout = 15 * 10 ^ 9, ro_SeedPath = [],
     ro_BlockPriv = False, ro_CorsOrigins = [], ro_LegacyRoutes = True, ro_SetPwUser = [], ro_RealIPHeader = []\<rparr>"

lemma demo_db_ok:
  "reg_inv (empty_registry\<lparr>rg_Sites := [example_site]\<rparr>)" "config_ok (empty_registry\<lparr>rg_Sites := [example_site]\<rparr>)"
  by (simp_all add: reg_inv_def config_ok_def empty_registry_def unique_by_def example_site_valid)

theorem service_in_step_witness:
  "\<exists>s. fst (startup (\<lambda>_. False) (\<lambda>_. False) (\<lambda>p c. Some p) (\<lambda>_. []) (\<lambda>_. None) 0 demo_opts
      (empty_registry\<lparr>rg_Sites := [example_site]\<rparr>) (new_manager Map.empty)) = Inr s \<and>
    running (srv_Sched s) ''shop'' = Some example_site"
proof -
  define db where "db = empty_registry\<lparr>rg_Sites := [example_site]\<rparr>"
  define s where "s = (new_server db (new_manager Map.empty) (start_all (registry_list db) new_scheduler) ''k'' [])
     \<lparr>srv_LegacyRoutes := True, srv_HasSender := True, srv_RealIPHeader := []\<rparr>"
  have st: "fst (startup (\<lambda>_. False) (\<lambda>_. False) (\<lambda>p c. Some p) (\<lambda>_. []) (\<lambda>_. None) 0 demo_opts db (new_manager Map.empty)) = Inr s"
    by (simp add: startup_def with_defs seed_admin_user_def demo_opts_def admin_user_count_def trim_by_def
        purge_expired_sessions_def db_def empty_registry_def s_def Let_def)
  have "stores_inv (new_manager Map.empty)" by (simp add: stores_inv_def new_manager_def)
  from service_in_step [OF demo_db_ok this st [unfolded db_def], of "[]"]
  have "running (srv_Sched s) ''shop'' = Some example_site"
    by (simp add: s_def new_server_def db_def site_lookup_def tbl_find_def example_site_def empty_registry_def)
  with st show ?thesis unfolding db_def by blast
qed

subsection \<open>Seeding\<close>

lemma seed_loop_outcome:
  "seed_loop bf broken now ss db m = (None, db', m') \<Longrightarrow>
   (\<exists>new. db' = db\<lparr>rg_Sites := rg_Sites db @ new\<rparr> \<and> list_all (\<lambda>c. validate c = None) new) \<and>
   (\<forall>s\<in>set ss. validate (apply_defaults s) = None \<longrightarrow> registry_exists db' (sc_ID (apply_defaults s)))"
proof (induction ss arbitrary: db m)
  case Nil
  then show ?case by (auto intro: exI [of _ "[]"])
next
  case (Cons s ss)
  let ?s = "apply_defaults s"
  let ?c = "?s\<lparr>sc_CreatedAt := now, sc_UpdatedAt := now\<rparr>"
  have mono: "registry_exists (db\<lparr>rg_Sites := rg_Sites db @ new\<rparr>) i" if "registry_exists db i" for db i new
    using that by (auto simp: registry_exists_def add_pos_nonneg)
  show ?case
  proof (cases "validate ?s \<noteq> None \<or> registry_exists db (sc_ID ?s)")
    case True
    with Cons.prems have "seed_loop bf broken now ss db m = (None, db', m')" by (auto simp: Let_def split: if_splits)
    from Cons.IH [OF this] True mono show ?thesis by auto
  next
    case False
    with Cons.prems obtain db1 where c: "registry_create ?c db = Inr db1"
      "seed_loop bf broken now ss db1 (snd (manager_get broken now (sc_ID ?s) m)) = (None, db', m')"
      by (auto simp: Let_def split: if_splits sum.splits)
    note db1 = registry_create_ok(1) [OF c(1)]
    from Cons.IH [OF c(2)] obtain new where new: "db' = db1\<lparr>rg_Sites := rg_Sites db1 @ new\<rparr>"
      "list_all (\<lambda>c. validate c = None) new"
      "\<forall>s\<in>set ss. validate (apply_defaults s) = None \<longrightarrow> registry_exists db' (sc_ID (apply_defaults s))" by auto
    have "registry_exists db' (sc_ID ?s)" by (rule new(1) [THEN ssubst], rule mono) (simp add: db1 registry_exists_def)
    moreover have "db' = db\<lparr>rg_Sites := rg_Sites db @ (?c # new)\<rparr>" by (simp add: new(1) db1)
    ultimately show ?thesis using new(2,3) False by (intro conjI exI [of _ "?c # new"]) auto
  qed
qed

lemma seed_loop_noop:
  "\<forall>s\<in>set ss. validate (apply_defaults s) = None \<longrightarrow> registry_exists db (sc_ID (apply_defaults s)) \<Longrightarrow>
   \<forall>i. \<not> bf (Seed_exists i) \<Longrightarrow> seed_loop bf broken now ss db m = (None, db, m)"
  by (induction ss) (auto simp: Let_def)

lemma registry_exists_iff: "registry_exists db i \<longleftrightarrow> i \<in> sc_ID ` set (rg_Sites db)"
  by (auto simp: registry_exists_def filter_empty_conv)

text \<open>
  Seeding is idempotent.  A seed that went through has only appended valid sites; running it
  again at any later time changes nothing, whatever was edited or added since, as long as
  no site was deleted.
\<close>

theorem seed_idempotent:
  assumes "seed bf broken now file db m = (None, db', m')"
    and "sc_ID ` set (rg_Sites db') \<subseteq> sc_ID ` set (rg_Sites db'')" and "\<forall>i. \<not> bf' (Seed_exists i)"
  shows "seed bf' broken' now' file db'' m'' = (None, db'', m'') \<and>
    (\<exists>new. db' = db\<lparr>rg_Sites := rg_Sites db @ new\<rparr> \<and> list_all (\<lambda>c. validate c = None) new)"
proof -
  obtain j ss where f: "file = Some j" "decode_sites j = Some ss" "seed_loop bf broken now ss db m = (None, db', m')"
    using assms(1) by (auto simp: seed_def split: option.splits)
  note out = seed_loop_outcome [OF f(3)]
  then have "\<forall>s\<in>set ss. validate (apply_defaults s) = None \<longrightarrow> registry_exists db'' (sc_ID (apply_defaults s))"
    using assms(2) unfolding registry_exists_iff by blast
  from seed_loop_noop [OF this assms(3)] out f(1,2) show ?thesis by (simp add: seed_def)
qed

definition demo_seed :: json where
  "demo_seed = J_arr [J_obj [(''name'', J_str ''Shop''), (''url'', J_str ''https://shop.test/''), (''enabled'', J_bool True)]]"

theorem seed_idempotent_witness:
  "\<exists>db' m'. seed (\<lambda>_. False) (\<lambda>_. False) 5 (Some demo_seed) empty_registry (new_manager Map.empty) = (None, db', m') \<and>
    map sc_ID (rg_Sites db') = [''shop''] \<and> seed (\<lambda>_. False) (\<lambda>_. False) 9 (Some demo_seed) db' m' = (None, db', m')"
proof -
  have "case seed (\<lambda>_. False) (\<lambda>_. False) 5 (Some demo_seed) empty_registry (new_manager Map.empty) of
      (e, db', m') \<Rightarrow> e = None \<and> map sc_ID (rg_Sites db') = [''shop'']" by code_simp
  then obtain db' m' where r: "seed (\<lambda>_. False) (\<lambda>_. False) 5 (Some demo_seed) empty_registry (new_manager Map.empty) = (None, db', m')"
    "map sc_ID (rg_Sites db') = [''shop'']" by auto
  from seed_idempotent [OF r(1) subset_refl, of "\<lambda>_. False" "\<lambda>_. False" 9 m'] r show ?thesis by auto
qed

text \<open>
  \<open>-set-password\<close> always succeeds or leaves the accounts alone.  On success the two lines
  agreed and were acceptable, the account of that name (in any spelling) exists and has
  exactly the new hash, it has no session left, and no other account or session changed.
\<close>

theorem set_password_outcome:
  assumes "reg_inv db" "set_password bf flt bcrypt now username pw1 pw2 db = (err, db')"
  shows "if err \<noteq> None then db' = db
    else case (pw1, admin_user_by_name db' username) of
      (Some pw, Inr u) \<Rightarrow> pw2 = Some pw \<and> hash_password bcrypt pw = Inr (au_PasswordHash u) \<and>
        rg_Sessions db' = filter (\<lambda>s. se_UserID s \<noteq> au_ID u) (rg_Sessions db) \<and>
        tbl_del au_ID (au_ID u) (rg_Users db') = tbl_del au_ID (au_ID u) (rg_Users db) \<and>
        rg_Sites db' = rg_Sites db
    | _ \<Rightarrow> False"
proof (cases err)
  case (Some e)
  have "db' = db" if "set_admin_password flt now i h db = (db', Some x)" for i h x
    using that by (auto simp: set_admin_password_def Let_def split: if_splits)
  with Some assms(2) show ?thesis
    by (auto simp: set_password_def split: option.splits if_splits sum.splits prod.splits)
next
  case None
  with assms(2) obtain pw hash where pw: "pw1 = Some pw" "pw2 = Some pw" "hash_password bcrypt pw = Inr hash"
    by (auto simp: set_password_def split: option.splits if_splits sum.splits)
  show ?thesis
  proof (cases "admin_user_by_name db username")
    case (Inr u)
    then have u: "tbl_find au_Username (normalise_username username) (rg_Users db) = Some u"
      by (auto simp: admin_user_by_name_def split: option.splits)
    from Inr None assms(2) pw have "set_admin_password flt now (au_ID u) hash db = (db', None)"
      by (auto simp: set_password_def split: if_splits prod.splits option.splits)
    then have db': "db' = db\<lparr>rg_Users := tbl_set au_ID (au_ID u) (\<lambda>x. x\<lparr>au_PasswordHash := hash, au_UpdatedAt := now\<rparr>) (rg_Users db),
        rg_Sessions := filter (\<lambda>s. se_UserID s \<noteq> au_ID u) (rg_Sessions db)\<rparr>"
      by (auto simp: set_admin_password_def Let_def split: if_splits)
    then have "admin_user_by_name db' username = Inr (u\<lparr>au_PasswordHash := hash, au_UpdatedAt := now\<rparr>)"
      using u by (simp add: admin_user_by_name_def tbl_find_set_other)
    then show ?thesis using None pw by (simp add: db' tbl_del_set)
  next
    case (Inl e)
    then have u: "tbl_find au_Username (normalise_username username) (rg_Users db) = None"
      by (auto simp: admin_user_by_name_def split: option.splits)
    from Inl None assms(2) pw obtain i where "create_admin_user now username hash db = Inr (i, db')"
      by (auto simp: set_password_def split: if_splits sum.splits)
    then have db': "db' = db\<lparr>rg_Users := rg_Users db @ [\<lparr>au_ID = i, au_Username = normalise_username username,
          au_PasswordHash = hash, au_CreatedAt = now, au_UpdatedAt = now\<rparr>]\<rparr>" and i: "i = next_rowid (map au_ID (rg_Users db))"
      by (auto simp: create_admin_user_def Let_def split: if_splits)
    have "se_UserID s \<noteq> i" if "s \<in> set (rg_Sessions db)" for s
    proof -
      from that assms(1) have "tbl_has au_ID (se_UserID s) (rg_Users db)" unfolding reg_inv_def list_all_iff by blast
      then show ?thesis using next_rowid_fresh [of "se_UserID s" "map au_ID (rg_Users db)"] by (auto simp: i tbl_has_iff)
    qed
    then have "filter (\<lambda>s. se_UserID s \<noteq> i) (rg_Sessions db) = rg_Sessions db" by simp
    moreover have "admin_user_by_name db' username = Inr \<lparr>au_ID = i, au_Username = normalise_username username,
          au_PasswordHash = hash, au_CreatedAt = now, au_UpdatedAt = now\<rparr>"
      by (simp add: db' admin_user_by_name_def tbl_find_append u) (simp add: tbl_find_def)
    ultimately show ?thesis using None pw by (simp add: db' tbl_del_def)
  qed
qed

theorem set_password_outcome_witness:
  "\<exists>db'. set_password (\<lambda>_. False) (\<lambda>_. False) (\<lambda>p c. Some p) 5 ''Ann'' (Some ''correct horse'') (Some ''correct horse'')
      empty_registry = (None, db') \<and> map_sum (\<lambda>_. ()) au_PasswordHash (admin_user_by_name db' ''ann'') = Inr ''correct horse''"
proof -
  have "fst (set_password (\<lambda>_. False) (\<lambda>_. False) (\<lambda>p c. Some p) 5 ''Ann'' (Some ''correct horse'') (Some ''correct horse'')
      empty_registry) = None \<and> normalise_username ''Ann'' = normalise_username ''ann''" by code_simp
  then obtain db' where r: "set_password (\<lambda>_. False) (\<lambda>_. False) (\<lambda>p c. Some p) 5 ''Ann'' (Some ''correct horse'') (Some ''correct horse'')
      empty_registry = (None, db')" "normalise_username ''Ann'' = normalise_username ''ann''" by (metis prod.collapse)
  have h: "hash_password (\<lambda>p c. Some p) ''correct horse'' = Inr ''correct horse''" by code_simp
  have same: "admin_user_by_name db' ''ann'' = admin_user_by_name db' ''Ann''" by (simp only: admin_user_by_name_def r(2))
  from set_password_outcome [OF reg_inv_empty r(1)]
  have "case admin_user_by_name db' ''Ann'' of Inr u \<Rightarrow> hash_password (\<lambda>p c. Some p) ''correct horse'' = Inr (au_PasswordHash u) | _ \<Rightarrow> False"
    by (auto split: sum.splits)
  then have "map_sum (\<lambda>_. ()) au_PasswordHash (admin_user_by_name db' ''ann'') = Inr ''correct horse''"
    unfolding h same by (auto split: sum.splits)
  with r(1) show ?thesis by blast
qed

end
