(* ===== verification/Races.thy ===== *)
theory Races
  imports SiteLife Startup
begin

section \<open>Two requests at once\<close>

text \<open>
  \<open>net/http\<close> runs every request on its own goroutine.  The registry and the scheduler each
  serialise their own calls, but a handler makes one call after the other and nothing holds
  them together.  Here an update and a delete of the same site are sequences of such calls, with
  the local outcome of each first call, and their interleavings are the shuffles of the two.
\<close>

record race =
  rc_Server :: server
  rc_Updated :: bool
  rc_Deleted :: bool

definition update_steps :: "site_config \<Rightarrow> (race \<Rightarrow> race) list" where
  "update_steps c =
     [\<lambda>x. case registry_update c (srv_Reg (rc_Server x)) of
        Inl _ \<Rightarrow> x\<lparr>rc_Updated := False\<rparr>
      | Inr db \<Rightarrow> x\<lparr>rc_Server := (rc_Server x)\<lparr>srv_Reg := db\<rparr>, rc_Updated := True\<rparr>,
      \<lambda>x. if rc_Updated x
        then x\<lparr>rc_Server := (rc_Server x)\<lparr>srv_Sched := restart c (srv_Sched (rc_Server x))\<rparr>\<rparr> else x]"

definition delete_steps :: "string \<Rightarrow> (race \<Rightarrow> race) list" where
  "delete_steps i =
     [\<lambda>x. case registry_delete i (srv_Reg (rc_Server x)) of
        Inl _ \<Rightarrow> x\<lparr>rc_Deleted := False\<rparr>
      | Inr db \<Rightarrow> x\<lparr>rc_Server := (rc_Server x)\<lparr>srv_Reg := db\<rparr>, rc_Deleted := True\<rparr>,
      \<lambda>x. if rc_Deleted x
        then x\<lparr>rc_Server := (rc_Server x)\<lparr>srv_Sched := stop i (srv_Sched (rc_Server x))\<rparr>\<rparr> else x]"

definition run_steps :: "(race \<Rightarrow> race) list \<Rightarrow> server \<Rightarrow> server" where
  "run_steps fs s = rc_Server (fold (\<lambda>f. f) fs \<lparr>rc_Server = s, rc_Updated = False, rc_Deleted = False\<rparr>)"

subsection \<open>The sequences are the handlers\<close>

lemma update_steps_run:
  "run_steps (update_steps c) s = (case registry_update c (srv_Reg s) of
     Inl _ \<Rightarrow> s | Inr db \<Rightarrow> s\<lparr>srv_Reg := db, srv_Sched := restart c (srv_Sched s)\<rparr>)"
  by (simp add: run_steps_def update_steps_def split: sum.split)

lemma delete_steps_run:
  "run_steps (delete_steps i) s = (case registry_delete i (srv_Reg s) of
     Inl _ \<Rightarrow> s | Inr db \<Rightarrow> s\<lparr>srv_Reg := db, srv_Sched := stop i (srv_Sched s)\<rparr>)"
  by (simp add: run_steps_def delete_steps_def split: sum.split)

lemma update_handler_steps:
  "rs_Status (fst (handle_update_site ev i r s)) = 200 \<Longrightarrow> \<exists>c. snd (handle_update_site ev i r s) = run_steps (update_steps c) s"
proof -
  assume ok: "rs_Status (fst (handle_update_site ev i r s)) = 200"
  have "\<exists>c db. registry_update c (srv_Reg s) = Inr db \<and>
      snd (handle_update_site ev i r s) = s\<lparr>srv_Reg := db, srv_Sched := restart c (srv_Sched s)\<rparr>"
    using ok unfolding handle_update_site_def Let_def faulty_def
    by (auto dest!: decode_body_error split: sum.splits option.splits if_splits prod.splits)
  then obtain c db where c: "registry_update c (srv_Reg s) = Inr db"
    "snd (handle_update_site ev i r s) = s\<lparr>srv_Reg := db, srv_Sched := restart c (srv_Sched s)\<rparr>" by blast
  show ?thesis by (rule exI [of _ c]) (simp add: update_steps_run c)
qed

lemma delete_handler_steps:
  "rs_Status (fst (handle_delete_site ev i r s)) = 204 \<Longrightarrow> query_get ''purge'' r \<noteq> ''true'' \<Longrightarrow>
   snd (handle_delete_site ev i r s) = run_steps (delete_steps i) s"
  by (auto simp: handle_delete_site_def Let_def faulty_def delete_steps_run split: sum.splits if_splits)

subsection \<open>The orphan\<close>

lemma sched_race:
  "sched_inv sc \<Longrightarrow> sc_Enabled c \<Longrightarrow> running (restart c (stop (sc_ID c) sc)) (sc_ID c) = Some c"
  "sched_inv sc \<Longrightarrow> running (stop i sc) i = None"
  by (simp_all add: running_restart running_stop stop_locked_inv [folded stop_def])

text \<open>The registry after the update, and what the other calls then return.\<close>

definition updated_reg :: "site_config \<Rightarrow> registry \<Rightarrow> registry" where
  "updated_reg c db = db\<lparr>rg_Sites := tbl_set sc_ID (sc_ID c) (set_site_columns c) (rg_Sites db)\<rparr>"

lemma race_calls:
  assumes "site_lookup db (sc_ID c) \<noteq> None"
  shows "registry_update c db = Inr (updated_reg c db)"
    "registry_delete (sc_ID c) db = Inr (site_remove (sc_ID c) db)"
    "registry_delete (sc_ID c) (updated_reg c db) = Inr (site_remove (sc_ID c) (updated_reg c db))"
    "registry_update c (site_remove (sc_ID c) db) = Inl ErrNotFound"
proof -
  have has: "tbl_has sc_ID (sc_ID c) (rg_Sites db)" using assms by (auto simp: site_lookup_def tbl_has_find)
  then show "registry_update c db = Inr (updated_reg c db)"
    "registry_delete (sc_ID c) db = Inr (site_remove (sc_ID c) db)"
    by (simp_all add: registry_update_def registry_delete_def updated_reg_def)
  have "tbl_has sc_ID (sc_ID c) (rg_Sites (updated_reg c db))" using has by (simp add: updated_reg_def set_site_columns_def)
  then show "registry_delete (sc_ID c) (updated_reg c db) = Inr (site_remove (sc_ID c) (updated_reg c db))"
    by (simp add: registry_delete_def)
  show "registry_update c (site_remove (sc_ID c) db) = Inl ErrNotFound"
    by (simp add: registry_update_def site_remove_def tbl_has_del)
qed

lemmas race_defs = run_steps_def update_steps_def delete_steps_def

lemma racing_steps:
  assumes "server_inv s" "sites_of s (sc_ID c) \<noteq> None" "sc_Enabled c"
  defines "fs \<equiv> [hd (update_steps c)] @ delete_steps (sc_ID c) @ tl (update_steps c)"
  shows "fs \<in> shuffles (update_steps c) (delete_steps (sc_ID c))"
    "sites_of (run_steps fs s) (sc_ID c) = None" "running (srv_Sched (run_steps fs s)) (sc_ID c) = Some c"
proof -
  show "fs \<in> shuffles (update_steps c) (delete_steps (sc_ID c))"
    by (simp add: fs_def update_steps_def delete_steps_def)
  have "run_steps fs s = s\<lparr>srv_Reg := site_remove (sc_ID c) (updated_reg c (srv_Reg s)),
      srv_Sched := restart c (stop (sc_ID c) (srv_Sched s))\<rparr>"
    by (simp add: race_defs fs_def race_calls [OF assms(2)])
  then show "sites_of (run_steps fs s) (sc_ID c) = None" "running (srv_Sched (run_steps fs s)) (sc_ID c) = Some c"
    using sched_race(1) [OF server_invD(3) [OF assms(1)] assms(3)]
    by (simp_all add: site_lookup_def site_remove_def tbl_find_del)
qed

lemma serial_steps:
  assumes "server_inv s" "sites_of s (sc_ID c) \<noteq> None"
  shows "running (srv_Sched (run_steps (update_steps c @ delete_steps (sc_ID c)) s)) (sc_ID c) = None"
    "running (srv_Sched (run_steps (delete_steps (sc_ID c) @ update_steps c) s)) (sc_ID c) = None"
  using sched_race(2) [OF restart_inv [OF server_invD(3) [OF assms(1)], of c], of "sc_ID c"]
    sched_race(2) [OF server_invD(3) [OF assms(1)], of "sc_ID c"]
  by (simp_all add: race_defs race_calls [OF assms(2)])

text \<open>
  C24: one after the other an update and a delete leave no loop behind, but interleaved they can:
  when the delete falls between the update's write to the registry and its restart of the loop, the
  site is gone and its loop runs on until a site of that id is created again.
\<close>

theorem racing_update_orphans_loop:
  assumes "server_inv s" "sites_of s (sc_ID c) \<noteq> None" "sc_Enabled c"
  shows "(\<exists>fs\<in>shuffles (update_steps c) (delete_steps (sc_ID c)).
      sites_of (run_steps fs s) (sc_ID c) = None \<and> running (srv_Sched (run_steps fs s)) (sc_ID c) = Some c) \<and>
    running (srv_Sched (run_steps (update_steps c @ delete_steps (sc_ID c)) s)) (sc_ID c) = None \<and>
    running (srv_Sched (run_steps (delete_steps (sc_ID c) @ update_steps c) s)) (sc_ID c) = None"
  using racing_steps [OF assms] serial_steps [OF assms(1,2)] by blast

text \<open>
  Two updates of one site can leave the scheduler with the configuration of the one and the
  registry with that of the other, until the next update or restart.
\<close>

lemma racing_updates_diverge:
  assumes "server_inv s" "sites_of s i \<noteq> None" "sc_ID c = i" "sc_ID c' = i" "sc_Enabled c" "sc_Enabled c'"
  shows "\<exists>fs\<in>shuffles (update_steps c) (update_steps c').
      map_option (\<lambda>x. x\<lparr>sc_CreatedAt := 0\<rparr>) (sites_of (run_steps fs s) i) = Some (c'\<lparr>sc_CreatedAt := 0\<rparr>) \<and>
      running (srv_Sched (run_steps fs s)) i = Some c"
proof -
  let ?db = "updated_reg c (srv_Reg s)"
  define fs where "fs = [hd (update_steps c)] @ update_steps c' @ tl (update_steps c)"
  have shuffle: "fs \<in> shuffles (update_steps c) (update_steps c')" by (simp add: fs_def update_steps_def)
  have has: "site_lookup ?db (sc_ID c') \<noteq> None"
    using assms(2-4) by (auto simp: site_lookup_def updated_reg_def tbl_find_set set_site_columns_def)
  have run: "run_steps fs s = s\<lparr>srv_Reg := updated_reg c' ?db, srv_Sched := restart c (restart c' (srv_Sched s))\<rparr>"
    using race_calls(1) [of "srv_Reg s" c] race_calls(1) [OF has] assms(2,3) by (simp add: race_defs fs_def)
  have inv: "sched_inv (restart c' (srv_Sched s))" using server_invD(3) [OF assms(1)] by (rule restart_inv)
  have "running (srv_Sched (run_steps fs s)) i = Some c" using assms(3,5) by (simp add: run running_restart [OF inv])
  moreover obtain z where z: "tbl_find sc_ID i (rg_Sites ?db) = Some z" using has assms(4) by (auto simp: site_lookup_def)
  have "sc_ID z = i" using tbl_find_Some_key [OF z] by simp
  then have "map_option (\<lambda>x. x\<lparr>sc_CreatedAt := 0\<rparr>) (sites_of (run_steps fs s) i) = Some (c'\<lparr>sc_CreatedAt := 0\<rparr>)"
    using z assms(4) unfolding run updated_reg_def [of c']
    by (cases c') (auto simp: site_lookup_def tbl_find_set set_site_columns_def)
  ultimately show ?thesis using shuffle by blast
qed

definition race_server :: server where
  "race_server = (let db = empty_registry\<lparr>rg_Sites := [example_site]\<rparr> in
     new_server db (new_manager Map.empty) (start_all (registry_list db) new_scheduler) ''k'' [])"

lemma race_server_inv: "server_inv race_server"
  using running_at_start [OF demo_db_ok(1)] demo_db_ok
  by (simp add: server_inv_def race_server_def Let_def new_server_def start_all_inv sched_inv_new stores_inv_def new_manager_def)

theorem racing_update_orphans_loop_witness:
  "\<exists>fs\<in>shuffles (update_steps example_site) (delete_steps ''shop'').
     running (srv_Sched (run_steps fs race_server)) ''shop'' = Some example_site"
proof -
  have c: "sc_ID example_site = ''shop''" "sc_Enabled example_site" by (simp_all add: example_site_def)
  then have "sites_of race_server (sc_ID example_site) \<noteq> None"
    by (simp add: race_server_def Let_def new_server_def site_lookup_def tbl_find_def)
  from racing_update_orphans_loop [OF race_server_inv this c(2)] c(1) show ?thesis by auto
qed

end
