(* ===== verification/Edge.thy ===== *)
theory Edge
  imports SiteLife
begin

section \<open>The edge of the API: sizes, origins, cookies\<close>

text \<open>
  What every answer respects, whatever was asked: lists stay within the limits of their endpoint,
  the headers that admit a browser origin appear for listed origins only, and a session cookie is
  protected and comes from a login.  The last section is about the log of deprecated paths.
\<close>

subsection \<open>What handlers put in an answer\<close>

fun bounded_reply :: "reply \<Rightarrow> bool" where
  "bounded_reply (R_errors xs) = (length xs \<le> 10000)"
| "bounded_reply (R_incidents xs) = (length xs \<le> 10000)"
| "bounded_reply (R_results xs) = (length xs \<le> 10000)"
| "bounded_reply (R_deliveries xs) = (length xs \<le> 1000)"
| "bounded_reply (R_series x) = (length (sr_Points x) \<le> 1000)"
| "bounded_reply _ = True"

definition own_headers :: "response \<Rightarrow> bool" where
  "own_headers q \<longleftrightarrow> list_all (\<lambda>h. fst h \<in> {''Content-Type'', ''Retry-After'', ''Location''}) (rs_Headers q)"

definition ordinary :: "response \<Rightarrow> bool" where
  "ordinary q \<longleftrightarrow> bounded_reply (rs_Body q) \<and> own_headers q"

lemma ordinary_simps [simp]:
  "ordinary (write_error n m)" "ordinary (registry_err x)" "ordinary (alert_err x)" "ordinary no_content"
  "ordinary (write_json n b) = bounded_reply b" "ordinary (write_site n c key)"
  "ordinary (q\<lparr>rs_Headers := hs\<rparr>) \<longleftrightarrow> bounded_reply (rs_Body q) \<and> own_headers (q\<lparr>rs_Headers := hs\<rparr>)"
  "rs_Body (write_error n m) = Err m"
  "own_headers (q\<lparr>rs_Headers := hs\<rparr>) = list_all (\<lambda>h. fst h \<in> {''Content-Type'', ''Retry-After'', ''Location''}) hs"
  "ordinary (q\<lparr>rs_Cookie := ck\<rparr>) = ordinary q"
  by (simp_all add: ordinary_def own_headers_def write_error_def write_json_def registry_err_def alert_err_def
      no_content_def write_site_def)

lemma decode_errors_ordinary:
  "decode_body dec r = Inl x \<Longrightarrow> ordinary x" "decode_channel ev r = Inl y \<Longrightarrow> ordinary y"
  "decode_rule ev r db = Inl z \<Longrightarrow> ordinary z"
proof -
  show b: "decode_body dec r = Inl x \<Longrightarrow> ordinary x" for dec :: "json \<Rightarrow> 'b option" and r x
    by (auto simp: decode_body_def split: body.splits option.splits)
  show "decode_channel ev r = Inl y \<Longrightarrow> ordinary y"
    by (auto simp: decode_channel_def Let_def dest: b split: sum.splits if_splits)
  show "decode_rule ev r db = Inl z \<Longrightarrow> ordinary z"
    by (auto simp: decode_rule_def Let_def dest: b split: sum.splits option.splits if_splits)
qed

lemma limit_param_bounds: "1 \<le> limit_param r 100 \<and> limit_param r 100 \<le> 10000"
  by (auto simp: limit_param_def split: option.split)

lemma length_sql_limit: "0 \<le> n \<Longrightarrow> length (sql_limit n xs) \<le> nat n"
  by (simp add: sql_limit_def)

lemma limited [simp]: "length (sql_limit (limit_param r 100) xs) \<le> 10000"
  using length_sql_limit [of "limit_param r 100" xs] limit_param_bounds [of r] by linarith

lemma listings_bounded:
  "length (site_errors since (limit_param r 100) db) \<le> 10000"
  "length (site_incidents (limit_param r 100) db) \<le> 10000"
  "length (site_results since (limit_param r 100) db) \<le> 10000"
  "length (list_alert_deliveries i n reg) \<le> 1000"
  "length (sr_Points (site_series now w since b db)) \<le> 1000"
proof -
  show "length (list_alert_deliveries i n reg) \<le> 1000" by (auto simp: list_alert_deliveries_def Let_def)
  have "length (sr_Points (site_series now w since b db)) \<le> nat (clamp_buckets b)"
    by (simp add: site_series_def Let_def series_points_def prefill_def split: option.split)
  also have "clamp_buckets b \<le> 1000" by (simp add: clamp_buckets_def Let_def MaxSeriesBuckets_def DefaultSeriesBuckets_def)
  then have "nat (clamp_buckets b) \<le> 1000" by linarith
  finally show "length (sr_Points (site_series now w since b db)) \<le> 1000" .
qed (simp_all add: site_errors_def site_incidents_def site_results_def)

lemma read_store_ordinary: "(\<And>db. bounded_reply (query db)) \<Longrightarrow> ordinary (fst (read_store ev i query s))"
  by (auto simp: read_store_def store_for_def split: sum.split prod.split)

lemma account_handlers_ordinary: "account_endpoint e \<Longrightarrow> ordinary (fst (handler_of ev e i r s))"
proof -
  have "ordinary (fst (handle_login ev r s))"
    by (auto simp: handle_login_def Let_def split_beta dest: decode_errors_ordinary(1) split: sum.split bool.split)
  moreover have "ordinary (fst (handle_logout ev r s))" "ordinary (fst (handle_me ev r s))"
    by (simp_all add: handle_logout_def handle_me_def Let_def split_beta)
  moreover have "ordinary (fst (handle_change_password ev r s))"
    by (auto simp: handle_change_password_def Let_def split_beta dest: decode_errors_ordinary(1)
        split: option.split sum.split)
  ultimately show "account_endpoint e \<Longrightarrow> ?thesis" by (auto simp: account_endpoint_def)
qed

lemma config_handlers_ordinary: "config_endpoint e \<Longrightarrow> ordinary (fst (handler_of ev e i r s))"
  unfolding config_endpoint_def
  by (elim insertE emptyE)
    (auto simp: site_handler_defs Let_def split_beta dest: decode_errors_ordinary(1) split: sum.split option.split)

lemma alert_handlers_ordinary: "alert_endpoint e \<Longrightarrow> ordinary (fst (handler_of ev e i r s))"
  unfolding alert_endpoint_def
  by (elim insertE emptyE)
    (auto simp: alert_handler_defs Let_def split_beta listings_bounded dest: decode_errors_ordinary
      split: option.split sum.split)

lemma data_handlers_ordinary: "data_endpoint e \<Longrightarrow> ordinary (fst (handler_of ev e i r s))"
  by (cases e) (auto simp: data_endpoint_def data_handler_defs Let_def split_beta listings_bounded
      intro!: read_store_ordinary)

lemma serve_ordinary: "\<exists>q. fst (serve ev r s) = add_cors r s q \<and> ordinary q"
proof (cases rule: serve_cases [of s r ev, case_names unrouted routed])
  case (unrouted seen q)
  then have "ordinary q" by (simp add: ordinary_def own_headers_def list_all_iff)
  with unrouted(2) show ?thesis by auto
next
  case (routed e pv seen)
  show ?thesis
  proof (cases rule: dispatch_cases [of ev e pv r "s\<lparr>srv_DeprecationSeen := seen\<rparr>", case_names granted refused])
    case (granted s1)
    have "ordinary (fst (handler_of ev e pv r s1))"
      using endpoint_groups [of e] data_handlers_ordinary alert_handlers_ordinary account_handlers_ordinary
        config_handlers_ordinary by blast
    with routed granted(1) show ?thesis by auto
  next
    case (refused q s1)
    then have "ordinary q" by (auto simp: refusal_def ordinary_def own_headers_def)
    with routed refused(1) show ?thesis by auto
  qed
qed

text \<open>
  Every answer is bounded, whatever limit, window or number of buckets the request names:
  at most 10000 rows of results, errors or incidents, 1000 deliveries or chart points.
\<close>

theorem answers_bounded: "bounded_reply (rs_Body (fst (serve ev r s)))"
  using serve_ordinary [of ev r s] by (auto simp: ordinary_def)

text \<open>
  Browser origins are admitted by exact match only.  An answer carries the header that admits an
  origin just when the request named an origin of the list, and then it admits that one.
\<close>

theorem cors_exact_match:
  "(''Access-Control-Allow-Origin'', v) \<in> set (rs_Headers (fst (serve ev r s))) \<longleftrightarrow>
     v = header_get ''Origin'' r \<and> v \<noteq> [] \<and> v \<in> set (srv_CorsOrigins s)"
proof -
  obtain q where q: "fst (serve ev r s) = add_cors r s q" "own_headers q"
    using serve_ordinary [of ev r s] by (auto simp: ordinary_def)
  then have "(''Access-Control-Allow-Origin'', v) \<notin> set (rs_Headers q)" by (auto simp: own_headers_def list_all_iff)
  then show ?thesis
    by (auto simp: q(1) add_cors_def cors_part_def cors_headers_def Let_def origin_allowed_def list_ex_iff)
qed

subsection \<open>Cookies\<close>

lemma cookie_simps [simp]:
  "rs_Cookie (write_error n m) = None" "rs_Cookie (write_json n b) = None" "rs_Cookie (registry_err x) = None"
  "rs_Cookie (alert_err x) = None" "rs_Cookie no_content = None" "rs_Cookie (write_site n c key) = None"
  "rs_Cookie (add_cors r s q) = rs_Cookie q"
  by (simp_all add: write_error_def write_json_def registry_err_def alert_err_def no_content_def write_site_def add_cors_def)

lemma decode_errors_cookie:
  "decode_body dec r = Inl x \<Longrightarrow> rs_Cookie x = None" "decode_channel ev r = Inl y \<Longrightarrow> rs_Cookie y = None"
  "decode_rule ev r db = Inl z \<Longrightarrow> rs_Cookie z = None"
proof -
  show b: "decode_body dec r = Inl x \<Longrightarrow> rs_Cookie x = None" for dec :: "json \<Rightarrow> 'b option" and r x
    by (auto simp: decode_body_def split: body.splits option.splits)
  show "decode_channel ev r = Inl y \<Longrightarrow> rs_Cookie y = None"
    by (auto simp: decode_channel_def Let_def dest: b split: sum.splits if_splits)
  show "decode_rule ev r db = Inl z \<Longrightarrow> rs_Cookie z = None"
    by (auto simp: decode_rule_def Let_def dest: b split: sum.splits option.splits if_splits)
qed

lemma read_store_cookie: "rs_Cookie (fst (read_store ev i query s)) = None"
  by (auto simp: read_store_def store_for_def split: sum.split prod.split)

lemma handlers_no_cookie:
  "config_endpoint e \<Longrightarrow> rs_Cookie (fst (handler_of ev e i r s)) = None"
  "alert_endpoint e \<Longrightarrow> rs_Cookie (fst (handler_of ev e i r s)) = None"
  "data_endpoint e \<Longrightarrow> rs_Cookie (fst (handler_of ev e i r s)) = None"
proof -
  show "config_endpoint e \<Longrightarrow> rs_Cookie (fst (handler_of ev e i r s)) = None"
    unfolding config_endpoint_def
    by (elim insertE emptyE)
      (auto simp: site_handler_defs Let_def split_beta dest: decode_errors_cookie(1) split: sum.split option.split)
  show "alert_endpoint e \<Longrightarrow> rs_Cookie (fst (handler_of ev e i r s)) = None"
    unfolding alert_endpoint_def
    by (elim insertE emptyE)
      (auto simp: alert_handler_defs Let_def split_beta dest: decode_errors_cookie split: option.split sum.split)
  show "data_endpoint e \<Longrightarrow> rs_Cookie (fst (handler_of ev e i r s)) = None"
    by (cases e) (auto simp: data_endpoint_def data_handler_defs Let_def split_beta read_store_cookie)
qed

definition guarded_cookie :: "server \<Rightarrow> bool \<Rightarrow> cookie \<Rightarrow> bool" where
  "guarded_cookie s login c \<longleftrightarrow> co_HttpOnly c \<and> co_Secure c = srv_SecureCookies s \<and> co_SameSite c = ''Lax'' \<and>
     (login \<or> co_Value c = [] \<and> co_MaxAge c < 0)"

lemma account_cookies:
  assumes "account_endpoint e" "rs_Cookie (fst (handler_of ev e i r s)) = Some c"
  shows "guarded_cookie s (e = E_Login) c"
proof -
  have "rs_Cookie (fst (handle_login ev r s)) = Some c \<Longrightarrow> guarded_cookie s True c"
    unfolding handle_login_def
    by (auto simp: Let_def split_beta guarded_cookie_def session_cookie_for_def dest: decode_errors_cookie(1)
        split: sum.splits if_splits bool.splits)
  moreover have "rs_Cookie (fst (handle_logout ev r s)) = Some c \<Longrightarrow> guarded_cookie s False c"
    "rs_Cookie (fst (handle_me ev r s)) = Some c \<Longrightarrow> guarded_cookie s False c"
    by (auto simp: handle_logout_def handle_me_def Let_def split_beta guarded_cookie_def expired_session_cookie_def)
  moreover have "rs_Cookie (fst (handle_change_password ev r s)) = Some c \<Longrightarrow> guarded_cookie s False c"
    by (auto simp: handle_change_password_def Let_def split_beta guarded_cookie_def expired_session_cookie_def
        dest: decode_errors_cookie(1) split: option.splits sum.splits if_splits)
  ultimately show ?thesis using assms by (cases e) (simp_all add: account_endpoint_def)
qed

text \<open>
  C14: a session cookie is protected, and only a login sends one.  Every cookie of every answer is hidden
  from scripts, sent over HTTPS only unless that was switched off, and not on foreign requests;
  one with a value comes from the login endpoint, all others delete it.  So the expiry
  that later requests move forward in the database never reaches the browser.
\<close>

theorem cookies_only_from_login:
  "case rs_Cookie (fst (serve ev r s)) of None \<Rightarrow> True
   | Some c \<Rightarrow> guarded_cookie s (map_option fst (endpoint_of s r) = Some E_Login) c"
proof (cases rule: serve_cases [of s r ev, case_names unrouted routed])
  case (unrouted seen q)
  then show ?thesis by simp
next
  case (routed e pv seen)
  show ?thesis
  proof (cases rule: dispatch_cases [of ev e pv r "s\<lparr>srv_DeprecationSeen := seen\<rparr>", case_names granted refused])
    case (granted s1)
    have "srv_SecureCookies s1 = srv_SecureCookies s" using gate_settings(1) [OF granted(2)] by (simp add: same_settings_def)
    then have "guarded_cookie s (e = E_Login) c" if "rs_Cookie (fst (handler_of ev e pv r s1)) = Some c" for c
      using endpoint_groups [of e] handlers_no_cookie [of e ev pv r s1] account_cookies [OF _ that] that
      by (auto simp: guarded_cookie_def)
    with routed granted(1) show ?thesis by (simp split: option.split)
  next
    case (refused q s1)
    then have "rs_Cookie q = None" by (simp add: refusal_def)
    with routed refused(1) show ?thesis by simp
  qed
qed

subsection \<open>The deprecation log\<close>

text \<open>
  Every path asked for on the legacy mount stays in the map for good, known to a route or not,
  and no credential is needed: the map grows with the paths clients make up.
\<close>

lemma handler_deprecation: "srv_DeprecationSeen (snd (handler_of ev e pv r s)) = srv_DeprecationSeen s"
  using endpoint_groups [of e] data_frame [of e s ev pv r] alert_frame [of e s ev pv r]
    account_frame [of e s ev pv r] config_frame [of e s ev pv r]
  by (auto simp: change_defs)

lemma dispatch_deprecation: "srv_DeprecationSeen (snd (dispatch ev e pv r s)) = srv_DeprecationSeen s"
proof (cases rule: dispatch_cases [of ev e pv r s, case_names granted refused])
  case (granted s1)
  then show ?thesis by (auto simp: handler_deprecation session_change_def)
next
  case (refused q s1)
  then show ?thesis by (auto simp: session_cleanup_def)
qed

lemma api_mux_deprecation: "srv_DeprecationSeen (snd (api_mux ev p r s)) = srv_DeprecationSeen s"
  by (simp add: api_mux_def dispatch_deprecation split: routed.split)

lemma legacy_paths_remembered:
  assumes "rq_Method r \<noteq> ''OPTIONS''" "root_mount (srv_LegacyRoutes s) (rq_Method r) (rq_Path r) = Legacy p"
  shows "dom (srv_DeprecationSeen (snd (serve ev r s))) = insert (path_unescape p) (dom (srv_DeprecationSeen s))"
  using assms
  by (auto simp: serve_cors Let_def split_beta root_handler_def warn_deprecated_def api_mux_deprecation
      should_log_deprecation_def split: option.split)

end
