(* ===== verification/Process.thy ===== *)
theory Process
  imports Pipeline Scheduler "HOL-Library.Multiset"
begin

section \<open>The running process: loops, queue, workers, shutdown\<close>

text \<open>
  What \<open>cmd/monitor\<close> runs after the start: the loops of the scheduler, the hook that queues
  their transitions, and the workers that \<open>NewDispatcher\<close> starts (internal/alerts/alerts.go).  A
  step is one call under a mutex, one channel operation, or the handling of one event; the
  goroutines take their steps in any order.  \<open>run\<close> ends in one of two ways: a signal stops the
  listener, then \<open>sched.Shutdown\<close> waits for the loops, then the deferred \<open>dispatcher.Shutdown\<close>
  closes the queue and waits for the workers; a failed listener goes to the deferred call
  at once.  Requests still in flight when the listener stops are taken to end within its ten
  seconds.
\<close>

subsection \<open>State\<close>

datatype worker = Idle | Handling event | Exited

datatype phase = Serving | Draining | Closing | Stopped

text \<open>
  The last four fields only record: the events the loops reported, those the queue accepted, those
  handled, and those lost because the queue was closed.  The send on a closed channel
  panics; the panic is caught by the tick that reported.
\<close>

record process =
  pr_Phase :: phase
  pr_Sched :: scheduler
  pr_Queue :: "event alert_queue"
  pr_Workers :: "worker list"
  pr_Disp :: dispatcher
  pr_Listener_failed :: bool
  pr_Reported :: "event list"
  pr_Accepted :: "event list"
  pr_Handled :: "event list"
  pr_Lost :: "event list"

definition new_dispatcher :: "options \<Rightarrow> event alert_queue \<times> worker list" where
  "new_dispatcher opts = (new_queue opts, replicate (nat (op_Workers (with_defaults opts))) Idle)"

definition start_process :: "options \<Rightarrow> registry \<Rightarrow> site_config list \<Rightarrow> process" where
  "start_process opts db sites =
     (let (q, ws) = new_dispatcher opts in
      \<lparr>pr_Phase = Serving, pr_Sched = start_all sites new_scheduler, pr_Queue = q, pr_Workers = ws, pr_Disp = start_dispatcher db,
       pr_Listener_failed = False, pr_Reported = [], pr_Accepted = [], pr_Handled = [], pr_Lost = []\<rparr>)"

text \<open>The hook of \<open>OnTransition\<close>, as the last call of a tick.\<close>

definition report_transition :: "event \<Rightarrow> process \<Rightarrow> process" where
  "report_transition e p =
     (case enqueue e (pr_Queue p) of
        None \<Rightarrow> p\<lparr>pr_Reported := pr_Reported p @ [e], pr_Lost := pr_Lost p @ [e]\<rparr>
      | Some q \<Rightarrow> p\<lparr>pr_Queue := q, pr_Reported := pr_Reported p @ [e],
          pr_Accepted := pr_Accepted p @ drop (length (qu_Items (pr_Queue p))) (qu_Items q)\<rparr>)"

definition close_queue :: "process \<Rightarrow> process" where
  "close_queue p = p\<lparr>pr_Phase := Closing, pr_Queue := shutdown_queue (pr_Queue p)\<rparr>"

subsection \<open>Steps\<close>

text \<open>A worker: \<open>for e := range d.queue\<close> ends when the queue is closed and empty.\<close>

inductive worker_step :: "int \<Rightarrow> process \<Rightarrow> process \<Rightarrow> bool" for retries where
  Receive: "w < length (pr_Workers p) \<Longrightarrow> pr_Workers p ! w = Idle \<Longrightarrow> receive (pr_Queue p) = Some (e, q) \<Longrightarrow>
    worker_step retries p (p\<lparr>pr_Queue := q, pr_Workers := (pr_Workers p)[w := Handling e]\<rparr>)"
| Finish: "w < length (pr_Workers p) \<Longrightarrow> pr_Workers p ! w = Handling e \<Longrightarrow>
    worker_step retries p (p\<lparr>pr_Disp := handle su retries (pr_Disp p) e, pr_Handled := pr_Handled p @ [e],
      pr_Workers := (pr_Workers p)[w := Idle]\<rparr>)"
| Exit: "w < length (pr_Workers p) \<Longrightarrow> pr_Workers p ! w = Idle \<Longrightarrow> qu_Closed (pr_Queue p) \<Longrightarrow>
    receive (pr_Queue p) = None \<Longrightarrow> worker_step retries p (p\<lparr>pr_Workers := (pr_Workers p)[w := Exited]\<rparr>)"

text \<open>The main goroutine, the requests it serves, and the loops.\<close>

inductive run_step :: "int \<Rightarrow> process \<Rightarrow> process \<Rightarrow> bool" for retries where
  Worker: "pr_Phase p \<noteq> Stopped \<Longrightarrow> worker_step retries p p' \<Longrightarrow> run_step retries p p'"
| Schedule: "pr_Phase p = Serving \<Longrightarrow> f \<in> {start site, stop i, restart site} \<Longrightarrow>
    run_step retries p (p\<lparr>pr_Sched := f (pr_Sched p)\<rparr>)"
| Request: "pr_Phase p = Serving \<Longrightarrow> run_step retries p (p\<lparr>pr_Disp := disp_exec retries (pr_Disp p) (Operate op)\<rparr>)"
| Goroutine: "pr_Phase p \<noteq> Stopped \<Longrightarrow> loop_step (pr_Sched p) s' \<Longrightarrow> run_step retries p (p\<lparr>pr_Sched := s'\<rparr>)"
| Report: "pr_Phase p \<noteq> Stopped \<Longrightarrow> i < length (sh_Loops (pr_Sched p)) \<Longrightarrow> lp_Checking (sh_Loops (pr_Sched p) ! i) \<Longrightarrow>
    ev_Site e = lp_Site (sh_Loops (pr_Sched p) ! i) \<Longrightarrow> loop_step (pr_Sched p) s' \<Longrightarrow>
    s' = (pr_Sched p)\<lparr>sh_Loops := (sh_Loops (pr_Sched p))[i := (sh_Loops (pr_Sched p) ! i)\<lparr>lp_Checking := False\<rparr>]\<rparr> \<Longrightarrow>
    run_step retries p (report_transition e (p\<lparr>pr_Sched := s'\<rparr>))"
| Signal: "pr_Phase p = Serving \<Longrightarrow> run_step retries p (p\<lparr>pr_Phase := Draining, pr_Sched := shutdown (pr_Sched p)\<rparr>)"
| Loops_done: "pr_Phase p = Draining \<Longrightarrow> list_all lp_Returned (sh_Loops (pr_Sched p)) \<Longrightarrow> run_step retries p (close_queue p)"
| Listener_fails: "pr_Phase p = Serving \<Longrightarrow> run_step retries p (close_queue (p\<lparr>pr_Listener_failed := True\<rparr>))"
| Workers_done: "pr_Phase p = Closing \<Longrightarrow> list_all (\<lambda>w. w = Exited) (pr_Workers p) \<Longrightarrow>
    run_step retries p (p\<lparr>pr_Phase := Stopped\<rparr>)"

inductive runs :: "int \<Rightarrow> process \<Rightarrow> process \<Rightarrow> bool" for retries where
  Runs_refl: "runs retries p p"
| Runs_step: "runs retries p q \<Longrightarrow> run_step retries q r \<Longrightarrow> runs retries p r"

inductive_cases worker_stepE: "worker_step retries p p'"
inductive_cases run_stepE: "run_step retries p p'"

subsection \<open>Where the events are\<close>

definition held :: "worker \<Rightarrow> event list" where
  "held w = (case w of Handling e \<Rightarrow> [e] | _ \<Rightarrow> [])"

definition in_flight :: "worker list \<Rightarrow> event list" where
  "in_flight ws = concat (map held ws)"

definition handled_events :: "disp_step list \<Rightarrow> event list" where
  "handled_events steps = concat (map (\<lambda>s. case s of Handle su e \<Rightarrow> [e] | Operate _ \<Rightarrow> []) steps)"

lemma in_flight_update:
  "w < length ws \<Longrightarrow> mset (in_flight (ws[w := x])) + mset (held (ws ! w)) = mset (in_flight ws) + mset (held x)"
  unfolding in_flight_def
  by (induction ws arbitrary: w) (auto simp: nth_Cons ac_simps split: nat.split)

definition closed_phase :: "phase \<Rightarrow> bool" where
  "closed_phase ph \<longleftrightarrow> ph = Closing \<or> ph = Stopped"

definition queue_inv :: "process \<Rightarrow> bool" where
  "queue_inv p \<longleftrightarrow>
     mset (pr_Accepted p) = mset (pr_Handled p) + mset (in_flight (pr_Workers p)) + mset (qu_Items (pr_Queue p)) \<and>
     int (length (pr_Reported p)) = int (length (pr_Accepted p)) + qu_Dropped (pr_Queue p) + int (length (pr_Lost p)) \<and>
     qu_Closed (pr_Queue p) = closed_phase (pr_Phase p) \<and> pr_Workers p \<noteq> [] \<and>
     (if Exited \<in> set (pr_Workers p) then qu_Closed (pr_Queue p) \<and> qu_Items (pr_Queue p) = [] else True) \<and>
     (if pr_Phase p = Stopped then list_all (\<lambda>w. w = Exited) (pr_Workers p) else True)"

definition idle_loops :: "scheduler \<Rightarrow> bool" where
  "idle_loops s \<longleftrightarrow> list_all (\<lambda>l. \<not> (lp_Returned l \<and> lp_Checking l)) (sh_Loops s)"

definition loops_inv :: "process \<Rightarrow> bool" where
  "loops_inv p \<longleftrightarrow> idle_loops (pr_Sched p) \<and>
     (if pr_Listener_failed p then closed_phase (pr_Phase p)
      else pr_Lost p = [] \<and> (closed_phase (pr_Phase p) \<longrightarrow> list_all lp_Returned (sh_Loops (pr_Sched p))))"

subsection \<open>The workers keep the events\<close>

lemma worker_step_queue_inv: "worker_step retries p p' \<Longrightarrow> queue_inv p \<Longrightarrow> queue_inv p'"
proof (induction rule: worker_step.induct)
  case (Receive w p e q)
  have items: "qu_Items (pr_Queue p) = e # qu_Items q" "qu_Dropped q = qu_Dropped (pr_Queue p)" "qu_Closed q = qu_Closed (pr_Queue p)"
    using Receive(3) by (auto simp: receive_def split: list.splits)
  have "mset (in_flight ((pr_Workers p)[w := Handling e])) = add_mset e (mset (in_flight (pr_Workers p)))"
    using in_flight_update [OF Receive(1), of "Handling e"] Receive(2) by (simp add: held_def)
  moreover have "Exited \<notin> set (pr_Workers p)" using Receive(4) items(1) by (auto simp: queue_inv_def)
  then have "Exited \<notin> set ((pr_Workers p)[w := Handling e])"
    using set_update_subset_insert [of "pr_Workers p" w "Handling e"] by blast
  moreover have "pr_Phase p \<noteq> Stopped" using Receive(1,2,4) by (auto simp: queue_inv_def list_all_iff dest!: nth_mem)
  ultimately show ?case using Receive(4) by (simp add: queue_inv_def items)
next
  case (Finish w p e su)
  have "add_mset e (mset (in_flight ((pr_Workers p)[w := Idle]))) = mset (in_flight (pr_Workers p))"
    using in_flight_update [OF Finish(1), of Idle] Finish(2) by (simp add: held_def)
  moreover have "Exited \<in> set ((pr_Workers p)[w := Idle]) \<Longrightarrow> Exited \<in> set (pr_Workers p)"
    using set_update_subset_insert [of "pr_Workers p" w Idle] by blast
  moreover have "pr_Phase p \<noteq> Stopped" using Finish(1-3) by (auto simp: queue_inv_def list_all_iff dest!: nth_mem)
  ultimately show ?case using Finish(3) by (auto simp: queue_inv_def)
next
  case (Exit w p)
  have "mset (in_flight ((pr_Workers p)[w := Exited])) = mset (in_flight (pr_Workers p))"
    using in_flight_update [OF Exit(1), of Exited] Exit(2) by (simp add: held_def)
  moreover have "qu_Items (pr_Queue p) = []" using Exit(4) by (simp add: receive_def split: list.splits)
  moreover have "pr_Phase p \<noteq> Stopped" using Exit(1,2,5) by (auto simp: queue_inv_def list_all_iff dest!: nth_mem)
  ultimately show ?case using Exit(3,5) by (simp add: queue_inv_def)
qed

lemma queue_inv_sched [simp]: "queue_inv (p\<lparr>pr_Sched := s\<rparr>) = queue_inv p"
  "queue_inv (p\<lparr>pr_Disp := d\<rparr>) = queue_inv p" "queue_inv (p\<lparr>pr_Listener_failed := b\<rparr>) = queue_inv p"
  by (simp_all add: queue_inv_def)

lemma report_queue_inv: "queue_inv p \<Longrightarrow> queue_inv (report_transition e p)"
  by (auto simp: queue_inv_def report_transition_def enqueue_def split: option.split if_splits)

lemma close_queue_inv: "queue_inv p \<Longrightarrow> \<not> closed_phase (pr_Phase p) \<Longrightarrow> queue_inv (close_queue p)"
  by (auto simp: queue_inv_def close_queue_def shutdown_queue_def closed_phase_def)

lemma run_step_queue_inv: "run_step retries p p' \<Longrightarrow> queue_inv p \<Longrightarrow> queue_inv p'"
proof (induction rule: run_step.induct)
  case (Worker p p')
  then show ?case by (blast intro: worker_step_queue_inv)
next
  case (Report p i e s')
  then show ?case by (simp add: report_queue_inv)
next
  case (Signal p)
  then show ?case by (auto simp: queue_inv_def closed_phase_def split: if_splits)
next
  case (Loops_done p)
  then show ?case by (simp add: close_queue_inv closed_phase_def)
next
  case (Listener_fails p)
  then show ?case by (simp add: close_queue_inv closed_phase_def)
next
  case (Workers_done p)
  then show ?case by (simp add: queue_inv_def closed_phase_def)
qed simp_all

subsection \<open>The loops end first\<close>

lemma list_all_update: "list_all P xs \<Longrightarrow> (i < length xs \<Longrightarrow> P (xs ! i) \<Longrightarrow> P x) \<Longrightarrow> list_all P (xs[i := x])"
  by (cases "i < length xs") (auto simp: list_all_length nth_list_update)

lemma loop_step_idle: "loop_step s s' \<Longrightarrow> idle_loops s \<Longrightarrow> idle_loops s'"
  by (induction rule: loop_step.induct) (simp_all add: idle_loops_def list_all_update)

lemma loop_step_returned:
  "loop_step s s' \<Longrightarrow> list_all lp_Returned (sh_Loops s) \<Longrightarrow> list_all lp_Returned (sh_Loops s')"
  by (induction rule: loop_step.induct) (auto simp: list_all_length nth_list_update)

lemma stop_idle: "idle_loops s \<Longrightarrow> idle_loops (stop_locked i s)"
  by (simp add: idle_loops_def stop_locked_def cancel_def list_all_update split: option.split)

lemma start_idle: "idle_loops s \<Longrightarrow> idle_loops (start c s)"
  using stop_idle [of s "sc_ID c"] by (simp add: start_def Let_def) (simp add: idle_loops_def)

lemma methods_idle:
  assumes "idle_loops s"
  shows "idle_loops (stop i s)" "idle_loops (restart c s)" "idle_loops (start_all cs s)" "idle_loops (shutdown s)"
proof -
  show "idle_loops (stop i s)" "idle_loops (restart c s)"
    using assms by (simp_all add: stop_def restart_def stop_idle start_idle Let_def)
  show "idle_loops (start_all cs s)"
    unfolding start_all_def using assms by (induction cs arbitrary: s) (simp_all add: start_idle)
  show "idle_loops (shutdown s)" using assms by (simp add: idle_loops_def shutdown_def list_all_length)
qed

lemma worker_step_loops: "worker_step retries p p' \<Longrightarrow> loops_inv p' = loops_inv p"
  by (induction rule: worker_step.induct) (simp_all add: loops_inv_def)

lemma report_loops_inv:
  assumes "loops_inv p" "i < length (sh_Loops (pr_Sched p))" "lp_Checking (sh_Loops (pr_Sched p) ! i)"
    and "queue_inv p" "idle_loops s" "list_all lp_Returned (sh_Loops (pr_Sched p)) \<Longrightarrow> list_all lp_Returned (sh_Loops s)"
  shows "loops_inv (report_transition e (p\<lparr>pr_Sched := s\<rparr>))"
proof -
  have "\<not> lp_Returned (sh_Loops (pr_Sched p) ! i)"
    using assms(1-3) by (auto simp: loops_inv_def idle_loops_def list_all_length)
  then have "\<not> list_all lp_Returned (sh_Loops (pr_Sched p))" using assms(2) by (auto simp: list_all_length)
  with assms(1,4-6) show ?thesis
    by (auto simp: loops_inv_def queue_inv_def report_transition_def enqueue_def split: if_splits)
qed

lemma run_step_loops_inv: "run_step retries p p' \<Longrightarrow> queue_inv p \<Longrightarrow> loops_inv p \<Longrightarrow> loops_inv p'"
proof (induction rule: run_step.induct)
  case (Worker p p')
  then show ?case by (simp add: worker_step_loops)
next
  case (Schedule p f site i)
  then have "idle_loops (f (pr_Sched p))" by (auto simp: loops_inv_def start_idle methods_idle)
  with Schedule show ?case by (simp add: loops_inv_def closed_phase_def split: if_splits)
next
  case (Goroutine p s')
  with loop_step_idle [OF Goroutine(2)] loop_step_returned [OF Goroutine(2)] show ?case
    by (auto simp: loops_inv_def split: if_splits)
next
  case (Report p i e s')
  show ?case
    using report_loops_inv [OF Report(8) Report(2,3) Report(7) loop_step_idle [OF Report(5)] loop_step_returned [OF Report(5)]]
      Report(8) by (simp add: loops_inv_def)
next
  case (Signal p)
  then show ?case by (auto simp: loops_inv_def closed_phase_def methods_idle split: if_splits)
next
  case (Listener_fails p)
  then show ?case by (auto simp: loops_inv_def closed_phase_def close_queue_def split: if_splits)
qed (auto simp: loops_inv_def closed_phase_def close_queue_def split: if_splits)

subsection \<open>Runs\<close>

definition sequential :: "int \<Rightarrow> registry \<Rightarrow> process \<Rightarrow> bool" where
  "sequential retries db p \<longleftrightarrow>
     (\<exists>steps. pr_Disp p = foldl (disp_exec retries) (start_dispatcher db) steps \<and> handled_events steps = pr_Handled p)"

lemma sequential_cong:
  "pr_Disp p' = pr_Disp p \<Longrightarrow> pr_Handled p' = pr_Handled p \<Longrightarrow> sequential retries db p' = sequential retries db p"
  by (simp add: sequential_def)

lemma sequential_step:
  assumes "sequential retries db p" "pr_Disp p' = disp_exec retries (pr_Disp p) st"
    and "pr_Handled p' = pr_Handled p @ handled_events [st]"
  shows "sequential retries db p'"
proof -
  from assms(1) obtain steps where s: "pr_Disp p = foldl (disp_exec retries) (start_dispatcher db) steps"
    "handled_events steps = pr_Handled p" by (auto simp: sequential_def)
  have "handled_events (steps @ [st]) = handled_events steps @ handled_events [st]" by (simp add: handled_events_def)
  with s assms(2,3) show ?thesis unfolding sequential_def by (intro exI [of _ "steps @ [st]"]) simp
qed

lemma worker_step_sequential: "worker_step retries p p' \<Longrightarrow> sequential retries db p \<Longrightarrow> sequential retries db p'"
proof (induction rule: worker_step.induct)
  case (Finish w p e su)
  from Finish(3) show ?case by (rule sequential_step [where st = "Handle su e"]) (simp_all add: handled_events_def)
qed (simp_all add: sequential_def)

lemma report_simps [simp]:
  "pr_Disp (report_transition e p) = pr_Disp p" "pr_Handled (report_transition e p) = pr_Handled p"
  "pr_Workers (report_transition e p) = pr_Workers p" "pr_Phase (report_transition e p) = pr_Phase p"
  by (simp_all add: report_transition_def split: option.split)

lemma run_step_sequential: "run_step retries p p' \<Longrightarrow> sequential retries db p \<Longrightarrow> sequential retries db p'"
proof (induction rule: run_step.induct)
  case (Worker p p')
  then show ?case by (blast intro: worker_step_sequential)
next
  case (Request p op)
  from Request(2) show ?case by (rule sequential_step [where st = "Operate op"]) (simp_all add: handled_events_def)
qed (simp_all add: sequential_def close_queue_def)

definition process_inv :: "int \<Rightarrow> registry \<Rightarrow> process \<Rightarrow> bool" where
  "process_inv retries db p \<longleftrightarrow> queue_inv p \<and> loops_inv p \<and> sequential retries db p"

lemma start_process_inv: "process_inv retries db (start_process opts db sites)"
proof -
  have "idle_loops (start_all sites new_scheduler)"
    by (rule methods_idle) (simp add: idle_loops_def new_scheduler_def)
  moreover have "0 < nat (op_Workers (with_defaults opts))" by (simp add: with_defaults_def Let_def)
  ultimately show ?thesis
    by (auto simp: process_inv_def queue_inv_def loops_inv_def sequential_def start_process_def new_dispatcher_def
        new_queue_def in_flight_def held_def closed_phase_def handled_events_def Let_def intro!: exI [of _ "[]"])
qed

lemma runs_inv: "runs retries p q \<Longrightarrow> process_inv retries db p \<Longrightarrow> process_inv retries db q"
  by (induction rule: runs.induct)
    (auto simp: process_inv_def intro: run_step_queue_inv run_step_loops_inv run_step_sequential)

lemma no_flight: "list_all (\<lambda>w. w = Exited) ws \<Longrightarrow> in_flight ws = []"
  by (induction ws) (simp_all add: in_flight_def held_def)

text \<open>
  C6: nothing is lost on the way from the loops to the workers, and stopping loses nothing.  Under
  every interleaving every reported transition is accepted, counted as dropped, or lost to a
  closed queue, the last only after the listener failed; the workers together do what one worker
  would do with the same events in some order; and when the process has stopped every
  accepted event was handled, once.
\<close>

theorem shutdown_handles_everything:
  assumes "runs retries (start_process opts db sites) p"
  shows "sequential retries db p \<and>
    int (length (pr_Reported p)) = int (length (pr_Accepted p)) + qu_Dropped (pr_Queue p) + int (length (pr_Lost p)) \<and>
    (if pr_Listener_failed p then True else pr_Lost p = []) \<and>
    (if pr_Phase p = Stopped then mset (pr_Handled p) = mset (pr_Accepted p) \<and> qu_Items (pr_Queue p) = [] else True)"
proof -
  have inv: "queue_inv p" "loops_inv p" "sequential retries db p"
    using runs_inv [OF assms start_process_inv] by (simp_all add: process_inv_def)
  have "mset (pr_Handled p) = mset (pr_Accepted p) \<and> qu_Items (pr_Queue p) = []" if "pr_Phase p = Stopped"
  proof -
    have ex: "list_all (\<lambda>w. w = Exited) (pr_Workers p)" "pr_Workers p \<noteq> []"
      using inv(1) that by (simp_all add: queue_inv_def)
    then have "Exited \<in> set (pr_Workers p)" by (cases "pr_Workers p") auto
    then have "qu_Items (pr_Queue p) = []" using inv(1) by (simp add: queue_inv_def)
    with inv(1) no_flight [OF ex(1)] show ?thesis by (simp add: queue_inv_def)
  qed
  with inv show ?thesis by (simp add: loops_inv_def queue_inv_def split: if_splits)
qed

subsection \<open>Runs of a given schedule\<close>

text \<open>An executable selection of steps, to follow a given schedule.\<close>

datatype move = Tick nat | Tell nat transition unix | Return nat | Work nat surroundings | Kill | Fail | Close | End

definition loop_at :: "process \<Rightarrow> nat \<Rightarrow> loop \<Rightarrow> process" where
  "loop_at p i l = p\<lparr>pr_Sched := (pr_Sched p)\<lparr>sh_Loops := (sh_Loops (pr_Sched p))[i := l]\<rparr>\<rparr>"

fun advance :: "int \<Rightarrow> move \<Rightarrow> process \<Rightarrow> process option" where
  "advance retries (Tick i) p = (let ls = sh_Loops (pr_Sched p) in
     if pr_Phase p \<noteq> Stopped \<and> i < length ls \<and> \<not> lp_Returned (ls ! i) \<and> \<not> lp_Checking (ls ! i)
     then Some (loop_at p i ((ls ! i)\<lparr>lp_Checking := True\<rparr>)) else None)"
| "advance retries (Tell i tr now) p = (let ls = sh_Loops (pr_Sched p) in
     if pr_Phase p \<noteq> Stopped \<and> i < length ls \<and> lp_Checking (ls ! i)
     then Some (report_transition \<lparr>ev_Site = lp_Site (ls ! i), ev_Transition = tr, ev_At = now\<rparr>
       (loop_at p i ((ls ! i)\<lparr>lp_Checking := False\<rparr>))) else None)"
| "advance retries (Return i) p = (let ls = sh_Loops (pr_Sched p) in
     if pr_Phase p \<noteq> Stopped \<and> i < length ls \<and> lp_Cancelled (ls ! i) \<and> \<not> lp_Checking (ls ! i)
     then Some (loop_at p i ((ls ! i)\<lparr>lp_Returned := True\<rparr>)) else None)"
| "advance retries (Work w su) p =
     (if pr_Phase p = Stopped \<or> \<not> w < length (pr_Workers p) then None
      else case pr_Workers p ! w of
        Idle \<Rightarrow> (case receive (pr_Queue p) of
            Some (e, q) \<Rightarrow> Some (p\<lparr>pr_Queue := q, pr_Workers := (pr_Workers p)[w := Handling e]\<rparr>)
          | None \<Rightarrow> if qu_Closed (pr_Queue p) then Some (p\<lparr>pr_Workers := (pr_Workers p)[w := Exited]\<rparr>) else None)
      | Handling e \<Rightarrow> Some (p\<lparr>pr_Disp := handle su retries (pr_Disp p) e, pr_Handled := pr_Handled p @ [e],
          pr_Workers := (pr_Workers p)[w := Idle]\<rparr>)
      | Exited \<Rightarrow> None)"
| "advance retries Kill p = (if pr_Phase p = Serving then Some (p\<lparr>pr_Phase := Draining, pr_Sched := shutdown (pr_Sched p)\<rparr>) else None)"
| "advance retries Fail p = (if pr_Phase p = Serving then Some (close_queue (p\<lparr>pr_Listener_failed := True\<rparr>)) else None)"
| "advance retries Close p = (if pr_Phase p = Draining \<and> list_all lp_Returned (sh_Loops (pr_Sched p)) then Some (close_queue p) else None)"
| "advance retries End p = (if pr_Phase p = Closing \<and> list_all (\<lambda>w. w = Exited) (pr_Workers p) then Some (p\<lparr>pr_Phase := Stopped\<rparr>) else None)"

lemma advance_step: "advance retries m p = Some q \<Longrightarrow> run_step retries p q"
proof (cases m)
  case (Tell i tr now)
  assume "advance retries m p = Some q"
  with Tell show ?thesis
    by (auto simp: loop_at_def Let_def split: if_splits intro!: run_step.Report [where i = i] loop_step.Tick_ends)
next
  case (Work w su)
  assume "advance retries m p = Some q"
  with Work show ?thesis
    by (auto split: if_splits worker.splits option.splits intro!: run_step.Worker
        intro: worker_step.Receive worker_step.Finish worker_step.Exit)
qed (auto simp: loop_at_def Let_def split: if_splits intro: run_step.intros loop_step.intros)

fun moves :: "int \<Rightarrow> move list \<Rightarrow> process \<Rightarrow> process option" where
  "moves retries [] p = Some p"
| "moves retries (m # ms) p = (case advance retries m p of None \<Rightarrow> None | Some q \<Rightarrow> moves retries ms q)"

lemma runs_trans: "runs retries q r \<Longrightarrow> runs retries p q \<Longrightarrow> runs retries p r"
  by (induction rule: runs.induct) (auto intro: runs.intros)

lemma moves_run: "moves retries ms p = Some q \<Longrightarrow> runs retries p q"
proof (induction ms arbitrary: p)
  case (Cons m ms)
  then obtain p1 where p1: "advance retries m p = Some p1" "moves retries ms p1 = Some q" by (auto split: option.splits)
  show ?case using Cons.IH [OF p1(2)] by (rule runs_trans) (rule Runs_step [OF Runs_refl advance_step [OF p1(1)]])
qed (simp add: Runs_refl)

definition one_worker :: options where
  "one_worker = \<lparr>op_QueueSize = 0, op_Workers = 1, op_SendTimeout = 0, op_Retries = 0, op_RetryDelay = 0\<rparr>"

definition went_down :: transition where
  "went_down = empty_transition\<lparr>tr_IncidentOpened := True, tr_IncidentID := 1, tr_ConsecutiveFailures := 1\<rparr>"

definition graceful :: "move list" where
  "graceful = [Tick 0, Tell 0 went_down 60, Kill, Work 0 (quiet 0), Return 0, Close, Work 0 (quiet 0), Work 0 (quiet 0), End]"

theorem shutdown_handles_everything_witness:
  "\<exists>p. moves 2 graceful (start_process one_worker (example_registry 1) [example_site]) = Some p \<and>
     pr_Phase p = Stopped \<and> length (pr_Accepted p) = 1 \<and> mset (pr_Handled p) = mset (pr_Accepted p)"
proof -
  let ?s = "start_process one_worker (example_registry 1) [example_site]"
  have "case moves 2 graceful ?s of None \<Rightarrow> False | Some p \<Rightarrow> pr_Phase p = Stopped \<and> length (pr_Accepted p) = 1"
    by code_simp
  then obtain p where p: "moves 2 graceful ?s = Some p" "pr_Phase p = Stopped" "length (pr_Accepted p) = 1"
    by (auto split: option.splits)
  from shutdown_handles_everything [OF moves_run [OF p(1)]] p show ?thesis by auto
qed

text \<open>
  When the listener fails, \<open>run\<close> returns without stopping the loops: the deferred call closes the
  queue under them, and an outage recorded in that moment is never announced.
\<close>

lemma listener_failure_loses_outage:
  "case moves 2 [Tick 0, Fail, Tell 0 went_down 60, Work 0 (quiet 0), End]
      (start_process one_worker (example_registry 1) [example_site]) of
     None \<Rightarrow> False
   | Some p \<Rightarrow> pr_Phase p = Stopped \<and> map ev_Transition (pr_Lost p) = [went_down] \<and> pr_Handled p = []"
  by code_simp

subsection \<open>The workers end\<close>

definition worker_work :: "worker \<Rightarrow> nat" where
  "worker_work w = (case w of Idle \<Rightarrow> 1 | Handling _ \<Rightarrow> 2 | Exited \<Rightarrow> 0)"

text \<open>How many steps the workers have left once the queue is closed.\<close>

definition pool_work :: "process \<Rightarrow> nat" where
  "pool_work p = 2 * length (qu_Items (pr_Queue p)) + sum_list (map worker_work (pr_Workers p))"

inductive pool_runs :: "int \<Rightarrow> process \<Rightarrow> process \<Rightarrow> bool" for retries where
  Pool_refl: "pool_runs retries p p"
| Pool_step: "worker_step retries p q \<Longrightarrow> pool_runs retries q r \<Longrightarrow> pool_runs retries p r"

lemma work_update:
  "w < length ws \<Longrightarrow> sum_list (map worker_work (ws[w := x])) + worker_work (ws ! w) = sum_list (map worker_work ws) + worker_work x"
  by (induction ws arbitrary: w) (auto simp: nth_Cons split: nat.split)

lemma worker_step_work: "worker_step retries p q \<Longrightarrow> pool_work q < pool_work p"
proof (induction rule: worker_step.induct)
  case (Receive w p e q)
  then show ?case using work_update [OF Receive(1), of "Handling e"]
    by (auto simp: pool_work_def worker_work_def receive_def split: list.splits)
next
  case (Finish w p e su)
  then show ?case using work_update [OF Finish(1), of Idle] by (simp add: pool_work_def worker_work_def)
next
  case (Exit w p)
  then show ?case using work_update [OF Exit(1), of Exited] by (simp add: pool_work_def worker_work_def)
qed

lemma worker_step_closed: "worker_step retries p q \<Longrightarrow> qu_Closed (pr_Queue q) = qu_Closed (pr_Queue p)"
  by (induction rule: worker_step.induct) (auto simp: receive_def split: list.splits)

lemma pool_progress:
  assumes "qu_Closed (pr_Queue p)" "\<not> list_all (\<lambda>w. w = Exited) (pr_Workers p)"
  shows "\<exists>q. worker_step retries p q"
proof -
  obtain w where w: "w < length (pr_Workers p)" "pr_Workers p ! w \<noteq> Exited" using assms(2) by (auto simp: list_all_length)
  show ?thesis
  proof (cases "pr_Workers p ! w")
    case Idle
    show ?thesis
    proof (cases "receive (pr_Queue p)")
      case None
      from worker_step.Exit [OF w(1) Idle assms(1) this] show ?thesis by blast
    next
      case (Some r)
      obtain e q where "r = (e, q)" by fastforce
      with worker_step.Receive [OF w(1) Idle] Some show ?thesis by blast
    qed
  next
    case (Handling e)
    from worker_step.Finish [OF w(1) this] show ?thesis by blast
  qed (use w in simp)
qed

text \<open>
  C37: \<open>dispatcher.Shutdown\<close> returns.  Once the queue is closed, the workers have a bounded number
  of steps left, which no report of a loop raises; as long as one of them has not ended one
  can go on, and so they all end.
\<close>

theorem workers_end:
  assumes "qu_Closed (pr_Queue p)"
  shows "(\<exists>q. pool_runs retries p q \<and> list_all (\<lambda>w. w = Exited) (pr_Workers q)) \<and>
    (\<forall>q. worker_step retries p q \<longrightarrow> pool_work q < pool_work p) \<and>
    (list_all (\<lambda>w. w = Exited) (pr_Workers p) \<or> (\<exists>q. worker_step retries p q)) \<and>
    pool_work (report_transition e p) = pool_work p"
proof -
  have "\<exists>q. pool_runs retries p q \<and> list_all (\<lambda>w. w = Exited) (pr_Workers q)"
    using assms
  proof (induction "pool_work p" arbitrary: p rule: less_induct)
    case less
    show ?case
    proof (cases "list_all (\<lambda>w. w = Exited) (pr_Workers p)")
      case True
      then show ?thesis by (blast intro: Pool_refl)
    next
      case False
      with pool_progress less.prems obtain q where q: "worker_step retries p q" by blast
      have "qu_Closed (pr_Queue q)" using worker_step_closed [OF q] less.prems by simp
      from less.hyps [OF worker_step_work [OF q] this] show ?thesis by (blast intro: Pool_step [OF q])
    qed
  qed
  moreover have "pool_work (report_transition e p) = pool_work p"
    using assms by (simp add: pool_work_def report_transition_def enqueue_def)
  ultimately show ?thesis using worker_step_work pool_progress [OF assms] by blast
qed

theorem workers_end_witness:
  "\<exists>q. pool_runs 2 (close_queue (start_process one_worker (example_registry 1) [])) q \<and>
     list_all (\<lambda>w. w = Exited) (pr_Workers q)"
  using workers_end [of "close_queue (start_process one_worker (example_registry 1) [])"]
  by (simp add: close_queue_def shutdown_queue_def)

subsection \<open>Two workers on the events of one site\<close>

text \<open>
  The calls of \<open>applyRule\<close> that one worker makes for an event.  Each claims and sends before the
  next, and a send may take half a minute, so a second worker can handle the next event of the
  same site in between.
\<close>

definition rule_calls :: "surroundings \<Rightarrow> int \<Rightarrow> event \<Rightarrow> registry \<Rightarrow> (dispatcher \<Rightarrow> dispatcher) list" where
  "rule_calls su retries e db =
     concat (map (\<lambda>k. map (\<lambda>rule d. apply_rule su retries e k d rule) (rules_for db (sc_ID (ev_Site e)) k)) (kinds_for e))"

lemma rules_config: "same_config db (dp_Registry d) \<Longrightarrow> same_config db (dp_Registry (foldl (apply_rule su retries e k) d rules))"
proof (induction rules arbitrary: d)
  case (Cons rule rules)
  from Cons.IH [OF same_config_trans [OF Cons.prems apply_rule_config]] show ?case by simp
qed simp

lemma handle_kinds_calls:
  assumes "\<forall>k. \<not> su_Fault su (Load_rules k)" "same_config db (dp_Registry d)"
  shows "foldl (handle_kind su retries e) d ks =
    fold (\<lambda>f. f) (concat (map (\<lambda>k. map (\<lambda>rule d. apply_rule su retries e k d rule)
      (rules_for db (sc_ID (ev_Site e)) k)) ks)) d"
  using assms(2)
proof (induction ks arbitrary: d)
  case (Cons k ks)
  have step: "handle_kind su retries e d k = foldl (apply_rule su retries e k) d (rules_for db (sc_ID (ev_Site e)) k)"
    using assms(1) by (simp add: handle_kind_def rules_for_config [OF Cons.prems])
  have "fold (\<lambda>f. f) (map (\<lambda>rule d. apply_rule su retries e k d rule) rules) d = foldl (apply_rule su retries e k) d rules" for rules
    by (induction rules arbitrary: d) simp_all
  with Cons.IH [of "handle_kind su retries e d k"] Cons.prems show ?case by (simp add: step rules_config)
qed simp

lemma handle_calls:
  "\<forall>k. \<not> su_Fault su (Load_rules k) \<Longrightarrow> handle su retries d e = fold (\<lambda>f. f) (rule_calls su retries e (dp_Registry d)) d"
  unfolding handle_def rule_calls_def by (rule handle_kinds_calls) (simp_all add: same_config_def)

text \<open>Two channels, each with a rule for outages and one for recoveries.\<close>

definition two_channels :: registry where
  "two_channels = empty_registry\<lparr>
     rg_Channels := [example_channel, example_channel\<lparr>ch_ID := 2, ch_Target := ''desk@shop.test''\<rparr>],
     rg_Rules := [example_rule 1 AlertSiteDown 1, (example_rule 2 AlertSiteDown 1)\<lparr>ru_ChannelID := 2\<rparr>,
       example_rule 3 AlertSiteRecovered 2, (example_rule 4 AlertSiteRecovered 2)\<lparr>ru_ChannelID := 2\<rparr>]\<rparr>"

definition shop_down :: event where
  "shop_down = \<lparr>ev_Site = example_site, ev_Transition = went_down, ev_At = 60\<rparr>"

definition shop_up :: event where
  "shop_up = \<lparr>ev_Site = example_site,
     ev_Transition = empty_transition\<lparr>tr_IncidentResolved := True, tr_IncidentID := 1, tr_Up := True\<rparr>, ev_At = 120\<rparr>"

lemma example_calls:
  "rule_calls su 2 shop_down two_channels =
     map (\<lambda>rule d. apply_rule su 2 shop_down AlertSiteDown d rule) (take 2 (rg_Rules two_channels))"
  "rule_calls su 2 shop_up two_channels =
     map (\<lambda>rule d. apply_rule su 2 shop_up AlertSiteRecovered d rule) (drop 2 (rg_Rules two_channels))"
proof -
  have "kinds_for shop_down = [AlertSiteDown]" "kinds_for shop_up = [AlertSiteRecovered]" by code_simp+
  moreover have "rules_for two_channels (sc_ID (ev_Site shop_down)) AlertSiteDown = take 2 (rg_Rules two_channels)"
    "rules_for two_channels (sc_ID (ev_Site shop_up)) AlertSiteRecovered = drop 2 (rg_Rules two_channels)" by code_simp+
  ultimately show "rule_calls su 2 shop_down two_channels =
     map (\<lambda>rule d. apply_rule su 2 shop_down AlertSiteDown d rule) (take 2 (rg_Rules two_channels))"
    "rule_calls su 2 shop_up two_channels =
     map (\<lambda>rule d. apply_rule su 2 shop_up AlertSiteRecovered d rule) (drop 2 (rg_Rules two_channels))"
    by (simp_all add: rule_calls_def)
qed

lemma overlapped: "[a, c, d, b] \<in> shuffles [a, b] [c, d]"
  by (simp add: Cons_in_shuffles_iff)


end
