(* ===== verification/Fetch.thy ===== *)
theory Fetch
  imports NetAddr Checker
begin

section \<open>The HTTP client of the checker (internal/checker/checker.go: NewRunner)\<close>

text \<open>
  \<open>NewRunner\<close> configures \<open>http.Client\<close> with a redirect limit and, on request, a dialler whose
  \<open>Control\<close> hook sees every address before the socket connects to it.  The client is modelled
  as far as that goes: it dials the addresses a host resolves to in turn, follows redirects, and
  asks \<open>CheckRedirect\<close> before each.  The names, the network and the servers are arguments.
  The transport keeps the \<open>Proxy\<close> of the default one, which comes from the environment.  A
  connection that is used again was dialled, and guarded, before.
\<close>

record runner =
  rn_Timeout :: int
  rn_BlockPrivate :: bool

definition new_runner :: "int \<Rightarrow> bool \<Rightarrow> runner" where
  "new_runner requestTimeout blockPrivate = \<lparr>rn_Timeout = requestTimeout, rn_BlockPrivate = blockPrivate\<rparr>"

datatype answer = Redirects url | Answers http_response | Broken string

record internet =
  in_Proxy :: "url \<Rightarrow> string option"
  in_Resolve :: "string \<Rightarrow> string list"
  in_Connects :: "string \<Rightarrow> bool"
  in_Answer :: "string \<Rightarrow> url \<Rightarrow> answer"

definition check_redirect :: "url list \<Rightarrow> string option" where
  "check_redirect via = (if length via \<ge> 10 then Some ''stopped after 10 redirects'' else None)"

text \<open>The addresses a connection was tried to, and the one it was made to.\<close>

fun dial :: "runner \<Rightarrow> (string \<Rightarrow> bool) \<Rightarrow> string list \<Rightarrow> string list \<times> string option" where
  "dial rn up [] = ([], None)"
| "dial rn up (a # as) =
     (if rn_BlockPrivate rn \<and> block_private_addr a \<noteq> None then dial rn up as
      else if up a then ([a], Some a)
      else let (tried, r) = dial rn up as in (a # tried, r))"

definition dial_host :: "internet \<Rightarrow> url \<Rightarrow> string" where
  "dial_host net u = (case in_Proxy net u of None \<Rightarrow> u_Host u | Some p \<Rightarrow> p)"

text \<open>\<open>client.Do\<close>: the requests it makes, the addresses it tries, and the outcome.\<close>

function client_do :: "runner \<Rightarrow> internet \<Rightarrow> url list \<Rightarrow> url \<Rightarrow> url list \<times> string list \<times> http_outcome" where
  "client_do rn net via u =
     (let (tried, conn) = dial rn (in_Connects net) (in_Resolve net (dial_host net u)) in
      case conn of
        None \<Rightarrow> ([u], tried, Request_failed ''dial'')
      | Some a \<Rightarrow>
          (case in_Answer net a u of
             Broken e \<Rightarrow> ([u], tried, Request_failed e)
           | Answers resp \<Rightarrow> ([u], tried, Responded resp)
           | Redirects u' \<Rightarrow>
               (case check_redirect (via @ [u]) of
                  Some e \<Rightarrow> ([u], tried, Request_failed e)
                | None \<Rightarrow>
                    let (us, tried', r) = client_do rn net (via @ [u]) u' in (u # us, tried @ tried', r))))"
  by pat_completeness auto
termination
  by (relation "measure (\<lambda>(rn, net, via, u). 10 - length via)") (auto simp: check_redirect_def split: if_splits)

declare client_do.simps [simp del]

text \<open>The network as a tick sees it.\<close>

definition runner_network :: "runner \<Rightarrow> internet \<Rightarrow> network \<Rightarrow> network" where
  "runner_network rn net nw = nw\<lparr>nw_Do := \<lambda>req. (snd (snd (client_do rn net [] (rq_URL req))), snd (nw_Do nw req))\<rparr>"

subsection \<open>What is dialled\<close>

lemma dial_guarded:
  "rn_BlockPrivate rn \<Longrightarrow> list_all (\<lambda>a. block_private_addr a = None) (fst (dial rn up as))"
  by (induction as) (simp_all add: Let_def split_beta)

lemma dial_from: "set (fst (dial rn up as)) \<subseteq> set as" "snd (dial rn up as) = Some a \<Longrightarrow> a \<in> set as \<and> up a"
  by (induction as) (auto simp: Let_def split_beta split: if_splits)

lemma dial_refused:
  "rn_BlockPrivate rn \<Longrightarrow> list_all (\<lambda>a. block_private_addr a \<noteq> None) as \<Longrightarrow> dial rn up as = ([], None)"
  by (induction as) simp_all

lemma check_redirect_None: "check_redirect via = None \<longleftrightarrow> length via < 10"
  by (auto simp: check_redirect_def)

text \<open>The requests that are made, and what is true of every address that is tried.\<close>

lemma client_do_requests:
  "length via < 10 \<Longrightarrow> length via + length (fst (client_do rn net via u)) \<le> 10"
proof (induction rn net via u rule: client_do.induct)
  case (1 rn net via u)
  obtain tried conn where d: "dial rn (in_Connects net) (in_Resolve net (dial_host net u)) = (tried, conn)" by fastforce
  show ?case
    by (subst client_do.simps)
      (use 1 in \<open>auto simp: d Let_def split_beta check_redirect_None split: option.split answer.split\<close>)
qed

lemma client_do_guarded:
  "rn_BlockPrivate rn \<Longrightarrow> list_all (\<lambda>a. block_private_addr a = None) (fst (snd (client_do rn net via u)))"
proof (induction rn net via u rule: client_do.induct)
  case (1 rn net via u)
  obtain tried conn where d: "dial rn (in_Connects net) (in_Resolve net (dial_host net u)) = (tried, conn)" by fastforce
  have t: "list_all (\<lambda>a. block_private_addr a = None) tried"
    using dial_guarded [OF 1(2), of "in_Connects net" "in_Resolve net (dial_host net u)"] by (simp add: d)
  show ?case
    by (subst client_do.simps)
      (use 1 t in \<open>auto simp: d Let_def split_beta split: option.split answer.split\<close>)
qed

text \<open>
  C20: with \<open>-block-private\<close> the checker never connects to a private address.  Whatever the names
  resolve to at the moment of the dial and wherever servers redirect, every address that is
  tried is an IP that is neither loopback, private, link-local nor unspecified; a host that
  resolves to such addresses only is not contacted at all and the tick fails; and with or
  without the guard a check makes at most ten requests.
\<close>

theorem private_targets_unreachable:
  assumes "a < 256" "b < 256" "c < 256" "d < 256"
  shows "(let (us, tried, r) = client_do (new_runner timeout True) net [] u in
      (if show_ipv4 a b c d @ '':'' @ show_nat port \<in> set tried then \<not> private_ipv4 a b c d else True) \<and>
      list_all (\<lambda>x. block_private_addr x = None) tried \<and>
      (if list_all (\<lambda>x. block_private_addr x \<noteq> None) (in_Resolve net (dial_host net u))
       then tried = [] \<and> r = Request_failed ''dial'' else True)) \<and>
    length (fst (client_do (new_runner timeout block) net [] u)) \<le> 10"
proof -
  let ?rn = "new_runner timeout True"
  have rn: "rn_BlockPrivate ?rn" by (simp add: new_runner_def)
  obtain us tried r where do: "client_do ?rn net [] u = (us, tried, r)" by (cases "client_do ?rn net [] u")
  have tried: "list_all (\<lambda>x. block_private_addr x = None) tried" using client_do_guarded [OF rn, of net "[]" u] do by simp
  moreover have "\<not> private_ipv4 a b c d" if "show_ipv4 a b c d @ '':'' @ show_nat port \<in> set tried"
    using tried that ipv4_dial_guard [OF assms, of port] by (auto simp: list_all_iff)
  moreover have "tried = [] \<and> r = Request_failed ''dial''"
    if "list_all (\<lambda>x. block_private_addr x \<noteq> None) (in_Resolve net (dial_host net u))"
    using do dial_refused [OF rn that, of "in_Connects net"] by (subst (asm) client_do.simps) simp
  moreover have "length (fst (client_do (new_runner timeout block) net [] u)) \<le> 10"
    using client_do_requests [of "[]" "new_runner timeout block" net u] by simp
  ultimately show ?thesis by (simp add: do)
qed

theorem private_targets_unreachable_witness:
  "snd (client_do (new_runner 0 True) \<lparr>in_Proxy = \<lambda>_. None, in_Resolve = \<lambda>_. [''169.254.169.254:80''],
     in_Connects = \<lambda>_. True, in_Answer = \<lambda>_ _. Broken []\<rparr> []
     \<lparr>u_Scheme = ''http'', u_Opaque = [], u_Host = ''metadata.test'', u_User = None, u_Path = ''/'', u_RawQuery = [], u_Fragment = []\<rparr>)
   = ([], Request_failed ''dial'')"
proof -
  let ?net = "\<lparr>in_Proxy = \<lambda>_. None, in_Resolve = \<lambda>_. [''169.254.169.254:80''],
     in_Connects = \<lambda>_. True, in_Answer = \<lambda>_ _. Broken []\<rparr>"
  have "block_private_addr ''169.254.169.254:80'' \<noteq> None" by code_simp
  with private_targets_unreachable [of 169 254 169 254 0 ?net] show ?thesis
    by (auto simp: Let_def split_beta intro: prod_eqI)
qed

text \<open>
  The guard sees the address that is dialled.  With a proxy in the environment that is the proxy's, and
  a private target is reached through it.
\<close>

lemma proxy_reaches_private_target:
  assumes "in_Proxy net u = Some proxy" "in_Resolve net proxy = [a]" "block_private_addr a = None"
    and "in_Connects net a" "in_Answer net a u = Answers resp"
  shows "client_do (new_runner timeout True) net [] u = ([u], [a], Responded resp)"
  using assms by (subst client_do.simps) (simp add: dial_host_def)

text \<open>A tick on a site whose host has only private addresses fails without a connection.\<close>

lemma private_site_down:
  assumes "list_all (\<lambda>x. block_private_addr x \<noteq> None) (in_Resolve net (dial_host net (rq_URL req)))"
    and "make_request site = Some req"
  shows "\<not> tk_Up (run_tick (runner_network (new_runner timeout True) net nw) site False)"
proof -
  have "rn_BlockPrivate (new_runner timeout True)" by (simp add: new_runner_def)
  from dial_refused [OF this assms(1)]
  have "fst (nw_Do (runner_network (new_runner timeout True) net nw) req) = Request_failed ''dial''"
    by (simp add: runner_network_def) (subst client_do.simps, simp)
  with assms(2) show ?thesis
    by (auto simp: run_tick_up tick_failures_def split: prod.split option.split http_outcome.split)
qed

end
