(* ===== verification/Rows.thy ===== *)
theory Rows
  imports Migrate RegistryDb SiteStore Request "HOL-Library.Monad_Syntax"
begin

section \<open>Rows of the tables (internal/storage: the arguments of every INSERT, and the scans)\<close>

text \<open>
  The other theories keep the tables as lists of records.  Here are the rows that the statements of
  \<open>internal/storage\<close> write into the columns of the schema, and the functions that scan them
  back, so that the lists can be trusted: what is written fits the schema that the migrations
  leave, and what is scanned is the record that was written.  A row is a list of column names with
  cells; the text of \<open>encoding/json\<close> for a value is an argument.
\<close>

type_synonym row = "(string \<times> cell) list"

subsection \<open>Values\<close>

definition bool_to_int :: "bool \<Rightarrow> int" where
  "bool_to_int b = (if b then 1 else 0)"

definition nullable_string :: "string option \<Rightarrow> cell" where
  "nullable_string s = (case s of None \<Rightarrow> V_null | Some v \<Rightarrow> V_text v)"

definition nullable_int :: "int option \<Rightarrow> cell" where
  "nullable_int i = (case i of None \<Rightarrow> V_null | Some v \<Rightarrow> V_int v)"

text \<open>\<open>json.Marshal\<close> of \<open>ChecksConfig\<close>; a nil slice and an empty one are the same list here.\<close>

definition enc_int :: "int \<Rightarrow> json" where "enc_int i = J_num (show_int i)"

definition marshal_checks :: "checks_config \<Rightarrow> json" where
  "marshal_checks c =
     (let h = ck_HTTP c; l = ck_Latency c; t = ck_Content c; s = ck_SSL c in
      J_obj
        [(''http'', J_obj [(''enabled'', J_bool (hc_Enabled h)), (''expect_status'', J_arr (map enc_int (hc_ExpectStatus h)))]),
         (''latency'', J_obj [(''enabled'', J_bool (lc_Enabled l)), (''max_ms'', enc_int (lc_MaxMs l))]),
         (''content'', J_obj [(''enabled'', J_bool (cc_Enabled t)), (''must_contain'', J_arr (map J_str (cc_MustContain t))),
            (''must_not_contain'', J_arr (map J_str (cc_MustNotContain t)))]),
         (''ssl'', J_obj [(''enabled'', J_bool (sl_Enabled s)), (''warn_days'', enc_int (sl_WarnDays s))]),
         (''dns'', J_obj [(''enabled'', J_bool (ck_DNS c))])])"

subsection \<open>What the statements write\<close>

definition site_cells :: "(json \<Rightarrow> string) \<Rightarrow> site_config \<Rightarrow> row" where
  "site_cells marshal s =
     [(''id'', V_text (sc_ID s)), (''name'', V_text (sc_Name s)), (''url'', V_text (sc_URL s)),
      (''interval_seconds'', V_int (sc_IntervalSeconds s)), (''slow_interval_seconds'', V_int (sc_SlowIntervalSeconds s)),
      (''enabled'', V_int (bool_to_int (sc_Enabled s))), (''checks_json'', V_text (marshal (marshal_checks (sc_Checks s)))),
      (''created_at'', V_int (sc_CreatedAt s)), (''updated_at'', V_int (sc_UpdatedAt s)),
      (''api_key_hash'', nullable_string (null_string (sc_APIKeyHash s)))]"

definition site_update_cells :: "(json \<Rightarrow> string) \<Rightarrow> site_config \<Rightarrow> row" where
  "site_update_cells marshal s =
     [(''name'', V_text (sc_Name s)), (''url'', V_text (sc_URL s)),
      (''interval_seconds'', V_int (sc_IntervalSeconds s)), (''slow_interval_seconds'', V_int (sc_SlowIntervalSeconds s)),
      (''enabled'', V_int (bool_to_int (sc_Enabled s))), (''checks_json'', V_text (marshal (marshal_checks (sc_Checks s)))),
      (''updated_at'', V_int (sc_UpdatedAt s)), (''api_key_hash'', nullable_string (null_string (sc_APIKeyHash s)))]"

definition user_cells :: "unix \<Rightarrow> string \<Rightarrow> string \<Rightarrow> row" where
  "user_cells now username hash =
     [(''username'', V_text (normalise_username username)), (''password_hash'', V_text hash),
      (''created_at'', V_int now), (''updated_at'', V_int now)]"

definition session_cells :: "unix \<Rightarrow> string \<Rightarrow> int \<Rightarrow> unix \<Rightarrow> row" where
  "session_cells now sid userID expiresAt =
     [(''id'', V_text sid), (''user_id'', V_int userID), (''created_at'', V_int now),
      (''expires_at'', V_int expiresAt), (''last_seen_at'', V_int now)]"

definition channel_cells :: "unix \<Rightarrow> alert_channel \<Rightarrow> row" where
  "channel_cells now c =
     [(''name'', V_text (ch_Name c)), (''type'', V_text (ch_Type c)), (''target'', V_text (ch_Target c)),
      (''enabled'', V_int (bool_to_int (ch_Enabled c))), (''created_at'', V_int now), (''updated_at'', V_int now)]"

definition rule_cells :: "unix \<Rightarrow> alert_rule \<Rightarrow> row" where
  "rule_cells now a =
     [(''site_id'', nullable_string (ru_SiteID a)), (''channel_id'', V_int (ru_ChannelID a)), (''kind'', V_text (ru_Kind a)),
      (''enabled'', V_int (bool_to_int (ru_Enabled a))), (''confirm_after'', V_int (ru_ConfirmAfter a)),
      (''created_at'', V_int now), (''updated_at'', V_int now)]"

definition claim_cells :: "unix \<Rightarrow> alert_delivery \<Rightarrow> row" where
  "claim_cells now d =
     [(''dedupe_key'', V_text (de_DedupeKey d)), (''site_id'', V_text (de_SiteID d)), (''kind'', V_text (de_Kind d)),
      (''channel_id'', V_int (de_ChannelID d)), (''incident_id'', nullable_int (de_IncidentID d)),
      (''subject'', V_text (de_Subject d)), (''status'', V_text DeliveryPending), (''attempts'', V_int 0),
      (''created_at'', V_int now)]"

definition result_cells :: "tick \<Rightarrow> row" where
  "result_cells t =
     [(''ts'', V_int (tk_TS t)), (''up'', V_int (bool_to_int (tk_Up t))), (''status_code'', V_int (tk_StatusCode t)),
      (''response_ms'', V_int (tk_ResponseMs t)),
      (''failed_checks'', nullable_string (null_string (join '','' (tk_FailedChecks t)))),
      (''error'', nullable_string (null_string (tk_Error t)))]"

definition incident_cells :: "tick \<Rightarrow> row" where
  "incident_cells t = [(''started_at'', V_int (tk_TS t)), (''cause'', nullable_string (null_string (tk_Error t)))]"

definition error_cells :: "tick \<Rightarrow> check_error \<Rightarrow> row" where
  "error_cells t e = [(''ts'', V_int (tk_TS t)), (''check_type'', V_text (ce_CheckType e)), (''message'', V_text (ce_Message e))]"

definition state_cells :: "unix \<Rightarrow> row" where
  "state_cells now = [(''id'', V_int 1), (''monitoring_started_at'', V_int now)]"

subsection \<open>Storing and scanning\<close>

text \<open>A column that the statement leaves out gets the row id, when it is the integer key, or its default.\<close>

definition stored_cell :: "int \<Rightarrow> row \<Rightarrow> column \<Rightarrow> cell" where
  "stored_cell rowid r c =
     (case map_of r (cl_Name c) of
        Some v \<Rightarrow> v
      | None \<Rightarrow> if cl_Key c = Primary_key \<and> cl_Type c = ''INTEGER'' then V_int rowid else cl_Default c)"

definition store_row :: "column list \<Rightarrow> int \<Rightarrow> row \<Rightarrow> cell list" where
  "store_row cs rowid r = map (stored_cell rowid r) cs"

definition update_row :: "column list \<Rightarrow> row \<Rightarrow> cell list \<Rightarrow> cell list" where
  "update_row cs r old = map2 (\<lambda>c v. case map_of r (cl_Name c) of Some v' \<Rightarrow> v' | None \<Rightarrow> v) cs old"

definition select :: "column list \<Rightarrow> cell list \<Rightarrow> string \<Rightarrow> cell" where
  "select cs r n = (case map_of (zip (map cl_Name cs) r) n of None \<Rightarrow> V_null | Some v \<Rightarrow> v)"

text \<open>\<open>Scan\<close> into a string, an integer or a bool, and into the nullable types.\<close>

fun scan_text :: "cell \<Rightarrow> string option" where
  "scan_text V_null = None" | "scan_text (V_text s) = Some s" | "scan_text (V_int i) = Some (show_int i)"

fun scan_int :: "cell \<Rightarrow> int option" where
  "scan_int V_null = None" | "scan_int (V_text s) = parse_int s" | "scan_int (V_int i) = Some i"

fun scan_bool :: "cell \<Rightarrow> bool option" where
  "scan_bool (V_int i) = (if i = 1 then Some True else if i = 0 then Some False else None)" | "scan_bool _ = None"

definition scan_null :: "(cell \<Rightarrow> 'a option) \<Rightarrow> cell \<Rightarrow> 'a option option" where
  "scan_null scan v = (if v = V_null then Some None else map_option Some (scan v))"

definition coalesce :: "cell \<Rightarrow> cell" where
  "coalesce v = (if v = V_null then V_text [] else v)"

definition scan_site :: "(string \<Rightarrow> json option) \<Rightarrow> (string \<Rightarrow> cell) \<Rightarrow> site_config option" where
  "scan_site unmarshal f = do {
     i \<leftarrow> scan_text (f ''id''); n \<leftarrow> scan_text (f ''name''); u \<leftarrow> scan_text (f ''url'');
     iv \<leftarrow> scan_int (f ''interval_seconds''); sl \<leftarrow> scan_int (f ''slow_interval_seconds'');
     enabled \<leftarrow> scan_int (f ''enabled''); checksJSON \<leftarrow> scan_text (f ''checks_json'');
     ca \<leftarrow> scan_int (f ''created_at''); ua \<leftarrow> scan_int (f ''updated_at'');
     hash \<leftarrow> scan_text (coalesce (f ''api_key_hash''));
     j \<leftarrow> unmarshal checksJSON; checks \<leftarrow> dec_obj checks_field j no_checks;
     Some \<lparr>sc_ID = i, sc_Name = n, sc_URL = u, sc_IntervalSeconds = iv, sc_SlowIntervalSeconds = sl,
       sc_Enabled = (enabled \<noteq> 0), sc_Checks = checks, sc_CreatedAt = ca, sc_UpdatedAt = ua, sc_APIKeyHash = hash\<rparr> }"

definition scan_user :: "(string \<Rightarrow> cell) \<Rightarrow> admin_user option" where
  "scan_user f = do {
     i \<leftarrow> scan_int (f ''id''); u \<leftarrow> scan_text (f ''username''); h \<leftarrow> scan_text (f ''password_hash'');
     ca \<leftarrow> scan_int (f ''created_at''); ua \<leftarrow> scan_int (f ''updated_at'');
     Some \<lparr>au_ID = i, au_Username = u, au_PasswordHash = h, au_CreatedAt = ca, au_UpdatedAt = ua\<rparr> }"

definition scan_session :: "(string \<Rightarrow> cell) \<Rightarrow> session option" where
  "scan_session f = do {
     i \<leftarrow> scan_text (f ''id''); u \<leftarrow> scan_int (f ''user_id''); ca \<leftarrow> scan_int (f ''created_at'');
     ea \<leftarrow> scan_int (f ''expires_at''); la \<leftarrow> scan_int (f ''last_seen_at'');
     Some \<lparr>se_ID = i, se_UserID = u, se_CreatedAt = ca, se_ExpiresAt = ea, se_LastSeenAt = la\<rparr> }"

definition scan_channel :: "(string \<Rightarrow> cell) \<Rightarrow> alert_channel option" where
  "scan_channel f = do {
     i \<leftarrow> scan_int (f ''id''); n \<leftarrow> scan_text (f ''name''); ty \<leftarrow> scan_text (f ''type''); ta \<leftarrow> scan_text (f ''target'');
     en \<leftarrow> scan_bool (f ''enabled''); ca \<leftarrow> scan_int (f ''created_at''); ua \<leftarrow> scan_int (f ''updated_at'');
     Some \<lparr>ch_ID = i, ch_Name = n, ch_Type = ty, ch_Target = ta, ch_Enabled = en, ch_CreatedAt = ca, ch_UpdatedAt = ua\<rparr> }"

definition scan_alert_rule :: "(string \<Rightarrow> cell) \<Rightarrow> alert_rule option" where
  "scan_alert_rule f = do {
     i \<leftarrow> scan_int (f ''id''); si \<leftarrow> scan_null scan_text (f ''site_id''); ch \<leftarrow> scan_int (f ''channel_id'');
     k \<leftarrow> scan_text (f ''kind''); en \<leftarrow> scan_bool (f ''enabled''); co \<leftarrow> scan_int (f ''confirm_after'');
     ca \<leftarrow> scan_int (f ''created_at''); ua \<leftarrow> scan_int (f ''updated_at'');
     Some \<lparr>ru_ID = i, ru_SiteID = si, ru_ChannelID = ch, ru_Kind = k, ru_Enabled = en, ru_ConfirmAfter = co,
       ru_CreatedAt = ca, ru_UpdatedAt = ua\<rparr> }"

definition scan_delivery :: "(string \<Rightarrow> cell) \<Rightarrow> alert_delivery option" where
  "scan_delivery f = do {
     i \<leftarrow> scan_int (f ''id''); dk \<leftarrow> scan_text (f ''dedupe_key''); si \<leftarrow> scan_text (f ''site_id''); k \<leftarrow> scan_text (f ''kind'');
     ch \<leftarrow> scan_int (f ''channel_id''); inc \<leftarrow> scan_null scan_int (f ''incident_id''); sj \<leftarrow> scan_text (f ''subject'');
     st \<leftarrow> scan_text (f ''status''); atts \<leftarrow> scan_int (f ''attempts''); er \<leftarrow> scan_null scan_text (f ''error'');
     ca \<leftarrow> scan_int (f ''created_at''); sa \<leftarrow> scan_null scan_int (f ''sent_at'');
     Some \<lparr>de_ID = i, de_DedupeKey = dk, de_SiteID = si, de_Kind = k, de_ChannelID = ch, de_IncidentID = inc,
       de_Subject = sj, de_Status = st, de_Attempts = atts, de_Error = er, de_CreatedAt = ca, de_SentAt = sa\<rparr> }"

subsection \<open>The schema\<close>

definition registry_schema :: sql_db where
  "registry_schema = snd (apply_migrations no_fault registry_migrations fresh_db)"

definition site_schema :: sql_db where
  "site_schema = snd (apply_migrations no_fault site_migrations fresh_db)"

definition table_columns :: "sql_db \<Rightarrow> string \<Rightarrow> column list" where
  "table_columns db n = (case db_Tables db n of None \<Rightarrow> [] | Some t \<Rightarrow> tb_Columns t)"

lemma registry_columns:
  "table_columns registry_schema ''sites'' =
     [keyed Primary_key (text_col ''id''), text_req ''name'', text_req ''url'', int_req ''interval_seconds'',
      int_req ''slow_interval_seconds'', int_req ''enabled'', text_req ''checks_json'',
      int_req ''created_at'', int_req ''updated_at'', text_col ''api_key_hash'']"
  "table_columns registry_schema ''admin_users'' =
     [rowid_col, keyed Unique_key (text_req ''username''), text_req ''password_hash'',
      int_req ''created_at'', int_req ''updated_at'']"
  "table_columns registry_schema ''sessions'' =
     [keyed Primary_key (text_col ''id''), int_req ''user_id'', int_req ''created_at'',
      int_req ''expires_at'', int_req ''last_seen_at'']"
  "table_columns registry_schema ''alert_channels'' =
     [rowid_col, text_req ''name'', text_req ''type'', text_req ''target'',
      default_to 1 (int_req ''enabled''), int_req ''created_at'', int_req ''updated_at'']"
  "table_columns registry_schema ''alert_rules'' =
     [rowid_col, text_col ''site_id'', int_req ''channel_id'', text_req ''kind'',
      default_to 1 (int_req ''enabled''), default_to 2 (int_req ''confirm_after''),
      int_req ''created_at'', int_req ''updated_at'']"
  "table_columns registry_schema ''alert_deliveries'' =
     [rowid_col, keyed Unique_key (text_req ''dedupe_key''), text_req ''site_id'', text_req ''kind'',
      int_req ''channel_id'', int_col ''incident_id'', text_req ''subject'', text_req ''status'',
      default_to 0 (int_req ''attempts''), text_col ''error'', int_req ''created_at'', int_col ''sent_at'']"
  by code_simp+

lemma site_columns:
  "table_columns site_schema ''check_results'' =
     [rowid_col, int_req ''ts'', int_req ''up'', int_col ''status_code'', int_col ''response_ms'',
      text_col ''failed_checks'', text_col ''error'']"
  "table_columns site_schema ''incidents'' =
     [rowid_col, int_req ''started_at'', int_col ''resolved_at'', text_col ''cause'']"
  "table_columns site_schema ''errors'' = [rowid_col, int_req ''ts'', text_col ''check_type'', text_col ''message'']"
  "table_columns site_schema ''site_state'' =
     [keyed Single_row (int_col ''id''), int_col ''monitoring_started_at'', int_col ''last_check_ts'',
      int_col ''current_up'', int_col ''current_incident_id'', int_col ''ssl_expires_at'',
      int_col ''ssl_last_checked'', default_to 0 (int_req ''consecutive_failures'')]"
  by code_simp+

subsection \<open>What is written fits the schema\<close>

fun cell_fits :: "column \<Rightarrow> cell \<Rightarrow> bool" where
  "cell_fits c V_null \<longleftrightarrow> \<not> cl_NotNull c \<and> cl_Key c = Plain"
| "cell_fits c (V_int _) \<longleftrightarrow> cl_Type c = ''INTEGER''"
| "cell_fits c (V_text _) \<longleftrightarrow> cl_Type c = ''TEXT''"

text \<open>A statement names every column at most once and only columns of the table, and every cell of the stored row fits.\<close>

definition row_fits :: "column list \<Rightarrow> int \<Rightarrow> row \<Rightarrow> bool" where
  "row_fits cs rowid r \<longleftrightarrow> distinct (map fst r) \<and> set (map fst r) \<subseteq> set (map cl_Name cs) \<and>
     list_all2 cell_fits cs (store_row cs rowid r)"

lemmas cells_defs = site_cells_def site_update_cells_def user_cells_def session_cells_def channel_cells_def rule_cells_def
  claim_cells_def result_cells_def incident_cells_def error_cells_def state_cells_def

lemma cell_fits_nullable [simp]:
  "cl_Type c = ''TEXT'' \<Longrightarrow> \<not> cl_NotNull c \<Longrightarrow> cl_Key c = Plain \<Longrightarrow> cell_fits c (nullable_string v)"
  "cl_Type c = ''INTEGER'' \<Longrightarrow> \<not> cl_NotNull c \<Longrightarrow> cl_Key c = Plain \<Longrightarrow> cell_fits c (nullable_int i)"
  by (simp_all add: nullable_string_def nullable_int_def split: option.split)

text \<open>
  C29: every INSERT of the program fits the schema that the migrations leave: each column it names
  exists, once, every value has the type of its column, and no column that must not be null is
  left without a value or a default, in all six tables of the registry and all four of a
  site's database, for any values.
\<close>

theorem stored_rows_fit_schema:
  "row_fits (table_columns registry_schema ''sites'') i (site_cells marshal s) \<and>
   row_fits (table_columns registry_schema ''admin_users'') i (user_cells now u h) \<and>
   row_fits (table_columns registry_schema ''sessions'') i (session_cells now sid userID expiresAt) \<and>
   row_fits (table_columns registry_schema ''alert_channels'') i (channel_cells now c) \<and>
   row_fits (table_columns registry_schema ''alert_rules'') i (rule_cells now a) \<and>
   row_fits (table_columns registry_schema ''alert_deliveries'') i (claim_cells now d) \<and>
   row_fits (table_columns site_schema ''check_results'') i (result_cells t) \<and>
   row_fits (table_columns site_schema ''incidents'') i (incident_cells t) \<and>
   row_fits (table_columns site_schema ''errors'') i (error_cells t e) \<and>
   row_fits (table_columns site_schema ''site_state'') i (state_cells now)"
  unfolding registry_columns site_columns
  by (intro conjI)
    (simp_all add: row_fits_def store_row_def stored_cell_def cells_defs column_defs)

subsection \<open>What is scanned is what was written\<close>

definition int64_range :: "int \<Rightarrow> bool" where
  "int64_range i \<longleftrightarrow> - (2 ^ 63) \<le> i \<and> i < 2 ^ 63"

text \<open>The integers of a decoded configuration, all of Go's \<open>int\<close>.\<close>

definition checks_in_range :: "checks_config \<Rightarrow> bool" where
  "checks_in_range c \<longleftrightarrow> list_all int64_range (hc_ExpectStatus (ck_HTTP c)) \<and> int64_range (lc_MaxMs (ck_Latency c)) \<and>
     int64_range (sl_WarnDays (ck_SSL c))"

lemma digits_value_show: "digits_value (show_nat n) = Some (int n)"
  using show_nat_digits by (auto simp: digits_value_def dec_value_show list_all_iff)

lemma show_nat_sign: "\<not> has_prefix ''-'' (show_nat n)" "\<not> has_prefix ''+'' (show_nat n)"
proof -
  have "hd (show_nat n) \<in> set (show_nat n)" by simp
  then have "is_digit (hd (show_nat n))" by (rule show_nat_digits)
  moreover have "\<not> is_digit CHR ''-''" "\<not> is_digit CHR ''+''" by (simp_all add: byte_defs)
  ultimately show "\<not> has_prefix ''-'' (show_nat n)" "\<not> has_prefix ''+'' (show_nat n)"
    by (cases "show_nat n"; auto simp: has_prefix_def)+
qed

lemma parse_int_show: "int64_range i \<Longrightarrow> parse_int (show_int i) = Some i"
proof (cases "i < 0")
  case True
  moreover assume "int64_range i"
  moreover have "has_prefix ''-'' (''-'' @ show_nat n)" for n by (simp add: has_prefix_def)
  ultimately show ?thesis
    by (simp add: parse_int_def show_int_def digits_value_show Let_def int64_range_def has_prefix_def)
next
  case False
  moreover assume "int64_range i"
  ultimately show ?thesis
    by (simp add: parse_int_def show_int_def digits_value_show show_nat_sign Let_def int64_range_def)
qed

lemma dec_enc_int: "int64_range i \<Longrightarrow> dec_int (enc_int i) old = Some i"
  by (simp add: enc_int_def parse_int_show)

lemma dec_enc_ints: "list_all int64_range xs \<Longrightarrow> sequence_opt (map (\<lambda>j. dec_int j 0) (map enc_int xs)) = Some xs"
  by (induction xs) (simp_all add: dec_enc_int)

lemma dec_enc_strings: "sequence_opt (map (\<lambda>j. dec_str j []) (map J_str xs)) = Some xs"
  by (induction xs) simp_all

lemma sequence_opt_Some [simp]: "sequence_opt (map Some xs) = Some xs"
  by (induction xs) simp_all

lemma checks_keys:
  "to_lower ''http'' = ''http''" "to_lower ''latency'' = ''latency''" "to_lower ''content'' = ''content''"
  "to_lower ''ssl'' = ''ssl''" "to_lower ''dns'' = ''dns''" "to_lower ''enabled'' = ''enabled''"
  "to_lower ''expect_status'' = ''expect_status''" "to_lower ''max_ms'' = ''max_ms''"
  "to_lower ''must_contain'' = ''must_contain''" "to_lower ''must_not_contain'' = ''must_not_contain''"
  "to_lower ''warn_days'' = ''warn_days''"
  by code_simp+

lemma unmarshal_checks: "checks_in_range c \<Longrightarrow> dec_obj checks_field (marshal_checks c) no_checks = Some c"
  by (simp add: marshal_checks_def Let_def checks_in_range_def checks_keys checks_field_def http_field_def latency_field_def
      content_field_def ssl_field_def dns_field_def dec_enc_int dec_enc_ints [unfolded map_map comp_def]
      dec_enc_strings [unfolded map_map comp_def] comp_def no_checks_def)

lemma scan_nullable [simp]:
  "scan_null scan_text (nullable_string v) = Some v" "scan_null scan_int (nullable_int i) = Some i"
  "scan_text (coalesce (nullable_string (null_string t))) = Some t"
  "scan_null scan V_null = Some None" "scan_bool (V_int (bool_to_int b)) = Some b" "(bool_to_int b \<noteq> 0) = b"
  by (auto simp: nullable_string_def nullable_int_def scan_null_def coalesce_def null_string_def bool_to_int_def
      split: option.split)

lemmas row_defs = store_row_def stored_cell_def update_row_def select_def cells_defs column_defs

definition appended :: "'a list \<Rightarrow> 'a list \<Rightarrow> 'a option \<Rightarrow> bool" where
  "appended xs xs' v \<longleftrightarrow> map Some xs' = map Some xs @ [v]"

lemma scan_site_row:
  assumes "checks_in_range (sc_Checks s)" "unmarshal (marshal (marshal_checks (sc_Checks s))) = Some (marshal_checks (sc_Checks s))"
  shows "scan_site unmarshal (select (table_columns registry_schema ''sites'')
      (store_row (table_columns registry_schema ''sites'') i (site_cells marshal s))) = Some s"
    "scan_site unmarshal (select (table_columns registry_schema ''sites'')
      (update_row (table_columns registry_schema ''sites'') (site_update_cells marshal s)
        (store_row (table_columns registry_schema ''sites'') i (site_cells marshal old)))) = Some (set_site_columns s old)"
  using assms by (simp_all add: registry_columns row_defs scan_site_def unmarshal_checks set_site_columns_def)

lemma scan_account_rows:
  "scan_user (select (table_columns registry_schema ''admin_users'')
     (store_row (table_columns registry_schema ''admin_users'') i (user_cells now u h))) =
   Some \<lparr>au_ID = i, au_Username = normalise_username u, au_PasswordHash = h, au_CreatedAt = now, au_UpdatedAt = now\<rparr>"
  "scan_session (select (table_columns registry_schema ''sessions'')
     (store_row (table_columns registry_schema ''sessions'') i (session_cells now sid userID e))) =
   Some \<lparr>se_ID = sid, se_UserID = userID, se_CreatedAt = now, se_ExpiresAt = e, se_LastSeenAt = now\<rparr>"
  by (simp_all add: registry_columns row_defs scan_user_def scan_session_def)

lemma scan_alert_rows:
  "scan_channel (select (table_columns registry_schema ''alert_channels'')
     (store_row (table_columns registry_schema ''alert_channels'') i (channel_cells now c))) =
   Some (c\<lparr>ch_ID := i, ch_CreatedAt := now, ch_UpdatedAt := now\<rparr>)"
  "scan_alert_rule (select (table_columns registry_schema ''alert_rules'')
     (store_row (table_columns registry_schema ''alert_rules'') i (rule_cells now a))) =
   Some (a\<lparr>ru_ID := i, ru_CreatedAt := now, ru_UpdatedAt := now\<rparr>)"
  "scan_delivery (select (table_columns registry_schema ''alert_deliveries'')
     (store_row (table_columns registry_schema ''alert_deliveries'') i (claim_cells now d))) =
   Some (d\<lparr>de_ID := i, de_Status := DeliveryPending, de_Attempts := 0, de_Error := None, de_CreatedAt := now, de_SentAt := None\<rparr>)"
  by (cases c; cases a; cases d; simp add: registry_columns row_defs scan_channel_def scan_alert_rule_def scan_delivery_def
      del: scan_bool.simps)+

text \<open>
  C28: the tables hold what the lists of records say.  The row that a successful INSERT leaves, scanned
  as the program scans it, is the record that the operation adds, for sites, accounts,
  sessions, channels, rules and deliveries; and an updated site row scans as the old record
  with all columns but the id and the creation time replaced.
\<close>

theorem stored_rows_read_back:
  assumes "checks_in_range (sc_Checks s)"
    and "unmarshal (marshal (marshal_checks (sc_Checks s))) = Some (marshal_checks (sc_Checks s))"
  shows "let cs = table_columns registry_schema;
      stored = (\<lambda>n i r. select (cs n) (store_row (cs n) i r)) in
    (case registry_create s db of Inl _ \<Rightarrow> True
     | Inr db' \<Rightarrow> appended (rg_Sites db) (rg_Sites db') (scan_site unmarshal (stored ''sites'' 0 (site_cells marshal s)))) \<and>
    scan_site unmarshal (select (cs ''sites'') (update_row (cs ''sites'') (site_update_cells marshal s)
        (store_row (cs ''sites'') 0 (site_cells marshal old)))) = Some (set_site_columns s old) \<and>
    (case create_admin_user now u h db of Inl _ \<Rightarrow> True
     | Inr (i, db') \<Rightarrow> appended (rg_Users db) (rg_Users db') (scan_user (stored ''admin_users'' i (user_cells now u h)))) \<and>
    (case create_session now sid userID e db of Inl _ \<Rightarrow> True
     | Inr db' \<Rightarrow> appended (rg_Sessions db) (rg_Sessions db')
         (scan_session (stored ''sessions'' 0 (session_cells now sid userID e)))) \<and>
    (case create_alert_channel now c db of (c', db') \<Rightarrow>
       appended (rg_Channels db) (rg_Channels db') (scan_channel (stored ''alert_channels'' (ch_ID c') (channel_cells now c)))) \<and>
    (case create_alert_rule now a db of Inl _ \<Rightarrow> True
     | Inr (a', db') \<Rightarrow> appended (rg_Rules db) (rg_Rules db')
         (scan_alert_rule (stored ''alert_rules'' (ru_ID a') (rule_cells now a)))) \<and>
    (case claim_delivery now d db of Inl _ \<Rightarrow> True
     | Inr (i, db') \<Rightarrow> appended (rg_Deliveries db) (rg_Deliveries db')
         (scan_delivery (stored ''alert_deliveries'' i (claim_cells now d))))"
proof -
  note site = scan_site_row [where unmarshal = unmarshal and marshal = marshal, OF assms]
  show ?thesis
    unfolding Let_def
    by (intro conjI)
      (auto simp: site scan_account_rows scan_alert_rows appended_def registry_create_def site_insert_def tbl_insert_def
        create_admin_user_def create_session_def session_insert_def create_alert_channel_def create_alert_rule_def
        claim_delivery_def delivery_insert_def Let_def split: sum.split option.splits if_splits)
qed

theorem stored_rows_read_back_witness:
  "scan_site (\<lambda>_. Some (marshal_checks no_checks)) (select (table_columns registry_schema ''sites'')
     (store_row (table_columns registry_schema ''sites'') 0 (site_cells (\<lambda>_. ''{}'') example_site))) = Some example_site"
proof -
  have c: "sc_Checks example_site = no_checks" by (simp add: example_site_def)
  have "checks_in_range (sc_Checks example_site)" by (simp add: c checks_in_range_def no_checks_def int64_range_def)
  from stored_rows_read_back [OF this, of "\<lambda>_. Some (marshal_checks no_checks)" "\<lambda>_. ''{}''" empty_registry]
  show ?thesis
    by (simp add: c Let_def appended_def registry_create_def site_insert_def tbl_insert_def tbl_has_def empty_registry_def)
qed

end
