(* ===== verification/Sqlite.thy ===== *)
theory Sqlite
  imports Rows
begin

section \<open>Opening databases and recognising conflicts (internal/storage/sqlite.go, registry.go)\<close>

text \<open>
  \<open>openSQLite\<close>, \<open>OpenRegistry\<close> with the migrations, and \<open>isUniqueViolation\<close>, which tells a row
  that is already there from a failing database.  An INSERT runs on the rows of the table as
  the schema constrains it: a value that another row has in a key column is refused.  The error
  of the driver for such a column is an argument; that it carries the extended result code
  of the violated constraint is SQLite's documented behaviour.
\<close>

subsection \<open>Opening\<close>

datatype open_call = Open_db | Ping_db | Migrate_db migration_call

datatype open_error = Driver_failed | Not_reachable | Migrations_failed migration_error

definition open_sqlite :: "(open_call \<Rightarrow> bool) \<Rightarrow> open_error option" where
  "open_sqlite flt = (if flt Open_db then Some Driver_failed else if flt Ping_db then Some Not_reachable else None)"

text \<open>The file is returned also when opening fails; it is as far migrated as it came.\<close>

definition open_registry :: "(open_call \<Rightarrow> bool) \<Rightarrow> sql_db \<Rightarrow> open_error option \<times> sql_db" where
  "open_registry flt file =
     (case open_sqlite flt of
        Some e \<Rightarrow> (Some e, file)
      | None \<Rightarrow> (case apply_migrations (\<lambda>c. flt (Migrate_db c)) registry_migrations file of
            (Some e, file') \<Rightarrow> (Some (Migrations_failed e), file')
          | (None, file') \<Rightarrow> (None, file')))"

subsection \<open>Errors of the driver\<close>

text \<open>An error of SQLite with its extended code, or any other; both have a text.\<close>

datatype driver_error = Sqlite_error int string | Other_error string

fun error_text :: "driver_error \<Rightarrow> string" where
  "error_text (Sqlite_error code msg) = msg" | "error_text (Other_error msg) = msg"

definition sqliteConstraintPrimaryKey :: int where "sqliteConstraintPrimaryKey = 1555"
definition sqliteConstraintUnique :: int where "sqliteConstraintUnique = 2067"

definition is_unique_violation :: "driver_error option \<Rightarrow> bool" where
  "is_unique_violation err =
     (case err of
        None \<Rightarrow> False
      | Some e \<Rightarrow>
          (case e of Sqlite_error code _ \<Rightarrow> code = sqliteConstraintUnique \<or> code = sqliteConstraintPrimaryKey | _ \<Rightarrow> False) \<or>
          contains ''UNIQUE constraint failed'' (error_text e))"

subsection \<open>Inserting\<close>

definition key_conflicts :: "column list \<Rightarrow> cell list list \<Rightarrow> cell list \<Rightarrow> column list" where
  "key_conflicts cs rows new =
     filter (\<lambda>c. cl_Key c \<noteq> Plain \<and> select cs new (cl_Name c) \<in> (\<lambda>old. select cs old (cl_Name c)) ` set rows) cs"

definition row_id :: "column list \<Rightarrow> cell list \<Rightarrow> int" where
  "row_id cs r = (case select cs r ''id'' of V_int i \<Rightarrow> i | _ \<Rightarrow> 0)"

definition exec_insert :: "(column \<Rightarrow> driver_error) \<Rightarrow> column list \<Rightarrow> row \<Rightarrow> cell list list \<Rightarrow>
    driver_error + (int \<times> cell list list)" where
  "exec_insert report cs r rows =
     (let i = next_rowid (map (row_id cs) rows); new = store_row cs i r in
      case key_conflicts cs rows new of
        [] \<Rightarrow> Inr (i, rows @ [new])
      | c # _ \<Rightarrow> Inl (report c))"

text \<open>\<open>ClaimDelivery\<close> down to the row it inserts.\<close>

definition sql_claim :: "(column \<Rightarrow> driver_error) \<Rightarrow> unix \<Rightarrow> alert_delivery \<Rightarrow> cell list list \<Rightarrow>
    storage_error + (int \<times> cell list list)" where
  "sql_claim report now d rows =
     (case exec_insert report (table_columns registry_schema ''alert_deliveries'') (claim_cells now d) rows of
        Inl e \<Rightarrow> if is_unique_violation (Some e) then Inl ErrDeliveryClaimed else Inl Db_failure
      | Inr res \<Rightarrow> Inr res)"

text \<open>The rows of the ledger hold the deliveries of the registry, in the types of the schema.\<close>

definition ledger_rows :: "cell list list \<Rightarrow> registry \<Rightarrow> bool" where
  "ledger_rows rows db \<longleftrightarrow> (let cs = table_columns registry_schema ''alert_deliveries'' in
     list_all (list_all2 cell_fits cs) rows \<and> map (\<lambda>r. scan_delivery (select cs r)) rows = map Some (rg_Deliveries db))"

subsection \<open>The unique index is the ledger's key\<close>

lemma ledger_row:
  assumes "list_all2 cell_fits (table_columns registry_schema ''alert_deliveries'') r"
    and "scan_delivery (select (table_columns registry_schema ''alert_deliveries'') r) = Some d"
  shows "select (table_columns registry_schema ''alert_deliveries'') r ''dedupe_key'' = V_text (de_DedupeKey d)"
    "select (table_columns registry_schema ''alert_deliveries'') r ''id'' = V_int (de_ID d)"
proof -
  let ?f = "select (table_columns registry_schema ''alert_deliveries'') r"
  have scan: "scan_text (?f ''dedupe_key'') = Some (de_DedupeKey d)" "scan_int (?f ''id'') = Some (de_ID d)"
    using assms(2) by (auto simp: scan_delivery_def bind_eq_Some_conv)
  have "cell_fits rowid_col (?f ''id'')" "cell_fits (keyed Unique_key (text_req ''dedupe_key'')) (?f ''dedupe_key'')"
    using assms(1) by (auto simp: registry_columns list_all2_Cons1 select_def column_defs)
  with scan show "?f ''dedupe_key'' = V_text (de_DedupeKey d)" "?f ''id'' = V_int (de_ID d)"
    by (cases "?f ''dedupe_key''"; cases "?f ''id''"; simp add: column_defs)+
qed

lemma ledger_rows_keys:
  assumes "ledger_rows rows db"
  shows "map (\<lambda>r. select (table_columns registry_schema ''alert_deliveries'') r ''dedupe_key'') rows =
      map (\<lambda>d. V_text (de_DedupeKey d)) (rg_Deliveries db)"
    "map (row_id (table_columns registry_schema ''alert_deliveries'')) rows = map de_ID (rg_Deliveries db)"
proof -
  let ?cs = "table_columns registry_schema ''alert_deliveries''"
  have scans: "map (\<lambda>r. scan_delivery (select ?cs r)) rows = map Some (rg_Deliveries db)"
    using assms by (simp add: ledger_rows_def Let_def)
  have len: "length rows = length (rg_Deliveries db)" using arg_cong [OF scans, of length] by simp
  have "select ?cs (rows ! i) ''dedupe_key'' = V_text (de_DedupeKey (rg_Deliveries db ! i))"
    "select ?cs (rows ! i) ''id'' = V_int (de_ID (rg_Deliveries db ! i))" if "i < length rows" for i
  proof -
    have "list_all2 cell_fits ?cs (rows ! i)" using assms that by (simp add: ledger_rows_def list_all_length Let_def)
    moreover have "scan_delivery (select ?cs (rows ! i)) = Some (rg_Deliveries db ! i)"
      using arg_cong [OF scans, of "\<lambda>xs. xs ! i"] that len by simp
    ultimately show "select ?cs (rows ! i) ''dedupe_key'' = V_text (de_DedupeKey (rg_Deliveries db ! i))"
      "select ?cs (rows ! i) ''id'' = V_int (de_ID (rg_Deliveries db ! i))" by (rule ledger_row)+
  qed
  then show "map (\<lambda>r. select ?cs r ''dedupe_key'') rows = map (\<lambda>d. V_text (de_DedupeKey d)) (rg_Deliveries db)"
    "map (row_id ?cs) rows = map de_ID (rg_Deliveries db)"
    by (simp_all add: list_eq_iff_nth_eq len row_id_def)
qed

lemma claim_conflicts:
  assumes "ledger_rows rows db"
  shows "key_conflicts (table_columns registry_schema ''alert_deliveries'') rows
      (store_row (table_columns registry_schema ''alert_deliveries'')
         (next_rowid (map de_ID (rg_Deliveries db))) (claim_cells now d)) =
    (if tbl_has de_DedupeKey (de_DedupeKey d) (rg_Deliveries db)
     then [keyed Unique_key (text_req ''dedupe_key'')] else [])"
proof -
  let ?cs = "table_columns registry_schema ''alert_deliveries''"
  let ?i = "next_rowid (map de_ID (rg_Deliveries db))"
  let ?new = "store_row ?cs ?i (claim_cells now d)"
  have new: "select ?cs ?new ''id'' = V_int ?i" "select ?cs ?new ''dedupe_key'' = V_text (de_DedupeKey d)"
    by (simp_all add: registry_columns row_defs)
  have img: "(\<lambda>r. select ?cs r ''dedupe_key'') ` set rows = (\<lambda>d. V_text (de_DedupeKey d)) ` set (rg_Deliveries db)"
    using arg_cong [OF ledger_rows_keys(1) [OF assms], of set] by simp
  have key: "V_text (de_DedupeKey d) \<in> (\<lambda>r. select ?cs r ''dedupe_key'') ` set rows \<longleftrightarrow>
      tbl_has de_DedupeKey (de_DedupeKey d) (rg_Deliveries db)"
    unfolding img by (simp add: tbl_has_def list_ex_iff image_iff) metis
  have "V_int ?i \<notin> (\<lambda>r. select ?cs r ''id'') ` set rows"
  proof
    assume "V_int ?i \<in> (\<lambda>r. select ?cs r ''id'') ` set rows"
    then obtain r where "r \<in> set rows" "select ?cs r ''id'' = V_int ?i" by auto
    then have "?i \<in> set (map (row_id ?cs) rows)" by (force simp: row_id_def)
    then show False unfolding ledger_rows_keys(2) [OF assms] using next_rowid_fresh [of ?i "map de_ID (rg_Deliveries db)"] by blast
  qed
  with key new have "filter (\<lambda>c. cl_Key c \<noteq> Plain \<and> select ?cs ?new (cl_Name c) \<in> (\<lambda>old. select ?cs old (cl_Name c)) ` set rows)
      ?cs = (if tbl_has de_DedupeKey (de_DedupeKey d) (rg_Deliveries db) then [keyed Unique_key (text_req ''dedupe_key'')] else [])"
    unfolding registry_columns(6) by (simp add: column_defs)
  then show ?thesis by (simp only: key_conflicts_def)
qed

lemma claim_row_fits:
  "list_all2 cell_fits (table_columns registry_schema ''alert_deliveries'')
     (store_row (table_columns registry_schema ''alert_deliveries'') i (claim_cells now d))"
  unfolding registry_columns by (simp add: row_defs)

text \<open>
  C30: the dedupe ledger is the unique index of the table.  On rows that hold the registry's
  deliveries, with SQLite's code for a violated UNIQUE constraint, \<open>ClaimDelivery\<close> returns
  what the model's claim returns, a claimed key being told from a failing database, and the rows
  then hold the deliveries that the model then has.
\<close>

theorem claim_refined_by_index:
  assumes "ledger_rows rows db" "\<forall>c. cl_Key c = Unique_key \<longrightarrow> (\<exists>msg. report c = Sqlite_error 2067 msg)"
  shows "case sql_claim report now d rows of
      Inl e \<Rightarrow> claim_delivery now d db = Inl e \<and> e = ErrDeliveryClaimed
    | Inr (i, rows') \<Rightarrow> (\<exists>db'. claim_delivery now d db = Inr (i, db') \<and> ledger_rows rows' db')"
proof -
  let ?cs = "table_columns registry_schema ''alert_deliveries''" and ?c = "keyed Unique_key (text_req ''dedupe_key'')"
  let ?i = "next_rowid (map de_ID (rg_Deliveries db))"
  have ins: "exec_insert report ?cs (claim_cells now d) rows =
      (if tbl_has de_DedupeKey (de_DedupeKey d) (rg_Deliveries db) then Inl (report ?c)
       else Inr (?i, rows @ [store_row ?cs ?i (claim_cells now d)]))"
    by (simp add: exec_insert_def Let_def ledger_rows_keys(2) [OF assms(1)] claim_conflicts [OF assms(1)])
  show ?thesis
  proof (cases "tbl_has de_DedupeKey (de_DedupeKey d) (rg_Deliveries db)")
    case True
    have "cl_Key ?c = Unique_key" by (simp add: keyed_def)
    then obtain msg where "report ?c = Sqlite_error 2067 msg" using assms(2) by blast
    then have "is_unique_violation (Some (report ?c))" by (simp add: is_unique_violation_def sqliteConstraintUnique_def)
    with True show ?thesis
      by (simp add: sql_claim_def ins claim_delivery_def delivery_insert_def tbl_insert_def Let_def)
  next
    case False
    let ?d = "d\<lparr>de_ID := ?i, de_Status := DeliveryPending, de_Attempts := 0, de_Error := None, de_CreatedAt := now, de_SentAt := None\<rparr>"
    have "claim_delivery now d db = Inr (?i, db\<lparr>rg_Deliveries := rg_Deliveries db @ [?d]\<rparr>)"
      using False by (simp add: claim_delivery_def delivery_insert_def tbl_insert_def Let_def)
    moreover have "ledger_rows (rows @ [store_row ?cs ?i (claim_cells now d)]) (db\<lparr>rg_Deliveries := rg_Deliveries db @ [?d]\<rparr>)"
      using assms(1) claim_row_fits scan_alert_rows(3) by (simp add: ledger_rows_def Let_def)
    ultimately show ?thesis using False by (simp add: sql_claim_def ins)
  qed
qed

definition demo_delivery :: alert_delivery where
  "demo_delivery = \<lparr>de_ID = 0, de_DedupeKey = ''down:shop:1:1'', de_SiteID = ''shop'', de_Kind = AlertSiteDown, de_ChannelID = 1,
     de_IncidentID = Some 1, de_Subject = ''[DOWN] Shop'', de_Status = [], de_Attempts = 0, de_Error = None,
     de_CreatedAt = 0, de_SentAt = None\<rparr>"

theorem claim_refined_by_index_witness:
  "case sql_claim (\<lambda>_. Sqlite_error 2067 ''UNIQUE constraint failed'') 5 demo_delivery [] of
     Inl _ \<Rightarrow> False
   | Inr (i, rows) \<Rightarrow> (\<exists>db'. claim_delivery 5 demo_delivery empty_registry = Inr (i, db') \<and> ledger_rows rows db')"
proof -
  have "ledger_rows [] empty_registry" by (simp add: ledger_rows_def empty_registry_def)
  moreover have "\<not> isl (sql_claim (\<lambda>_. Sqlite_error 2067 ''UNIQUE constraint failed'') 5 demo_delivery [])" by code_simp
  ultimately show ?thesis
    using claim_refined_by_index [of "[]" empty_registry "\<lambda>_. Sqlite_error 2067 ''UNIQUE constraint failed''" 5 demo_delivery]
    by (auto split: sum.splits)
qed

text \<open>Any other failure of the database is not taken for a conflict.\<close>

lemma other_failures_not_conflicts:
  "code \<noteq> 1555 \<Longrightarrow> code \<noteq> 2067 \<Longrightarrow> \<not> contains ''UNIQUE constraint failed'' msg \<Longrightarrow>
   \<not> is_unique_violation (Some (Sqlite_error code msg)) \<and> \<not> is_unique_violation (Some (Other_error msg)) \<and> \<not> is_unique_violation None"
  by (simp add: is_unique_violation_def sqliteConstraintPrimaryKey_def sqliteConstraintUnique_def)

text \<open>Opening the registry again after any failures reaches the schema of a first undisturbed opening.\<close>

lemma open_registry_resumes:
  "open_registry flt file = (err, file') \<Longrightarrow>
   snd (open_registry (\<lambda>_. False) file') = snd (open_registry (\<lambda>_. False) file)"
  using apply_resume [OF histories_increasing(1), of "\<lambda>c. flt (Migrate_db c)"]
  by (auto simp: open_registry_def open_sqlite_def split_beta split: option.splits if_splits prod.splits)

end
