(* ===== verification/Contents.thy ===== *)
theory Contents
  imports Sqlite
begin

section \<open>What a site's file holds, and RecordTick on its tables (internal/storage/tick.go, site.go)\<close>

text \<open>
  \<open>SiteStore\<close> keeps the four tables of a site as lists of records.  Here is the same transaction
  on the tables themselves: each statement inserts or updates rows of cells, in the schema that
  the migrations leave, and \<open>load_site\<close> scans the tables into the records.  The
  properties say that the records are a faithful picture, from the opening of the file on, and that
  an upgrade of the schema changes nothing in it.
\<close>

subsection \<open>Statements on tables\<close>

definition sql_insert :: "(column \<Rightarrow> driver_error) \<Rightarrow> string \<Rightarrow> row \<Rightarrow> sql_db \<Rightarrow> (int \<times> sql_db) option" where
  "sql_insert report n r db =
     (case db_Tables db n of
        None \<Rightarrow> None
      | Some t \<Rightarrow>
          (case exec_insert report (tb_Columns t) r (tb_Rows t) of
             Inl _ \<Rightarrow> None
           | Inr (i, rows) \<Rightarrow> Some (i, db\<lparr>db_Tables := (db_Tables db)(n \<mapsto> t\<lparr>tb_Rows := rows\<rparr>)\<rparr>)))"

text \<open>\<open>UPDATE ... WHERE id = ?\<close>\<close>

definition sql_update :: "string \<Rightarrow> int \<Rightarrow> row \<Rightarrow> sql_db \<Rightarrow> sql_db option" where
  "sql_update n i r db =
     (case db_Tables db n of
        None \<Rightarrow> None
      | Some t \<Rightarrow> Some (db\<lparr>db_Tables := (db_Tables db)(n \<mapsto> t\<lparr>tb_Rows :=
          map (\<lambda>old. if row_id (tb_Columns t) old = i then update_row (tb_Columns t) r old else old) (tb_Rows t)\<rparr>)\<rparr>))"

definition rows_of :: "sql_db \<Rightarrow> string \<Rightarrow> (string \<Rightarrow> cell) list" where
  "rows_of db n = (case db_Tables db n of None \<Rightarrow> [] | Some t \<Rightarrow> map (select (tb_Columns t)) (tb_Rows t))"

subsection \<open>Scanning a site's tables\<close>

definition coalesce_int :: "cell \<Rightarrow> int option" where
  "coalesce_int v = (if v = V_null then Some 0 else scan_int v)"

definition scan_result :: "(string \<Rightarrow> cell) \<Rightarrow> result_row option" where
  "scan_result f = do {
     i \<leftarrow> scan_int (f ''id''); ts \<leftarrow> scan_int (f ''ts''); up \<leftarrow> scan_int (f ''up'');
     code \<leftarrow> coalesce_int (f ''status_code''); ms \<leftarrow> coalesce_int (f ''response_ms'');
     failed \<leftarrow> scan_null scan_text (f ''failed_checks''); er \<leftarrow> scan_null scan_text (f ''error'');
     Some \<lparr>rr_id = i, rr_ts = ts, rr_up = (up = 1), rr_status_code = code, rr_response_ms = ms,
       rr_failed_checks = failed, rr_error = er\<rparr> }"

definition scan_incident :: "(string \<Rightarrow> cell) \<Rightarrow> incident_row option" where
  "scan_incident f = do {
     i \<leftarrow> scan_int (f ''id''); st \<leftarrow> scan_int (f ''started_at''); re \<leftarrow> scan_null scan_int (f ''resolved_at'');
     cause \<leftarrow> scan_null scan_text (f ''cause'');
     Some \<lparr>in_id = i, in_started_at = st, in_resolved_at = re, in_cause = cause\<rparr> }"

definition scan_error :: "(string \<Rightarrow> cell) \<Rightarrow> error_row option" where
  "scan_error f = do {
     i \<leftarrow> scan_int (f ''id''); ts \<leftarrow> scan_int (f ''ts''); ty \<leftarrow> scan_text (coalesce (f ''check_type''));
     msg \<leftarrow> scan_text (coalesce (f ''message''));
     Some \<lparr>er_id = i, er_ts = ts, er_check_type = ty, er_message = msg\<rparr> }"

definition scan_state :: "(string \<Rightarrow> cell) \<Rightarrow> site_state option" where
  "scan_state f = do {
     started \<leftarrow> coalesce_int (f ''monitoring_started_at''); lastTS \<leftarrow> scan_null scan_int (f ''last_check_ts'');
     up \<leftarrow> scan_null scan_int (f ''current_up''); incID \<leftarrow> scan_null scan_int (f ''current_incident_id'');
     sslExp \<leftarrow> scan_null scan_int (f ''ssl_expires_at''); sslChk \<leftarrow> scan_null scan_int (f ''ssl_last_checked'');
     fails \<leftarrow> coalesce_int (f ''consecutive_failures'');
     Some \<lparr>ss_monitoring_started_at = started, ss_last_check_ts = lastTS, ss_current_up = map_option (\<lambda>u. u = 1) up,
       ss_current_incident_id = incID, ss_ssl_expires_at = sslExp, ss_ssl_last_checked = sslChk,
       ss_consecutive_failures = fails\<rparr> }"

text \<open>The file as the store reads it; the state is the row with id 1, and without it there is no store.\<close>

definition load_site :: "sql_db \<Rightarrow> site_db option" where
  "load_site db = do {
     results \<leftarrow> sequence_opt (map scan_result (rows_of db ''check_results''));
     incidents \<leftarrow> sequence_opt (map scan_incident (rows_of db ''incidents''));
     errs \<leftarrow> sequence_opt (map scan_error (rows_of db ''errors''));
     f \<leftarrow> List.find (\<lambda>f. f ''id'' = V_int 1) (rows_of db ''site_state'');
     st \<leftarrow> scan_state f;
     Some \<lparr>db_results = results, db_incidents = incidents, db_errors = errs, db_state = st\<rparr> }"

subsection \<open>Opening\<close>

text \<open>
  \<open>openSiteStore\<close>: the INSERT of the state row says \<open>ON CONFLICT(id) DO NOTHING\<close>.  The file is
  returned as far as it came.
\<close>

datatype site_open_call = Connect open_call | Insert_state

datatype site_open_error = Not_opened open_error | State_not_written

definition init_state :: "unix \<Rightarrow> sql_db \<Rightarrow> sql_db option" where
  "init_state now db =
     (case db_Tables db ''site_state'' of
        None \<Rightarrow> None
      | Some t \<Rightarrow>
          if 1 \<in> row_id (tb_Columns t) ` set (tb_Rows t) then Some db
          else Some (db\<lparr>db_Tables := (db_Tables db)(''site_state'' \<mapsto>
            t\<lparr>tb_Rows := tb_Rows t @ [store_row (tb_Columns t) 1 (state_cells now)]\<rparr>)\<rparr>))"

definition open_site_file :: "(site_open_call \<Rightarrow> bool) \<Rightarrow> unix \<Rightarrow> sql_db \<Rightarrow> site_open_error option \<times> sql_db" where
  "open_site_file flt now file =
     (case open_sqlite (\<lambda>c. flt (Connect c)) of
        Some e \<Rightarrow> (Some (Not_opened e), file)
      | None \<Rightarrow> (case apply_migrations (\<lambda>c. flt (Connect (Migrate_db c))) site_migrations file of
            (Some e, file') \<Rightarrow> (Some (Not_opened (Migrations_failed e)), file')
          | (None, file') \<Rightarrow>
              if flt Insert_state then (Some State_not_written, file')
              else (case init_state now file' of
                  None \<Rightarrow> (Some State_not_written, file')
                | Some file'' \<Rightarrow> (None, file''))))"

subsection \<open>RecordTick\<close>

definition state_update_cells :: "tick \<Rightarrow> int option \<Rightarrow> int \<Rightarrow> row" where
  "state_update_cells t curIncID fails =
     [(''last_check_ts'', V_int (tk_TS t)), (''current_up'', V_int (bool_to_int (tk_Up t))),
      (''current_incident_id'', nullable_int curIncID)] @
     (if tk_SSLChecked t
      then [(''ssl_expires_at'', if tk_SSLExpiresAt t > 0 then V_int (tk_SSLExpiresAt t) else V_null),
            (''ssl_last_checked'', V_int (tk_TS t))]
      else []) @
     [(''consecutive_failures'', V_int fails)]"

text \<open>The columns of the state row that the transaction reads.\<close>

definition read_state :: "sql_db \<Rightarrow> (int option \<times> int option \<times> int) option" where
  "read_state db = do {
     f \<leftarrow> List.find (\<lambda>f. f ''id'' = V_int 1) (rows_of db ''site_state'');
     up \<leftarrow> scan_null scan_int (f ''current_up''); incID \<leftarrow> scan_null scan_int (f ''current_incident_id'');
     fails \<leftarrow> scan_int (f ''consecutive_failures'');
     Some (up, incID, fails) }"

definition sql_switch :: "(column \<Rightarrow> driver_error) \<Rightarrow> (tick_stmt \<Rightarrow> bool) \<Rightarrow> tick \<Rightarrow> transition \<Rightarrow>
    int option \<Rightarrow> int option \<Rightarrow> sql_db \<Rightarrow> transition \<times> (tick_stmt + int option \<times> sql_db)" where
  "sql_switch report flt t tr curUp curIncID db =
     (if \<not> tk_Up t \<and> (curUp = None \<or> curUp = Some 1) then
        (case if flt Insert_incident then None else sql_insert report ''incidents'' (incident_cells t) db of
           None \<Rightarrow> (tr, Inl Insert_incident)
         | Some (i, db) \<Rightarrow> (tr\<lparr>tr_IncidentOpened := True, tr_IncidentID := i\<rparr>, Inr (Some i, db)))
      else if tk_Up t \<and> curUp = Some 0 then
        (case curIncID of
           None \<Rightarrow> (tr, Inr (None, db))
         | Some i \<Rightarrow>
             (case if flt Resolve_incident then None else sql_update ''incidents'' i [(''resolved_at'', V_int (tk_TS t))] db of
                None \<Rightarrow> (tr, Inl Resolve_incident)
              | Some db \<Rightarrow> (tr\<lparr>tr_IncidentResolved := True, tr_IncidentID := i\<rparr>, Inr (None, db))))
      else (tr, Inr (curIncID, db)))"

fun sql_errors :: "(column \<Rightarrow> driver_error) \<Rightarrow> (tick_stmt \<Rightarrow> bool) \<Rightarrow> tick \<Rightarrow> nat \<Rightarrow> check_error list \<Rightarrow> sql_db \<Rightarrow>
    tick_stmt + sql_db" where
  "sql_errors report flt t k [] db = Inr db"
| "sql_errors report flt t k (ce # ces) db =
     (case if flt (Insert_error k) then None else sql_insert report ''errors'' (error_cells t ce) db of
        None \<Rightarrow> Inl (Insert_error k)
      | Some (_, db) \<Rightarrow> sql_errors report flt t (Suc k) ces db)"

definition sql_finish :: "(column \<Rightarrow> driver_error) \<Rightarrow> (tick_stmt \<Rightarrow> bool) \<Rightarrow> tick \<Rightarrow> int \<Rightarrow> sql_db \<Rightarrow>
    transition \<times> (tick_stmt + int option \<times> sql_db) \<Rightarrow> sql_db \<times> transition \<times> tick_stmt option" where
  "sql_finish report flt t fails db r =
     (case r of
        (tr, Inl s) \<Rightarrow> (db, tr, Some s)
      | (tr, Inr (curIncID, db2)) \<Rightarrow>
          (case sql_errors report flt t 0 (tk_Errors t) db2 of
             Inl s \<Rightarrow> (db, tr, Some s)
           | Inr db3 \<Rightarrow>
               (case if flt Update_state then None else sql_update ''site_state'' 1 (state_update_cells t curIncID fails) db3 of
                  None \<Rightarrow> (db, tr, Some Update_state)
                | Some db4 \<Rightarrow> if flt Commit then (db, empty_transition, Some Commit) else (db4, tr, None))))"

definition sql_record_tick :: "(column \<Rightarrow> driver_error) \<Rightarrow> (tick_stmt \<Rightarrow> bool) \<Rightarrow> tick \<Rightarrow> sql_db \<Rightarrow>
    sql_db \<times> transition \<times> tick_stmt option" where
  "sql_record_tick report flt t db =
     (let tr = empty_transition\<lparr>tr_Up := tk_Up t, tr_Error := tk_Error t,
                 tr_SSLChecked := tk_SSLChecked t, tr_SSLExpiresAt := tk_SSLExpiresAt t\<rparr>
      in if flt Begin then (db, tr, Some Begin)
      else case if flt Insert_result then None else sql_insert report ''check_results'' (result_cells t) db of
        None \<Rightarrow> (db, tr, Some Insert_result)
      | Some (_, db1) \<Rightarrow>
          (case if flt Select_state then None else read_state db1 of
             None \<Rightarrow> (db, tr, Some Select_state)
           | Some (curUp, curIncID, curFails) \<Rightarrow>
               let fails = (if tk_Up t then 0 else curFails + 1)
               in sql_finish report flt t fails db
                    (sql_switch report flt t (tr\<lparr>tr_ConsecutiveFailures := fails\<rparr>) curUp curIncID db1)))"

subsection \<open>Rows as functions of the column names\<close>

lemma select_Cons: "select (c # cs) (v # r) n = (if n = cl_Name c then v else select cs r n)"
  by (simp add: select_def)

lemma select_store:
  "distinct (map cl_Name cs) \<Longrightarrow> c \<in> set cs \<Longrightarrow> select cs (store_row cs i r) (cl_Name c) = stored_cell i r c"
proof (induction cs)
  case (Cons d cs)
  then show ?case by (cases "c = d") (auto simp: store_row_def select_Cons image_iff)
qed simp

lemma select_fits:
  "list_all2 cell_fits cs r \<Longrightarrow> distinct (map cl_Name cs) \<Longrightarrow> c \<in> set cs \<Longrightarrow> cell_fits c (select cs r (cl_Name c))"
proof (induction cs r rule: list_all2_induct)
  case (Cons d cs v r)
  then show ?case by (cases "c = d") (auto simp: select_Cons image_iff)
qed simp

lemma select_update:
  "length r = length cs \<Longrightarrow> n \<in> set (map cl_Name cs) \<Longrightarrow>
   select cs (update_row cs u r) n = (case map_of u n of Some v \<Rightarrow> v | None \<Rightarrow> select cs r n)"
proof (induction cs arbitrary: r)
  case (Cons c cs)
  then obtain v r' where r: "r = v # r'" by (cases r) auto
  have upd: "update_row (c # cs) u r = (case map_of u (cl_Name c) of Some v' \<Rightarrow> v' | None \<Rightarrow> v) # update_row cs u r'"
    by (simp add: r update_row_def)
  show ?case unfolding upd using Cons by (auto simp: r select_Cons split: option.split)
qed simp

lemma select_outside: "n \<notin> set (map cl_Name cs) \<Longrightarrow> select cs r n = V_null"
proof -
  assume "n \<notin> set (map cl_Name cs)"
  then have "map_of (zip (map cl_Name cs) r) n = None" by (auto simp: map_of_eq_None_iff dest: in_set_zipE set_zip_leftD)
  then show ?thesis by (simp add: select_def)
qed

subsection \<open>A scanned table\<close>

definition holds_table :: "string \<Rightarrow> column list \<Rightarrow> ((string \<Rightarrow> cell) \<Rightarrow> 'a option) \<Rightarrow> sql_db \<Rightarrow> 'a list \<Rightarrow> bool" where
  "holds_table n cs scan db xs \<longleftrightarrow> (\<exists>t. db_Tables db n = Some t \<and> tb_Columns t = cs \<and>
     list_all (list_all2 cell_fits cs) (tb_Rows t) \<and> map (\<lambda>r. scan (select cs r)) (tb_Rows t) = map Some xs)"

lemma holds_table_cong: "db_Tables db' n = db_Tables db n \<Longrightarrow> holds_table n cs scan db' xs = holds_table n cs scan db xs"
  by (simp add: holds_table_def)

lemma holds_table_rows: "holds_table n cs scan db xs \<Longrightarrow> map scan (rows_of db n) = map Some xs"
  by (auto simp: holds_table_def rows_of_def comp_def)

text \<open>What a table needs for its rows to be the records they scan as: the one key column is the row id.\<close>

locale scanned_table =
  fixes n :: string and cs :: "column list" and scan :: "(string \<Rightarrow> cell) \<Rightarrow> 'a option" and ident :: "'a \<Rightarrow> int"
  assumes names: "distinct (map cl_Name cs)"
    and rowid: "rowid_col \<in> set cs"
    and others: "c \<in> set cs \<Longrightarrow> cl_Key c \<noteq> Plain \<Longrightarrow> c = rowid_col"
    and ids: "scan f = Some x \<Longrightarrow> scan_int (f ''id'') = Some (ident x)"
begin

lemma rowid_name: "cl_Name rowid_col = ''id''" "cl_Type rowid_col = ''INTEGER''" "cl_Key rowid_col = Primary_key"
  by (simp_all add: column_defs)

lemma row_ident:
  assumes "list_all2 cell_fits cs r" "scan (select cs r) = Some x"
  shows "select cs r ''id'' = V_int (ident x)" "row_id cs r = ident x"
proof -
  have "cell_fits rowid_col (select cs r ''id'')" using select_fits [OF assms(1) names rowid] by (simp add: rowid_name)
  with ids [OF assms(2)] show "select cs r ''id'' = V_int (ident x)"
    by (cases "select cs r ''id''") (simp_all add: rowid_name)
  then show "row_id cs r = ident x" by (simp add: row_id_def)
qed

lemma row_idents:
  assumes "list_all (list_all2 cell_fits cs) rows" "map (\<lambda>r. scan (select cs r)) rows = map Some xs"
  shows "map (row_id cs) rows = map ident xs"
  using assms
proof (induction rows arbitrary: xs)
  case (Cons r rows)
  then obtain x xs' where "xs = x # xs'" by (cases xs) auto
  with Cons row_ident(2) [of r x] show ?case by simp
qed simp

lemma insert:
  assumes "holds_table n cs scan db xs" "map_of r ''id'' = None"
    and "list_all2 cell_fits cs (store_row cs (next_rowid (map ident xs)) r)"
    and "scan (select cs (store_row cs (next_rowid (map ident xs)) r)) = Some x"
  obtains db' where "sql_insert report n r db = Some (next_rowid (map ident xs), db')" "holds_table n cs scan db' (xs @ [x])"
    "\<And>m. m \<noteq> n \<Longrightarrow> db_Tables db' m = db_Tables db m"
proof -
  let ?i = "next_rowid (map ident xs)"
  let ?new = "store_row cs ?i r"
  obtain t where t: "db_Tables db n = Some t" "tb_Columns t = cs" "list_all (list_all2 cell_fits cs) (tb_Rows t)"
    "map (\<lambda>r. scan (select cs r)) (tb_Rows t) = map Some xs" using assms(1) by (auto simp: holds_table_def)
  note idents = row_idents [OF t(3,4)]
  have new: "select cs ?new ''id'' = V_int ?i"
    using select_store [OF names rowid, of ?i r] assms(2) by (simp add: rowid_name stored_cell_def)
  have fresh: "V_int ?i \<notin> (\<lambda>old. select cs old ''id'') ` set (tb_Rows t)"
  proof
    assume "V_int ?i \<in> (\<lambda>old. select cs old ''id'') ` set (tb_Rows t)"
    then obtain old where "old \<in> set (tb_Rows t)" "select cs old ''id'' = V_int ?i" by auto
    then have "?i \<in> set (map (row_id cs) (tb_Rows t))" by (force simp: row_id_def)
    then show False using next_rowid_not_in [of "map ident xs"] by (simp only: idents)
  qed
  have "key_conflicts cs (tb_Rows t) ?new = []"
    unfolding key_conflicts_def filter_empty_conv
  proof (intro ballI notI, elim conjE)
    fix c
    assume c: "c \<in> set cs" "cl_Key c \<noteq> Plain" and "select cs ?new (cl_Name c) \<in> (\<lambda>old. select cs old (cl_Name c)) ` set (tb_Rows t)"
    with others [OF c] fresh new show False by (simp add: rowid_name)
  qed
  then have "exec_insert report cs r (tb_Rows t) = Inr (?i, tb_Rows t @ [?new])"
    by (simp add: exec_insert_def Let_def idents)
  then have "sql_insert report n r db =
      Some (?i, db\<lparr>db_Tables := (db_Tables db)(n \<mapsto> t\<lparr>tb_Rows := tb_Rows t @ [?new]\<rparr>)\<rparr>)"
    by (simp add: sql_insert_def t)
  moreover have "holds_table n cs scan (db\<lparr>db_Tables := (db_Tables db)(n \<mapsto> t\<lparr>tb_Rows := tb_Rows t @ [?new]\<rparr>)\<rparr>) (xs @ [x])"
    using t(2-4) assms(3,4) by (simp add: holds_table_def)
  ultimately show ?thesis by (rule that) simp
qed

lemma update:
  assumes "holds_table n cs scan db xs" "map_of u ''id'' = None"
    and "\<And>r x. list_all2 cell_fits cs r \<Longrightarrow> scan (select cs r) = Some x \<Longrightarrow>
      list_all2 cell_fits cs (update_row cs u r) \<and> scan (select cs (update_row cs u r)) = Some (f x)"
  obtains db' where "sql_update n i u db = Some db'" "holds_table n cs scan db' (tbl_set ident i f xs)"
    "\<And>m. m \<noteq> n \<Longrightarrow> db_Tables db' m = db_Tables db m"
proof -
  obtain t where t: "db_Tables db n = Some t" "tb_Columns t = cs" "list_all (list_all2 cell_fits cs) (tb_Rows t)"
    "map (\<lambda>r. scan (select cs r)) (tb_Rows t) = map Some xs" using assms(1) by (auto simp: holds_table_def)
  let ?step = "\<lambda>old. if row_id cs old = i then update_row cs u old else old"
  have "list_all (list_all2 cell_fits cs) (map ?step rows) \<and>
      map (\<lambda>r. scan (select cs r)) (map ?step rows) = map Some (tbl_set ident i f xs)"
    if "list_all (list_all2 cell_fits cs) rows" "map (\<lambda>r. scan (select cs r)) rows = map Some xs" for rows xs
    using that
  proof (induction rows arbitrary: xs)
    case (Cons r rows)
    then obtain x xs' where "xs = x # xs'" by (cases xs) auto
    with Cons assms(3) [of r x] row_ident(2) [of r x] show ?case by (simp add: tbl_set_def)
  qed (simp add: tbl_set_def)
  from this [OF t(3,4)] have "holds_table n cs scan
      (db\<lparr>db_Tables := (db_Tables db)(n \<mapsto> t\<lparr>tb_Rows := map ?step (tb_Rows t)\<rparr>)\<rparr>) (tbl_set ident i f xs)"
    using t(2) by (simp add: holds_table_def)
  moreover have "sql_update n i u db = Some (db\<lparr>db_Tables := (db_Tables db)(n \<mapsto> t\<lparr>tb_Rows := map ?step (tb_Rows t)\<rparr>)\<rparr>)"
    by (simp add: sql_update_def t cong: if_cong)
  ultimately show ?thesis by (elim that [rotated]) simp
qed

end

subsection \<open>The tables of a site\<close>

interpretation results: scanned_table "''check_results''" "table_columns site_schema ''check_results''" scan_result rr_id
  by unfold_locales (auto simp: site_columns column_defs scan_result_def bind_eq_Some_conv)

interpretation incidents: scanned_table "''incidents''" "table_columns site_schema ''incidents''" scan_incident in_id
  by unfold_locales (auto simp: site_columns column_defs scan_incident_def bind_eq_Some_conv)

interpretation errs: scanned_table "''errors''" "table_columns site_schema ''errors''" scan_error er_id
  by unfold_locales (auto simp: site_columns column_defs scan_error_def bind_eq_Some_conv)

lemma update_fits:
  "list_all2 cell_fits cs r \<Longrightarrow> (\<And>c v. c \<in> set cs \<Longrightarrow> map_of u (cl_Name c) = Some v \<Longrightarrow> cell_fits c v) \<Longrightarrow>
   list_all2 cell_fits cs (update_row cs u r)"
  by (induction cs r rule: list_all2_induct) (auto simp: update_row_def split: option.split)

definition holds_state :: "sql_db \<Rightarrow> site_state \<Rightarrow> bool" where
  "holds_state db st \<longleftrightarrow> (let cs = table_columns site_schema ''site_state'' in
     \<exists>t r. db_Tables db ''site_state'' = Some t \<and> tb_Columns t = cs \<and> tb_Rows t = [r] \<and> list_all2 cell_fits cs r \<and>
       select cs r ''id'' = V_int 1 \<and> select cs r ''current_up'' \<in> {V_null, V_int 0, V_int 1} \<and>
       scan_state (select cs r) = Some st)"

text \<open>A file in the current schema that holds the records of a site.\<close>

definition site_file :: "sql_db \<Rightarrow> site_db \<Rightarrow> bool" where
  "site_file db sdb \<longleftrightarrow> db_Version db = 2 \<and>
     holds_table ''check_results'' (table_columns site_schema ''check_results'') scan_result db (db_results sdb) \<and>
     holds_table ''incidents'' (table_columns site_schema ''incidents'') scan_incident db (db_incidents sdb) \<and>
     holds_table ''errors'' (table_columns site_schema ''errors'') scan_error db (db_errors sdb) \<and>
     holds_state db (db_state sdb)"

lemma holds_state_cong: "db_Tables db' ''site_state'' = db_Tables db ''site_state'' \<Longrightarrow> holds_state db' st = holds_state db st"
  by (simp add: holds_state_def)

lemma load_site_file: "site_file db sdb \<Longrightarrow> load_site db = Some sdb"
  by (auto simp: site_file_def load_site_def holds_state_def rows_of_def Let_def bind_eq_Some_conv dest!: holds_table_rows)

lemma read_state_holds:
  assumes "holds_state db st"
  obtains up where "read_state db = Some (up, ss_current_incident_id st, ss_consecutive_failures st)"
    "up \<in> {None, Some 0, Some 1}" "ss_current_up st = map_option (\<lambda>u. u = 1) up"
proof -
  let ?cs = "table_columns site_schema ''site_state''"
  obtain t r where r: "db_Tables db ''site_state'' = Some t" "tb_Columns t = ?cs" "tb_Rows t = [r]" "list_all2 cell_fits ?cs r"
    "select ?cs r ''id'' = V_int 1" "select ?cs r ''current_up'' \<in> {V_null, V_int 0, V_int 1}"
    "scan_state (select ?cs r) = Some st" using assms by (auto simp: holds_state_def Let_def)
  have "distinct (map cl_Name ?cs)" "default_to 0 (int_req ''consecutive_failures'') \<in> set ?cs"
    by (simp_all add: site_columns column_defs)
  from select_fits [OF r(4) this] have "select ?cs r ''consecutive_failures'' \<noteq> V_null" by (auto simp: column_defs)
  then have "scan_int (select ?cs r ''consecutive_failures'') = Some (ss_consecutive_failures st)"
    using r(7) by (auto simp: scan_state_def coalesce_int_def bind_eq_Some_conv)
  moreover have "rows_of db ''site_state'' = [select ?cs r]" using r(1-3) by (simp add: rows_of_def)
  ultimately show ?thesis
    using r(5-7) by (intro that [of "case select ?cs r ''current_up'' of V_int u \<Rightarrow> Some u | _ \<Rightarrow> None"])
      (auto simp: read_state_def scan_state_def scan_null_def bind_eq_Some_conv)
qed

lemma state_update_map:
  "map_of (state_update_cells t curIncID fails) m =
     (if m = ''last_check_ts'' then Some (V_int (tk_TS t))
      else if m = ''current_up'' then Some (V_int (bool_to_int (tk_Up t)))
      else if m = ''current_incident_id'' then Some (nullable_int curIncID)
      else if m = ''ssl_expires_at'' \<and> tk_SSLChecked t
        then Some (if tk_SSLExpiresAt t > 0 then V_int (tk_SSLExpiresAt t) else V_null)
      else if m = ''ssl_last_checked'' \<and> tk_SSLChecked t then Some (V_int (tk_TS t))
      else if m = ''consecutive_failures'' then Some (V_int fails) else None)"
  by (simp add: state_update_cells_def)

lemma update_state_holds:
  assumes "holds_state db (db_state sdb)"
  obtains db' where "sql_update ''site_state'' 1 (state_update_cells t curIncID fails) db = Some db'"
    "holds_state db' (db_state (update_state t curIncID fails sdb))"
    "\<And>m. m \<noteq> ''site_state'' \<Longrightarrow> db_Tables db' m = db_Tables db m"
proof -
  let ?cs = "table_columns site_schema ''site_state''" and ?u = "state_update_cells t curIncID fails"
  obtain tb r where r: "db_Tables db ''site_state'' = Some tb" "tb_Columns tb = ?cs" "tb_Rows tb = [r]" "list_all2 cell_fits ?cs r"
    "select ?cs r ''id'' = V_int 1" "scan_state (select ?cs r) = Some (db_state sdb)"
    using assms by (auto simp: holds_state_def Let_def)
  let ?db' = "db\<lparr>db_Tables := (db_Tables db)(''site_state'' \<mapsto> tb\<lparr>tb_Rows := [update_row ?cs ?u r]\<rparr>)\<rparr>"
  have len: "length r = length ?cs" using r(4) by (simp add: list_all2_lengthD)
  have fits: "list_all2 cell_fits ?cs (update_row ?cs ?u r)"
    by (rule update_fits [OF r(4)]) (auto simp: site_columns column_defs state_update_cells_def split: if_splits)
  have sel: "select ?cs (update_row ?cs ?u r) m = (case map_of ?u m of Some v \<Rightarrow> v | None \<Rightarrow> select ?cs r m)"
    if "m \<in> cl_Name ` set ?cs" for m using select_update [OF len] that by simp
  have names: "cl_Name ` set ?cs = {''id'', ''monitoring_started_at'', ''last_check_ts'', ''current_up'', ''current_incident_id'',
      ''ssl_expires_at'', ''ssl_last_checked'', ''consecutive_failures''}" by (simp add: site_columns column_defs)
  let ?new = "select ?cs (update_row ?cs ?u r)"
  have new: "?new ''id'' = select ?cs r ''id''" "?new ''monitoring_started_at'' = select ?cs r ''monitoring_started_at''"
    "?new ''last_check_ts'' = V_int (tk_TS t)" "?new ''current_up'' = V_int (bool_to_int (tk_Up t))"
    "?new ''current_incident_id'' = nullable_int curIncID" "?new ''consecutive_failures'' = V_int fails"
    "?new ''ssl_expires_at'' = (if tk_SSLChecked t then if tk_SSLExpiresAt t > 0 then V_int (tk_SSLExpiresAt t) else V_null
       else select ?cs r ''ssl_expires_at'')"
    "?new ''ssl_last_checked'' = (if tk_SSLChecked t then V_int (tk_TS t) else select ?cs r ''ssl_last_checked'')"
    by (simp_all add: sel names state_update_map)
  have old: "coalesce_int (select ?cs r ''monitoring_started_at'') = Some (ss_monitoring_started_at (db_state sdb))"
    "scan_null scan_int (select ?cs r ''ssl_expires_at'') = Some (ss_ssl_expires_at (db_state sdb))"
    "scan_null scan_int (select ?cs r ''ssl_last_checked'') = Some (ss_ssl_last_checked (db_state sdb))"
    using r(6) by (cases "db_state sdb", auto simp: scan_state_def bind_eq_Some_conv)+
  have ints: "scan_null scan_int (V_int i) = Some (Some i)" "coalesce_int (V_int i) = Some i" "(bool_to_int b = 1) = b" for i b
    by (simp_all add: scan_null_def coalesce_int_def bool_to_int_def)
  have "scan_state ?new = Some (db_state (update_state t curIncID fails sdb))"
    by (simp add: scan_state_def new old ints update_state_def Let_def)
  moreover have "?new ''id'' = V_int 1" "?new ''current_up'' \<in> {V_null, V_int 0, V_int 1}"
    using r(5) by (simp_all add: new bool_to_int_def)
  ultimately have "holds_state ?db' (db_state (update_state t curIncID fails sdb))"
    using r(2) fits by (simp add: holds_state_def Let_def)
  moreover have "sql_update ''site_state'' 1 ?u db = Some ?db'" using r by (simp add: sql_update_def row_id_def)
  ultimately show ?thesis by (elim that [rotated]) simp
qed

subsection \<open>The statements keep the picture\<close>

lemma sql_update_version: "sql_update n i u db = Some db' \<Longrightarrow> db_Version db' = db_Version db"
  by (auto simp: sql_update_def split: option.splits)

lemma sql_insert_version: "sql_insert report n r db = Some (i, db') \<Longrightarrow> db_Version db' = db_Version db"
  by (auto simp: sql_insert_def split: option.splits sum.splits)

lemma insert_result_file:
  assumes "site_file db sdb"
  obtains i db' where "sql_insert report ''check_results'' (result_cells t) db = Some (i, db')" "site_file db' (insert_result t sdb)"
proof -
  let ?x = "\<lparr>rr_id = next_rowid (map rr_id (db_results sdb)), rr_ts = tk_TS t, rr_up = tk_Up t, rr_status_code = tk_StatusCode t,
     rr_response_ms = tk_ResponseMs t, rr_failed_checks = null_string (join '','' (tk_FailedChecks t)), rr_error = null_string (tk_Error t)\<rparr>"
  have holds: "holds_table ''check_results'' (table_columns site_schema ''check_results'') scan_result db (db_results sdb)"
    using assms by (simp add: site_file_def)
  obtain db' where db': "sql_insert report ''check_results'' (result_cells t) db = Some (next_rowid (map rr_id (db_results sdb)), db')"
    "holds_table ''check_results'' (table_columns site_schema ''check_results'') scan_result db' (db_results sdb @ [?x])"
    "\<And>m. m \<noteq> ''check_results'' \<Longrightarrow> db_Tables db' m = db_Tables db m"
    by (rule results.insert [OF holds, where r = "result_cells t" and report = report and x = ?x])
      (auto simp: site_columns row_defs scan_result_def coalesce_int_def bool_to_int_def)
  have "site_file db' (insert_result t sdb)"
    using assms db'(2) sql_insert_version [OF db'(1)]
    by (simp add: site_file_def insert_result_def holds_table_cong [OF db'(3)] holds_state_cong [OF db'(3)])
  with db'(1) show ?thesis by (rule that)
qed

lemma insert_incident_file:
  assumes "site_file db sdb"
  obtains db' where "sql_insert report ''incidents'' (incident_cells t) db = Some (fst (insert_incident t sdb), db')"
    "site_file db' (snd (insert_incident t sdb))"
proof -
  let ?x = "\<lparr>in_id = next_rowid (map in_id (db_incidents sdb)), in_started_at = tk_TS t, in_resolved_at = None,
    in_cause = null_string (tk_Error t)\<rparr>"
  have holds: "holds_table ''incidents'' (table_columns site_schema ''incidents'') scan_incident db (db_incidents sdb)"
    using assms by (simp add: site_file_def)
  obtain db' where db': "sql_insert report ''incidents'' (incident_cells t) db = Some (next_rowid (map in_id (db_incidents sdb)), db')"
    "holds_table ''incidents'' (table_columns site_schema ''incidents'') scan_incident db' (db_incidents sdb @ [?x])"
    "\<And>m. m \<noteq> ''incidents'' \<Longrightarrow> db_Tables db' m = db_Tables db m"
    by (rule incidents.insert [OF holds, where r = "incident_cells t" and report = report and x = ?x])
      (auto simp: site_columns row_defs scan_incident_def)
  have "site_file db' (snd (insert_incident t sdb))"
    using assms db'(2) sql_insert_version [OF db'(1)]
    by (simp add: site_file_def insert_incident_def Let_def holds_table_cong [OF db'(3)] holds_state_cong [OF db'(3)])
  with db'(1) show ?thesis by (intro that) (simp_all add: insert_incident_def Let_def)
qed

lemma insert_error_file:
  assumes "site_file db sdb"
  obtains i db' where "sql_insert report ''errors'' (error_cells t ce) db = Some (i, db')"
    "site_file db' (sdb\<lparr>db_errors := db_errors sdb @ [\<lparr>er_id = next_rowid (map er_id (db_errors sdb)), er_ts = tk_TS t,
       er_check_type = ce_CheckType ce, er_message = ce_Message ce\<rparr>]\<rparr>)"
proof -
  let ?x = "\<lparr>er_id = next_rowid (map er_id (db_errors sdb)), er_ts = tk_TS t, er_check_type = ce_CheckType ce, er_message = ce_Message ce\<rparr>"
  have holds: "holds_table ''errors'' (table_columns site_schema ''errors'') scan_error db (db_errors sdb)"
    using assms by (simp add: site_file_def)
  obtain db' where db': "sql_insert report ''errors'' (error_cells t ce) db = Some (next_rowid (map er_id (db_errors sdb)), db')"
    "holds_table ''errors'' (table_columns site_schema ''errors'') scan_error db' (db_errors sdb @ [?x])"
    "\<And>m. m \<noteq> ''errors'' \<Longrightarrow> db_Tables db' m = db_Tables db m"
    by (rule errs.insert [OF holds, where r = "error_cells t ce" and report = report and x = ?x])
      (auto simp: site_columns row_defs scan_error_def coalesce_def)
  have "site_file db' (sdb\<lparr>db_errors := db_errors sdb @ [?x]\<rparr>)"
    using assms db'(2) sql_insert_version [OF db'(1)]
    by (simp add: site_file_def holds_table_cong [OF db'(3)] holds_state_cong [OF db'(3)])
  with db'(1) show ?thesis by (rule that)
qed

lemma resolve_incident_file:
  assumes "site_file db sdb"
  obtains db' where "sql_update ''incidents'' i [(''resolved_at'', V_int ts)] db = Some db'" "site_file db' (resolve_incident ts i sdb)"
proof -
  let ?cs = "table_columns site_schema ''incidents''" and ?u = "[(''resolved_at'', V_int ts)]"
  have holds: "holds_table ''incidents'' ?cs scan_incident db (db_incidents sdb)" using assms by (simp add: site_file_def)
  have step: "list_all2 cell_fits ?cs (update_row ?cs ?u r) \<and>
      scan_incident (select ?cs (update_row ?cs ?u r)) = Some (x\<lparr>in_resolved_at := Some ts\<rparr>)"
    if "list_all2 cell_fits ?cs r" "scan_incident (select ?cs r) = Some x" for r x
  proof
    show "list_all2 cell_fits ?cs (update_row ?cs ?u r)"
      by (rule update_fits [OF that(1)]) (auto simp: site_columns column_defs split: if_splits)
    have sel: "select ?cs (update_row ?cs ?u r) m = (if m = ''resolved_at'' then V_int ts else select ?cs r m)"
      if "m \<in> {''id'', ''started_at'', ''resolved_at'', ''cause''}" for m
      using select_update [OF list_all2_lengthD [OF \<open>list_all2 cell_fits ?cs r\<close>, symmetric], of m ?u] that
      by (auto simp: site_columns column_defs)
    show "scan_incident (select ?cs (update_row ?cs ?u r)) = Some (x\<lparr>in_resolved_at := Some ts\<rparr>)"
      using that(2) by (cases x) (auto simp: scan_incident_def sel scan_null_def bind_eq_Some_conv)
  qed
  obtain db' where db': "sql_update ''incidents'' i ?u db = Some db'"
    "holds_table ''incidents'' ?cs scan_incident db' (tbl_set in_id i (\<lambda>r. r\<lparr>in_resolved_at := Some ts\<rparr>) (db_incidents sdb))"
    "\<And>m. m \<noteq> ''incidents'' \<Longrightarrow> db_Tables db' m = db_Tables db m"
    by (rule incidents.update [OF holds, where u = ?u and i = i and f = "\<lambda>r. r\<lparr>in_resolved_at := Some ts\<rparr>"]) (auto simp: step)
  have "site_file db' (resolve_incident ts i sdb)"
    using assms db'(2) sql_update_version [OF db'(1)]
    by (simp add: site_file_def resolve_incident_def holds_table_cong [OF db'(3)] holds_state_cong [OF db'(3)])
  with db'(1) show ?thesis by (rule that)
qed

lemma update_state_file:
  assumes "site_file db sdb"
  obtains db' where "sql_update ''site_state'' 1 (state_update_cells t curIncID fails) db = Some db'"
    "site_file db' (update_state t curIncID fails sdb)"
proof -
  have "holds_state db (db_state sdb)" using assms by (simp add: site_file_def)
  then obtain db' where db': "sql_update ''site_state'' 1 (state_update_cells t curIncID fails) db = Some db'"
    "holds_state db' (db_state (update_state t curIncID fails sdb))"
    "\<And>m. m \<noteq> ''site_state'' \<Longrightarrow> db_Tables db' m = db_Tables db m"
    by (rule update_state_holds [where t = t and curIncID = curIncID and fails = fails]) auto
  have "db_results (update_state t curIncID fails sdb) = db_results sdb"
    "db_incidents (update_state t curIncID fails sdb) = db_incidents sdb"
    "db_errors (update_state t curIncID fails sdb) = db_errors sdb" by (simp_all add: update_state_def Let_def)
  with assms db'(2) sql_update_version [OF db'(1)] have "site_file db' (update_state t curIncID fails sdb)"
    by (simp add: site_file_def holds_table_cong [OF db'(3)])
  with db'(1) show ?thesis by (rule that)
qed

subsection \<open>The transaction on tables is the transaction on records\<close>

text \<open>Two results of a statement that agree: the same error, or the same value and a file of the database.\<close>

lemma sql_errors_file:
  "site_file db sdb \<Longrightarrow>
   (case sql_errors report flt t k ces db of
      Inl s \<Rightarrow> insert_errors flt (tk_TS t) k ces sdb = Inl s
    | Inr db' \<Rightarrow> (\<exists>sdb'. insert_errors flt (tk_TS t) k ces sdb = Inr sdb' \<and> site_file db' sdb'))"
proof (induction ces arbitrary: k db sdb)
  case (Cons ce ces)
  obtain i db' where "sql_insert report ''errors'' (error_cells t ce) db = Some (i, db')"
    "site_file db' (sdb\<lparr>db_errors := db_errors sdb @ [\<lparr>er_id = next_rowid (map er_id (db_errors sdb)), er_ts = tk_TS t,
       er_check_type = ce_CheckType ce, er_message = ce_Message ce\<rparr>]\<rparr>)" by (rule insert_error_file [OF Cons.prems])
  with Cons.IH [of db' _ "Suc k"] show ?case by (auto split: sum.splits)
qed simp

definition same_switch :: "transition \<times> (tick_stmt + int option \<times> sql_db) \<Rightarrow>
    transition \<times> (tick_stmt + int option \<times> site_db) \<Rightarrow> bool" where
  "same_switch r r' \<longleftrightarrow> fst r = fst r' \<and>
     (case (snd r, snd r') of
        (Inl s, Inl s') \<Rightarrow> s = s'
      | (Inr (i, db), Inr (i', sdb)) \<Rightarrow> i = i' \<and> site_file db sdb
      | _ \<Rightarrow> False)"

lemma sql_switch_file:
  assumes holds: "site_file db sdb" and up: "up \<in> {None, Some 0, Some 1}" "ss_current_up (db_state sdb) = map_option (\<lambda>u. u = 1) up"
  shows "same_switch (sql_switch report flt t tr up (ss_current_incident_id (db_state sdb)) db) (incident_switch flt t tr sdb)"
proof -
  obtain dbi where dbi: "sql_insert report ''incidents'' (incident_cells t) db = Some (fst (insert_incident t sdb), dbi)"
    "site_file dbi (snd (insert_incident t sdb))" by (rule insert_incident_file [OF holds])
  have resolve: "\<exists>db'. sql_update ''incidents'' i [(''resolved_at'', V_int (tk_TS t))] db = Some db' \<and>
      site_file db' (resolve_incident (tk_TS t) i sdb)" for i by (rule resolve_incident_file [OF holds]) blast
  show ?thesis
  proof (cases "ss_current_incident_id (db_state sdb)")
    case None
    with up dbi holds show ?thesis
      by (auto simp: same_switch_def sql_switch_def incident_switch_def Let_def split_beta)
  next
    case (Some i)
    obtain dbr where "sql_update ''incidents'' i [(''resolved_at'', V_int (tk_TS t))] db = Some dbr"
      "site_file dbr (resolve_incident (tk_TS t) i sdb)" using resolve by blast
    with up dbi holds Some show ?thesis
      by (auto simp: same_switch_def sql_switch_def incident_switch_def Let_def split_beta)
  qed
qed

lemma sql_finish_file:
  assumes "site_file db sdb" "same_switch r r'"
  obtains sdb' where "finish_tick flt t fails sdb r' = (sdb', snd (sql_finish report flt t fails db r))"
    "site_file (fst (sql_finish report flt t fails db r)) sdb'"
proof (cases "snd r")
  case (Inl s)
  with assms obtain x where x: "r = (x, Inl s)" "r' = (x, Inl s)"
    by (cases r; cases r') (auto simp: same_switch_def split: sum.splits)
  show ?thesis by (rule that [of sdb]) (simp_all add: x finish_tick_def sql_finish_def assms(1))
next
  case (Inr res)
  then obtain x i db2 sdb2 where x: "r = (x, Inr (i, db2))" "r' = (x, Inr (i, sdb2))" "site_file db2 sdb2"
    using assms(2) by (cases r; cases r'; cases "snd r'") (auto simp: same_switch_def split: sum.splits)
  note steps = sql_errors_file [OF x(3), where report = report and flt = flt and t = t and k = 0 and ces = "tk_Errors t"]
  show ?thesis
  proof (cases "sql_errors report flt t 0 (tk_Errors t) db2")
    case (Inl s)
    with steps have "insert_errors flt (tk_TS t) 0 (tk_Errors t) sdb2 = Inl s" by simp
    with Inl show ?thesis by (intro that [of sdb]) (simp_all add: x finish_tick_def sql_finish_def assms(1))
  next
    case (Inr db3)
    with steps obtain sdb3 where e: "insert_errors flt (tk_TS t) 0 (tk_Errors t) sdb2 = Inr sdb3" "site_file db3 sdb3" by auto
    obtain db4 where u: "sql_update ''site_state'' 1 (state_update_cells t i fails) db3 = Some db4"
      "site_file db4 (update_state t i fails sdb3)" by (rule update_state_file [OF e(2)])
    show ?thesis
    proof (cases "flt Update_state \<or> flt Commit")
      case True
      then show ?thesis
        by (intro that [of sdb]) (auto simp: x finish_tick_def sql_finish_def assms(1) Inr e(1) u(1))
    next
      case False
      then show ?thesis
        by (intro that [of "update_state t i fails sdb3"]) (simp_all add: x finish_tick_def sql_finish_def Inr e(1) u)
    qed
  qed
qed

text \<open>
  The simulation of one transaction: on a file that holds the records of a site, \<open>RecordTick\<close> on
  the tables reports what it reports on the records, and leaves a file of the records it leaves.
\<close>

lemma sql_record_tick_file:
  assumes "site_file db sdb"
  shows "snd (sql_record_tick report flt t db) = snd (record_tick flt t sdb) \<and>
    site_file (fst (sql_record_tick report flt t db)) (fst (record_tick flt t sdb))"
proof (cases "flt Begin \<or> flt Insert_result")
  case True
  with assms show ?thesis by (auto simp: sql_record_tick_def record_tick_def Let_def)
next
  case False
  obtain i db1 where db1: "sql_insert report ''check_results'' (result_cells t) db = Some (i, db1)"
    "site_file db1 (insert_result t sdb)" by (rule insert_result_file [OF assms])
  have st: "db_state (insert_result t sdb) = db_state sdb" by (simp add: insert_result_def)
  with db1(2) have "holds_state db1 (db_state sdb)" by (simp add: site_file_def)
  then obtain up where up: "read_state db1 = Some (up, ss_current_incident_id (db_state sdb), ss_consecutive_failures (db_state sdb))"
    "up \<in> {None, Some 0, Some 1}" "ss_current_up (db_state sdb) = map_option (\<lambda>u. u = 1) up" by (rule read_state_holds)
  define fails where "fails = (if tk_Up t then 0 else ss_consecutive_failures (db_state sdb) + 1)"
  define tr where "tr = empty_transition\<lparr>tr_Up := tk_Up t, tr_Error := tk_Error t, tr_SSLChecked := tk_SSLChecked t,
    tr_SSLExpiresAt := tk_SSLExpiresAt t, tr_ConsecutiveFailures := fails\<rparr>"
  let ?r = "sql_switch report flt t tr up (ss_current_incident_id (db_state sdb)) db1"
  have "same_switch ?r (incident_switch flt t tr (insert_result t sdb))"
    using sql_switch_file [OF db1(2) up(2), of report flt t tr] up(3) by (simp add: st)
  then obtain sdb' where "finish_tick flt t fails sdb (incident_switch flt t tr (insert_result t sdb)) =
      (sdb', snd (sql_finish report flt t fails db ?r))" "site_file (fst (sql_finish report flt t fails db ?r)) sdb'"
    by (rule sql_finish_file [OF assms])
  moreover have "record_tick flt t sdb = finish_tick flt t fails sdb (incident_switch flt t tr (insert_result t sdb))"
    "sql_record_tick report flt t db = sql_finish report flt t fails db ?r" if "\<not> flt Select_state"
    using False that by (simp_all add: record_tick_def sql_record_tick_def Let_def st tr_def fails_def db1(1) up(1))
  moreover have "record_tick flt t sdb = (sdb, tr\<lparr>tr_ConsecutiveFailures := 0\<rparr>, Some Select_state)"
    "sql_record_tick report flt t db = (db, tr\<lparr>tr_ConsecutiveFailures := 0\<rparr>, Some Select_state)" if "flt Select_state"
    using False that by (simp_all add: record_tick_def sql_record_tick_def Let_def tr_def db1(1) empty_transition_def)
  ultimately show ?thesis using assms by (cases "flt Select_state") simp_all
qed

subsection \<open>Opening a file\<close>

lemma migrate_loop_success: "migrate_loop flt c ms db = (None, db') \<Longrightarrow> migrate_loop no_fault c ms db = (None, db')"
proof (induction ms arbitrary: db)
  case (Cons m ms)
  show ?case
  proof (cases "mg_Version m \<le> c")
    case False
    then show ?thesis
    proof (cases rule: migrate_step_cases [of m c flt ms db, case_names failed applied])
      case (applied tx)
      have "exec_stmts no_fault (mg_Version m) 0 (mg_Stmts m) db = Some tx" using applied(1) by (rule exec_stmts_clean)
      with applied(2) Cons False show ?thesis by simp
    qed (use Cons.prems in simp)
  qed (use Cons in simp)
qed simp

lemma apply_success: "apply_migrations flt ms db = (None, db') \<Longrightarrow> apply_migrations no_fault ms db = (None, db')"
  by (auto simp: apply_migrations_def dest: migrate_loop_success split: if_splits)

lemma site_schema_tables:
  "db_Version site_schema = 2"
  "list_all (\<lambda>n. map_option tb_Rows (db_Tables site_schema n) = Some []) [''check_results'', ''incidents'', ''errors'', ''site_state'']"
  by code_simp+

lemma site_schema_file:
  assumes "init_state now site_schema = Some db"
  shows "site_file db (fresh_site_db now)"
proof -
  let ?cs = "table_columns site_schema ''site_state''"
  have tables: "\<exists>t. db_Tables site_schema n = Some t \<and> tb_Columns t = table_columns site_schema n \<and> tb_Rows t = []"
    if "n \<in> {''check_results'', ''incidents'', ''errors'', ''site_state''}" for n
    using site_schema_tables(2) that by (auto simp: table_columns_def split: option.splits)
  obtain t where t: "db_Tables site_schema ''site_state'' = Some t" "tb_Columns t = ?cs" "tb_Rows t = []" using tables by blast
  let ?r = "store_row ?cs 1 (state_cells now)"
  have db: "db = site_schema\<lparr>db_Tables := (db_Tables site_schema)(''site_state'' \<mapsto> t\<lparr>tb_Rows := [?r]\<rparr>)\<rparr>"
    using assms t by (simp add: init_state_def)
  have "list_all2 cell_fits ?cs ?r" "select ?cs ?r ''id'' = V_int 1" "select ?cs ?r ''current_up'' = V_null"
    "scan_state (select ?cs ?r) = Some (db_state (fresh_site_db now))"
    by (simp_all add: site_columns row_defs scan_state_def coalesce_int_def scan_null_def fresh_site_db_def)
  then have "holds_state db (db_state (fresh_site_db now))" using t by (simp add: holds_state_def Let_def db)
  moreover have "holds_table ''check_results'' (table_columns site_schema ''check_results'') scan_result db []"
    using tables [of "''check_results''"] by (auto simp: holds_table_def db)
  moreover have "holds_table ''incidents'' (table_columns site_schema ''incidents'') scan_incident db []"
    using tables [of "''incidents''"] by (auto simp: holds_table_def db)
  moreover have "holds_table ''errors'' (table_columns site_schema ''errors'') scan_error db []"
    using tables [of "''errors''"] by (auto simp: holds_table_def db)
  moreover have "db_Version db = 2" using site_schema_tables(1) by (simp add: db)
  ultimately show ?thesis by (simp add: site_file_def) (simp add: fresh_site_db_def)
qed

lemma open_fresh_file: "open_site_file flt now fresh_db = (None, db) \<Longrightarrow> site_file db (fresh_site_db now)"
proof -
  assume "open_site_file flt now fresh_db = (None, db)"
  then obtain db1 where "apply_migrations (\<lambda>c. flt (Connect (Migrate_db c))) site_migrations fresh_db = (None, db1)"
    "init_state now db1 = Some db"
    by (auto simp: open_site_file_def split: option.splits prod.splits if_splits)
  with apply_success have "init_state now site_schema = Some db" by (fastforce simp: site_schema_def)
  then show ?thesis by (rule site_schema_file)
qed

text \<open>Opening a file again, by this version of the program, leaves it as it is, with or without a failure.\<close>

lemma reopen_file: "site_file db sdb \<Longrightarrow> snd (open_site_file flt now db) = db"
proof -
  assume "site_file db sdb"
  then have v: "db_Version db = 2" and st: "holds_state db (db_state sdb)" by (simp_all add: site_file_def)
  have "snd (apply_migrations f site_migrations db) = db" for f by (simp add: apply_migrations_def site_migrations_def v)
  moreover have "init_state now db = Some db" using st by (auto simp: holds_state_def Let_def init_state_def row_id_def)
  ultimately show ?thesis
    by (auto simp: open_site_file_def prod_eq_iff split: option.splits prod.splits)
qed

text \<open>
  C8: the records of a site are a faithful picture of its file.  Take a new file, however it was
  opened, and any run of ticks with any statements failing: scanning the tables that the
  INSERTs and UPDATEs leave gives exactly the records that the model's \<open>RecordTick\<close> leaves,
  the next tick reports the same transition or error on either, and opening the file again
  changes nothing.
\<close>

theorem sql_ticks_refine_records:
  assumes "open_site_file flt0 now fresh_db = (None, file0)"
  shows "let db = foldl (\<lambda>db (flt, t). fst (sql_record_tick report flt t db)) file0 es;
      sdb = record_ticks (fresh_site_db now) es in
    load_site db = Some sdb \<and> snd (sql_record_tick report flt t db) = snd (record_tick flt t sdb) \<and>
    snd (open_site_file flt' now' db) = db"
proof -
  have "site_file (foldl (\<lambda>db (flt, t). fst (sql_record_tick report flt t db)) db es) (record_ticks sdb es)"
    if "site_file db sdb" for db sdb
    using that
  proof (induction es arbitrary: db sdb)
    case (Cons e es)
    with sql_record_tick_file [of db sdb report "fst e" "snd e"] show ?case
      by (cases e) (simp add: record_ticks_def tick_step_def)
  qed (simp add: record_ticks_def)
  from this [OF open_fresh_file [OF assms]] show ?thesis
    unfolding Let_def using load_site_file sql_record_tick_file reopen_file by blast
qed

definition outage_ticks :: "((tick_stmt \<Rightarrow> bool) \<times> tick) list" where
  "outage_ticks =
     (let up = \<lparr>tk_TS = 120, tk_Up = True, tk_StatusCode = 200, tk_ResponseMs = 10, tk_FailedChecks = [], tk_Error = [],
        tk_Errors = [], tk_SSLChecked = False, tk_SSLExpiresAt = 0\<rparr> in
      [(\<lambda>_. False, add_fail ''http'' ''unexpected status 500'' (up\<lparr>tk_TS := 60, tk_Up := False, tk_StatusCode := 500\<rparr>)),
       (\<lambda>_. False, up)])"

theorem sql_ticks_refine_records_witness:
  "\<exists>file0. open_site_file (\<lambda>_. False) 0 fresh_db = (None, file0) \<and>
     map_option (\<lambda>sdb. map in_resolved_at (db_incidents sdb))
       (load_site (foldl (\<lambda>db (flt, t). fst (sql_record_tick (\<lambda>_. Other_error []) flt t db)) file0 outage_ticks)) = Some [Some 120]"
proof -
  have "fst (open_site_file (\<lambda>_. False) 0 fresh_db) = None" by code_simp
  then obtain file0 where file0: "open_site_file (\<lambda>_. False) 0 fresh_db = (None, file0)" by (metis prod.collapse)
  have "map in_resolved_at (db_incidents (record_ticks (fresh_site_db 0) outage_ticks)) = [Some 120]" by code_simp
  with sql_ticks_refine_records [OF file0, of "\<lambda>_. Other_error []" outage_ticks] file0 show ?thesis by (simp add: Let_def)
qed

subsection \<open>Upgrades keep the contents\<close>

text \<open>The registry's file, scanned; a table that is not there has no rows.\<close>

definition load_registry :: "(string \<Rightarrow> json option) \<Rightarrow> sql_db \<Rightarrow> registry option" where
  "load_registry unmarshal db = do {
     sites \<leftarrow> sequence_opt (map (scan_site unmarshal) (rows_of db ''sites''));
     users \<leftarrow> sequence_opt (map scan_user (rows_of db ''admin_users''));
     sessions \<leftarrow> sequence_opt (map scan_session (rows_of db ''sessions''));
     channels \<leftarrow> sequence_opt (map scan_channel (rows_of db ''alert_channels''));
     rules \<leftarrow> sequence_opt (map scan_alert_rule (rows_of db ''alert_rules''));
     deliveries \<leftarrow> sequence_opt (map scan_delivery (rows_of db ''alert_deliveries''));
     Some \<lparr>rg_Sites = sites, rg_Users = users, rg_Sessions = sessions, rg_Channels = channels, rg_Rules = rules,
       rg_Deliveries = deliveries\<rparr> }"

text \<open>Every row has a cell for each column, and the column names differ.\<close>

definition well_formed :: "sql_db \<Rightarrow> bool" where
  "well_formed db \<longleftrightarrow> (\<forall>n t. db_Tables db n = Some t \<longrightarrow> distinct (map cl_Name (tb_Columns t)) \<and>
     list_all (\<lambda>r. length r = length (tb_Columns t)) (tb_Rows t))"

text \<open>A statement that no scanner of a table notices, because the default of a column it adds scans like its absence.\<close>

fun unnoticed :: "string \<Rightarrow> ((string \<Rightarrow> cell) \<Rightarrow> 'a) \<Rightarrow> ddl \<Rightarrow> bool" where
  "unnoticed n scan (Add_column m c) \<longleftrightarrow> (m = n \<longrightarrow>
     (\<forall>f. f (cl_Name c) = V_null \<longrightarrow> scan (f(cl_Name c := cl_Default c)) = scan f))"
| "unnoticed n scan (Create_table m cs fks) \<longleftrightarrow> distinct (map cl_Name cs)"
| "unnoticed n scan (Create_index i m c) \<longleftrightarrow> True"

lemma select_snoc:
  "length r = length cs \<Longrightarrow> cl_Name c \<notin> cl_Name ` set cs \<Longrightarrow> select (cs @ [c]) (r @ [v]) = (select cs r)(cl_Name c := v)"
proof
  fix n
  assume "length r = length cs" "cl_Name c \<notin> cl_Name ` set cs"
  then show "select (cs @ [c]) (r @ [v]) n = ((select cs r)(cl_Name c := v)) n"
  proof (induction cs arbitrary: r)
    case (Cons d cs)
    then obtain w r' where "r = w # r'" by (cases r) auto
    with Cons show ?case by (auto simp: select_Cons)
  qed (simp add: select_def)
qed

lemma added_column_rows:
  assumes "well_formed db" "db_Tables db n = Some t" "cl_Name c \<notin> cl_Name ` set (tb_Columns t)" "r \<in> set (tb_Rows t)"
  shows "select (tb_Columns t @ [c]) (r @ [cl_Default c]) = (select (tb_Columns t) r)(cl_Name c := cl_Default c)"
    "select (tb_Columns t) r (cl_Name c) = V_null"
proof -
  have "length r = length (tb_Columns t)" using assms(1,2,4) unfolding well_formed_def list_all_iff by blast
  then show "select (tb_Columns t @ [c]) (r @ [cl_Default c]) = (select (tb_Columns t) r)(cl_Name c := cl_Default c)"
    using assms(3) by (rule select_snoc)
  show "select (tb_Columns t) r (cl_Name c) = V_null" using assms(3) by (intro select_outside) simp
qed

lemma exec_ddl_contents:
  assumes "exec_ddl st db = Some db'" "well_formed db" "unnoticed n scan st"
  shows "well_formed db' \<and> map scan (rows_of db' n) = map scan (rows_of db n)"
proof (cases st)
  case (Create_table m cs fks)
  with assms show ?thesis by (auto simp: rows_of_def well_formed_def split: option.splits if_splits)
next
  case (Add_column m c)
  with assms(1) obtain t where t: "db_Tables db m = Some t" "cl_Name c \<notin> cl_Name ` set (tb_Columns t)"
    "db' = db\<lparr>db_Tables := (db_Tables db)(m \<mapsto> t\<lparr>tb_Columns := tb_Columns t @ [c],
       tb_Rows := map (\<lambda>r. r @ [cl_Default c]) (tb_Rows t)\<rparr>)\<rparr>" by (auto split: option.splits if_splits)
  have "well_formed db'" using assms(2) t by (auto simp: well_formed_def list_all_iff)
  moreover have "map scan (rows_of db' n) = map scan (rows_of db n)"
  proof (cases "m = n")
    case True
    have "scan (select (tb_Columns t @ [c]) (r @ [cl_Default c])) = scan (select (tb_Columns t) r)" if "r \<in> set (tb_Rows t)" for r
      using added_column_rows [OF assms(2) t(1,2) that] assms(3) Add_column True by simp
    with t True show ?thesis by (simp add: rows_of_def)
  qed (use t in \<open>simp add: rows_of_def\<close>)
  ultimately show ?thesis ..
next
  case (Create_index i m c)
  with assms show ?thesis by (auto simp: rows_of_def well_formed_def split: option.splits if_splits)
qed

lemma exec_stmts_contents:
  "exec_stmts flt v i sts db = Some db' \<Longrightarrow> well_formed db \<Longrightarrow> list_all (unnoticed n scan) sts \<Longrightarrow>
   well_formed db' \<and> map scan (rows_of db' n) = map scan (rows_of db n)"
proof (induction sts arbitrary: i db)
  case (Cons st sts)
  then obtain db1 where "exec_ddl st db = Some db1" "exec_stmts flt v (Suc i) sts db1 = Some db'"
    by (auto split: if_splits option.splits)
  with Cons exec_ddl_contents [of st db db1 n scan] show ?case by fastforce
qed simp

lemma migrate_loop_contents:
  "well_formed db \<Longrightarrow> list_all (\<lambda>m. list_all (unnoticed n scan) (mg_Stmts m)) ms \<Longrightarrow>
   well_formed (snd (migrate_loop flt c ms db)) \<and>
   map scan (rows_of (snd (migrate_loop flt c ms db)) n) = map scan (rows_of db n)"
proof (induction ms arbitrary: db)
  case (Cons m ms)
  show ?case
  proof (cases "mg_Version m \<le> c")
    case False
    then show ?thesis
    proof (cases rule: migrate_step_cases [of m c flt ms db, case_names failed applied])
      case (applied tx)
      have "well_formed tx \<and> map scan (rows_of tx n) = map scan (rows_of db n)"
        using exec_stmts_contents [OF applied(1) Cons.prems(1), of n scan] Cons.prems(2) by simp
      moreover have "well_formed (tx\<lparr>db_Version := mg_Version m\<rparr>) = well_formed tx"
        "rows_of (tx\<lparr>db_Version := mg_Version m\<rparr>) n = rows_of tx n" by (simp_all add: well_formed_def rows_of_def)
      ultimately show ?thesis using Cons.IH [of "tx\<lparr>db_Version := mg_Version m\<rparr>"] Cons.prems(2) applied(2) by simp
    qed (use Cons.prems in simp)
  qed (use Cons in simp)
qed simp

lemma apply_contents:
  "well_formed db \<Longrightarrow> list_all (\<lambda>m. list_all (unnoticed n scan) (mg_Stmts m)) ms \<Longrightarrow>
   map scan (rows_of (snd (apply_migrations flt ms db)) n) = map scan (rows_of db n)"
  using migrate_loop_contents [of db n scan ms flt "db_Version db"] by (simp add: apply_migrations_def)

lemma registry_unnoticed: "list_all (\<lambda>m. list_all (unnoticed n scan) (mg_Stmts m)) registry_migrations"
  by (simp add: registry_migrations_def column_defs fun_upd_idem)

lemma site_unnoticed:
  "n \<noteq> ''site_state'' \<Longrightarrow> list_all (\<lambda>m. list_all (unnoticed n scan) (mg_Stmts m)) site_migrations"
  "list_all (\<lambda>m. list_all (unnoticed n (\<lambda>f. (f ''id'' = V_int 1, scan_state f))) (mg_Stmts m)) site_migrations"
  by (auto simp: site_migrations_def column_defs scan_state_def coalesce_int_def)

lemma load_site_eq:
  "load_site db = do {
     results \<leftarrow> sequence_opt (map scan_result (rows_of db ''check_results''));
     incidents \<leftarrow> sequence_opt (map scan_incident (rows_of db ''incidents''));
     errs \<leftarrow> sequence_opt (map scan_error (rows_of db ''errors''));
     p \<leftarrow> List.find fst (map (\<lambda>f. (f ''id'' = V_int 1, scan_state f)) (rows_of db ''site_state''));
     st \<leftarrow> snd p;
     Some \<lparr>db_results = results, db_incidents = incidents, db_errors = errs, db_state = st\<rparr> }"
proof -
  have "(List.find P rows \<bind> (\<lambda>f. scan f \<bind> k)) = (List.find fst (map (\<lambda>f. (P f, scan f)) rows) \<bind> (\<lambda>p. snd p \<bind> k))"
    for P :: "(string \<Rightarrow> cell) \<Rightarrow> bool" and scan :: "(string \<Rightarrow> cell) \<Rightarrow> site_state option" and k :: "site_state \<Rightarrow> site_db option" and rows
    by (induction rows) simp_all
  then show ?thesis unfolding load_site_def by simp
qed

lemma upgrades_keep:
  assumes "well_formed db"
  shows "load_registry unmarshal (snd (apply_migrations flt registry_migrations db)) = load_registry unmarshal db"
    "load_site (snd (apply_migrations flt' site_migrations db)) = load_site db"
proof -
  note reg = apply_contents [OF assms registry_unnoticed]
  show "load_registry unmarshal (snd (apply_migrations flt registry_migrations db)) = load_registry unmarshal db"
    unfolding load_registry_def reg ..
  have names: "''check_results'' \<noteq> ''site_state''" "''incidents'' \<noteq> ''site_state''" "''errors'' \<noteq> ''site_state''" by simp_all
  note site = apply_contents [OF assms site_unnoticed(1) [OF names(1)]] apply_contents [OF assms site_unnoticed(1) [OF names(2)]]
    apply_contents [OF assms site_unnoticed(1) [OF names(3)]] apply_contents [OF assms site_unnoticed(2)]
  show "load_site (snd (apply_migrations flt' site_migrations db)) = load_site db"
    unfolding load_site_eq site ..
qed

text \<open>
  C27: an upgrade changes nothing that is stored.  Whatever version a file is at, from before there
  were migrations to the current one, and wherever the upgrade is interrupted, the registry and
  the history of a site scan as before: a column that is added reads as what the program
  takes its absence for, and a table that is added is empty.
\<close>

theorem upgrades_keep_contents:
  assumes "well_formed db"
  shows "load_registry unmarshal (snd (apply_migrations flt registry_migrations db)) = load_registry unmarshal db \<and>
    load_site (snd (apply_migrations flt' site_migrations db)) = load_site db"
  using upgrades_keep [OF assms] by blast

text \<open>A registry with one site from before the migrations, upgraded up to a commit that fails.\<close>

definition old_site_row :: "cell list" where
  "old_site_row = [V_text ''shop'', V_text ''Shop'', V_text ''https://shop.test'', V_int 60, V_int 3600, V_int 1, V_text ''{}'', V_int 5, V_int 5]"

theorem upgrades_keep_contents_witness:
  "let db = snd (apply_migrations (\<lambda>c. c = Commit_tx 3) registry_migrations (legacy_registry [old_site_row])) in
   db_Version db = 2 \<and>
   map_option (\<lambda>r. map (\<lambda>c. (sc_ID c, sc_CreatedAt c, sc_APIKeyHash c)) (rg_Sites r))
     (load_registry (\<lambda>_. Some (J_obj [])) db) = Some [(''shop'', 5, [])]"
proof -
  have "well_formed (legacy_registry [old_site_row])"
    by (simp add: well_formed_def legacy_registry_def fresh_db_def old_site_row_def column_defs)
  from upgrades_keep_contents [OF this, of "\<lambda>_. Some (J_obj [])" "\<lambda>c. c = Commit_tx 3"]
  have "load_registry (\<lambda>_. Some (J_obj []))
      (snd (apply_migrations (\<lambda>c. c = Commit_tx 3) registry_migrations (legacy_registry [old_site_row]))) =
    load_registry (\<lambda>_. Some (J_obj [])) (legacy_registry [old_site_row])" by blast
  moreover have "map_option (\<lambda>r. map (\<lambda>c. (sc_ID c, sc_CreatedAt c, sc_APIKeyHash c)) (rg_Sites r))
      (load_registry (\<lambda>_. Some (J_obj [])) (legacy_registry [old_site_row])) = Some [(''shop'', 5, [])]" by code_simp
  moreover have "db_Version (snd (apply_migrations (\<lambda>c. c = Commit_tx 3) registry_migrations (legacy_registry [old_site_row]))) = 2"
    by code_simp
  ultimately show ?thesis unfolding Let_def by presburger
qed

end
