(* ===== verification/DataDir.thy ===== *)
theory DataDir
  imports Contents
begin

section \<open>The data directory (internal/storage/manager.go, cmd/monitor/main.go)\<close>

text \<open>
  \<open>Stores\<close> has the manager on a map from site ids to databases.  In the program it works on a
  directory that holds \<open>registry.db\<close> besides: \<open>Get\<close> opens the file \<open><id>.db\<close> with all statements of
  \<open>openSiteStore\<close>, and \<open>Delete\<close> removes that file and its sidecars.  For every id but one the map
  is a faithful picture of the directory; the id \<open>registry\<close> names the file of the registry.
\<close>

record data_dir =
  dd_Path :: string
  dd_Files :: "string \<rightharpoonup> sql_db"
  dd_Cache :: "string set"

definition registry_path :: "string \<Rightarrow> string" where
  "registry_path dir = file_join dir ''registry.db''"

subsection \<open>The manager on files\<close>

text \<open>SQLite makes the file when it connects; a file that is not there is one without tables.\<close>

definition dir_get :: "(site_open_call \<Rightarrow> bool) \<Rightarrow> unix \<Rightarrow> string \<Rightarrow> data_dir \<Rightarrow> (store_error + sql_db) \<times> data_dir" where
  "dir_get flt now site d =
     (if \<not> safe_id site then (Inl Invalid_site_id, d)
      else
        let p = manager_path (dd_Path d) site; content = (case dd_Files d p of None \<Rightarrow> fresh_db | Some f \<Rightarrow> f) in
        if site \<in> dd_Cache d then (Inr content, d)
        else case open_site_file flt now content of
          (Some (Not_opened Driver_failed), _) \<Rightarrow> (Inl Open_failed, d)
        | (Some (Not_opened Not_reachable), _) \<Rightarrow> (Inl Open_failed, d)
        | (Some _, f) \<Rightarrow> (Inl Open_failed, d\<lparr>dd_Files := (dd_Files d)(p \<mapsto> f)\<rparr>)
        | (None, f) \<Rightarrow> (Inr f, d\<lparr>dd_Files := (dd_Files d)(p \<mapsto> f), dd_Cache := insert site (dd_Cache d)\<rparr>))"

definition dir_delete :: "(string \<Rightarrow> bool) \<Rightarrow> string \<Rightarrow> data_dir \<Rightarrow> store_error option \<times> data_dir" where
  "dir_delete rm_fails site d =
     (if \<not> safe_id site then (Some Invalid_site_id, d)
      else
        let base = manager_path (dd_Path d) site; sidecars = [[], ''-wal'', ''-shm''];
            files = foldl (\<lambda>fs x. if rm_fails x then fs else fs(base @ x := None)) (dd_Files d) sidecars
        in (if list_ex rm_fails sidecars then Some Remove_failed else None,
            d\<lparr>dd_Files := files, dd_Cache := dd_Cache d - {site}\<rparr>))"

subsection \<open>The map the directory stands for\<close>

definition site_of :: "data_dir \<Rightarrow> string \<Rightarrow> site_db option" where
  "site_of d i = (case dd_Files d (manager_path (dd_Path d) i) of None \<Rightarrow> None | Some f \<Rightarrow> load_site f)"

definition own_id :: "string \<Rightarrow> bool" where
  "own_id i \<longleftrightarrow> safe_id i \<and> i \<noteq> ''registry''"

definition manager_of :: "data_dir \<Rightarrow> store_manager" where
  "manager_of d = \<lparr>sm_Files = (\<lambda>i. if own_id i then site_of d i else None), sm_Cache = dd_Cache d\<rparr>"

text \<open>A site's file of any version, however far an earlier start came with it.\<close>

definition site_file_ok :: "sql_db \<Rightarrow> bool" where
  "site_file_ok f \<longleftrightarrow> (\<exists>sdb. site_file f sdb) \<or>
     well_formed f \<and> (\<exists>g. apply_migrations no_fault site_migrations f = (None, g) \<and>
       (g = site_schema \<or> (\<exists>sdb. site_file g sdb)))"

definition registry_file :: "sql_db \<Rightarrow> bool" where
  "registry_file f \<longleftrightarrow> db_Tables f ''site_state'' = None \<and> 2 \<le> db_Version f"

text \<open>A site's file, if there is one, and whether the manager has it open.\<close>

fun entry_ok :: "sql_db option \<Rightarrow> bool \<Rightarrow> bool" where
  "entry_ok None cached \<longleftrightarrow> \<not> cached"
| "entry_ok (Some f) cached \<longleftrightarrow> site_file_ok f \<and> (cached \<longrightarrow> (\<exists>sdb. site_file f sdb))"

definition dir_inv :: "data_dir \<Rightarrow> bool" where
  "dir_inv d \<longleftrightarrow>
     (case dd_Files d (registry_path (dd_Path d)) of None \<Rightarrow> False | Some f \<Rightarrow> registry_file f) \<and>
     (\<forall>i\<in>dd_Cache d. own_id i) \<and>
     (\<forall>i. own_id i \<longrightarrow> entry_ok (dd_Files d (manager_path (dd_Path d) i)) (i \<in> dd_Cache d))"

subsection \<open>Paths\<close>

lemma registry_entry: "entry_name ''registry.db''" "safe_id ''registry''"
  by code_simp+

lemma registry_path_manager: "registry_path dir = manager_path dir ''registry''"
  by (simp add: registry_path_def manager_path_def)

lemma own_path: "own_id i \<Longrightarrow> manager_path dir i \<noteq> registry_path dir"
  using manager_path_inj [of i "''registry''" dir] registry_entry(2) by (simp add: registry_path_manager own_id_def)

lemma own_paths: "own_id i \<Longrightarrow> own_id k \<Longrightarrow> manager_path dir i = manager_path dir k \<longleftrightarrow> i = k"
  by (simp add: manager_path_inj own_id_def)

lemma file_join_suffix: "entry_name f \<Longrightarrow> \<exists>p. file_join dir f = p @ f"
  by (auto simp: file_join_entry Let_def join_snoc intro: exI [of _ "slash # _"])

text \<open>No database file has the name of a sidecar.\<close>

lemma sidecar_path:
  assumes "safe_id i" "safe_id k" "x \<in> {''-wal'', ''-shm''}"
  shows "manager_path dir i \<noteq> manager_path dir k @ x"
proof
  assume eq: "manager_path dir i = manager_path dir k @ x"
  obtain p where "manager_path dir i = p @ i @ ''.db''"
    using file_join_suffix [OF safe_entry [OF assms(1)]] by (auto simp: manager_path_def)
  with eq assms(3) show False by (auto dest: arg_cong [of _ _ last])
qed

subsection \<open>Opening\<close>

lemma current_file_migrated: "db_Version f = 2 \<Longrightarrow> apply_migrations no_fault site_migrations f = (None, f)"
  by (simp add: apply_migrations_def site_migrations_def)

lemma load_site_schema: "load_site site_schema = None"
  by code_simp

lemma fresh_site_ok: "site_file_ok fresh_db" "load_site fresh_db = None"
proof -
  have "fst (apply_migrations no_fault site_migrations fresh_db) = None" by code_simp
  then have "apply_migrations no_fault site_migrations fresh_db = (None, site_schema)" by (simp add: site_schema_def prod_eq_iff)
  moreover have "well_formed fresh_db" by (simp add: well_formed_def fresh_db_def)
  ultimately show "site_file_ok fresh_db" unfolding site_file_ok_def by blast
  show "load_site fresh_db = None" by code_simp
qed

lemma apply_well_formed:
  "well_formed f \<Longrightarrow> list_all (\<lambda>m. list_all (unnoticed n scan) (mg_Stmts m)) ms \<Longrightarrow> well_formed (snd (apply_migrations flt ms f))"
  using migrate_loop_contents [of f n scan ms flt "db_Version f"] by (simp add: apply_migrations_def)

lemma initialised:
  assumes "g = site_schema \<or> site_file g sdb" "init_state now g = Some f"
  shows "site_file f (open_site_store now (load_site g))"
proof (cases "g = site_schema")
  case True
  with assms(2) site_schema_file show ?thesis by (simp add: load_site_schema open_site_store_def)
next
  case False
  with assms(1) have g: "site_file g sdb" by simp
  then have "holds_state g (db_state sdb)" by (simp add: site_file_def)
  then have "init_state now g = Some g" by (auto simp: holds_state_def Let_def init_state_def row_id_def)
  then have "f = g" using assms(2) by simp
  moreover have "open_site_store now (load_site g) = sdb" by (simp add: load_site_file [OF g] open_site_store_def)
  ultimately show ?thesis using g by simp
qed

text \<open>What an opening leaves: the opened site, or a file that still holds what it held.\<close>

lemma open_site_outcome:
  assumes "site_file_ok f" "open_site_file flt now f = (r, f')"
  shows "if r = None then site_file f' (open_site_store now (load_site f)) else site_file_ok f' \<and> load_site f' = load_site f"
proof (cases "\<exists>sdb. site_file f sdb")
  case True
  then obtain sdb where sdb: "site_file f sdb" by blast
  with reopen_file [OF this, of flt now] assms(2) have "f' = f" by simp
  with sdb assms(1) show ?thesis by (simp add: load_site_file open_site_store_def)
next
  case False
  with assms(1) obtain g where wf: "well_formed f" and g: "apply_migrations no_fault site_migrations f = (None, g)"
    "g = site_schema \<or> (\<exists>sdb. site_file g sdb)" by (auto simp: site_file_ok_def)
  let ?flt = "\<lambda>c. flt (Connect (Migrate_db c))"
  obtain e f1 where f1: "apply_migrations ?flt site_migrations f = (e, f1)" by fastforce
  have keep: "well_formed f1" "load_site f1 = load_site f" "apply_migrations no_fault site_migrations f1 = (None, g)"
    using apply_well_formed [OF wf site_unnoticed(2), of ?flt] upgrades_keep(2) [OF wf, of ?flt]
      apply_resume [OF histories_increasing(2), of ?flt f] by (simp_all add: f1 g(1))
  then have ok: "site_file_ok f1" using g(2) unfolding site_file_ok_def by blast
  show ?thesis
  proof (cases e)
    case (Some x)
    with assms f1 ok keep(2) show ?thesis by (auto simp: open_site_file_def split: option.splits)
  next
    case None
    then have "f1 = g" using apply_success [of ?flt site_migrations f f1] f1 g(1) by simp
    with assms f1 None ok keep(2) g(2) initialised [of g _ now] show ?thesis
      by (auto simp: open_site_file_def split: option.splits if_splits)
  qed
qed

lemma not_connected: "open_site_file flt now f = (Some (Not_opened Driver_failed), f') \<or>
    open_site_file flt now f = (Some (Not_opened Not_reachable), f') \<Longrightarrow> f' = f"
  by (auto simp: open_site_file_def open_sqlite_def split: if_splits prod.splits option.splits)

text \<open>The registry is not a site: its file has no state row to write.\<close>

lemma open_registry_as_site: "registry_file f \<Longrightarrow> fst (open_site_file flt now f) \<noteq> None \<and> snd (open_site_file flt now f) = f"
proof -
  assume f: "registry_file f"
  then have "snd (apply_migrations flt' site_migrations f) = f" for flt'
    by (simp add: registry_file_def apply_migrations_def site_migrations_def)
  with f show ?thesis
    by (auto simp: open_site_file_def registry_file_def init_state_def prod_eq_iff split: option.splits prod.splits)
qed

subsection \<open>The manager's operations\<close>

lemma dir_inv_site:
  assumes "dir_inv d" "own_id i" "dd_Files d (manager_path (dd_Path d) i) = Some f"
  shows "site_file_ok f" "i \<in> dd_Cache d \<Longrightarrow> \<exists>sdb. site_file f sdb"
proof -
  have "entry_ok (dd_Files d (manager_path (dd_Path d) i)) (i \<in> dd_Cache d)"
    using assms(1,2) unfolding dir_inv_def by blast
  with assms(3) show "site_file_ok f" "i \<in> dd_Cache d \<Longrightarrow> \<exists>sdb. site_file f sdb" by simp_all
qed

text \<open>A file of one site is replaced by what an opening left.\<close>

lemma dir_inv_store:
  assumes "dir_inv d" "own_id i" "site_file_ok f"
    and "cache = dd_Cache d \<or> cache = insert i (dd_Cache d) \<and> (\<exists>sdb. site_file f sdb)" "i \<notin> dd_Cache d"
  shows "dir_inv (d\<lparr>dd_Files := (dd_Files d)(manager_path (dd_Path d) i \<mapsto> f), dd_Cache := cache\<rparr>)"
    (is "dir_inv ?d")
proof -
  have "entry_ok (dd_Files ?d (manager_path (dd_Path d) k)) (k \<in> cache)" if "own_id k" for k
  proof (cases "k = i")
    case True
    with assms(3-5) show ?thesis by auto
  next
    case False
    then have "manager_path (dd_Path d) k \<noteq> manager_path (dd_Path d) i" using own_paths [OF that assms(2)] by simp
    moreover have "k \<in> cache \<longleftrightarrow> k \<in> dd_Cache d" using assms(4) False by auto
    ultimately show ?thesis using assms(1) that by (simp add: dir_inv_def)
  qed
  moreover have "\<forall>k\<in>cache. own_id k" using assms(1,2,4) by (auto simp: dir_inv_def)
  ultimately show ?thesis using assms(1) own_path [OF assms(2), of "dd_Path d"] by (simp add: dir_inv_def)
qed

lemma manager_of_store:
  assumes "own_id i"
  shows "manager_of (d\<lparr>dd_Files := (dd_Files d)(manager_path (dd_Path d) i \<mapsto> f), dd_Cache := cache\<rparr>) =
    \<lparr>sm_Files = (sm_Files (manager_of d))(i := load_site f), sm_Cache = cache\<rparr>"
  using assms own_paths [OF _ assms] by (auto simp: manager_of_def site_of_def fun_eq_iff)

lemma entry_ok_mono: "entry_ok f c \<Longrightarrow> (c' \<Longrightarrow> c) \<Longrightarrow> entry_ok f c'"
  by (cases f) auto

lemma manager_get_uncached:
  "safe_id i \<Longrightarrow> i \<notin> sm_Cache m \<Longrightarrow> manager_get (\<lambda>_. b) now i m =
     (if b then (Inl Open_failed, m)
      else (Inr (open_site_store now (sm_Files m i)),
        \<lparr>sm_Files = (sm_Files m)(i \<mapsto> open_site_store now (sm_Files m i)), sm_Cache = insert i (sm_Cache m)\<rparr>))"
  by (cases m) (simp add: manager_get_def Let_def)

text \<open>\<open>Get\<close> returns what the manager of the model returns, for openings that fail or succeed alike.\<close>

lemma dir_get_simulates:
  assumes "dir_inv d" "own_id i"
  shows "dir_inv (snd (dir_get flt now i d)) \<and>
    manager_get (\<lambda>_. is_err (fst (dir_get flt now i d))) now i (manager_of d) =
      (case fst (dir_get flt now i d) of Inl e \<Rightarrow> Inl e | Inr f \<Rightarrow> Inr (the (load_site f)), manager_of (snd (dir_get flt now i d)))"
proof -
  let ?p = "manager_path (dd_Path d) i"
  let ?f = "case dd_Files d ?p of None \<Rightarrow> fresh_db | Some f \<Rightarrow> f"
  have safe: "safe_id i" using assms(2) by (simp add: own_id_def)
  have ok: "site_file_ok ?f" using dir_inv_site(1) [OF assms] fresh_site_ok(1) by (simp split: option.split)
  have load: "sm_Files (manager_of d) i = load_site ?f"
    using assms(2) fresh_site_ok(2) by (simp add: manager_of_def site_of_def split: option.split)
  have cache: "sm_Cache (manager_of d) = dd_Cache d" by (simp add: manager_of_def)
  show ?thesis
  proof (cases "i \<in> dd_Cache d")
    case True
    have "entry_ok (dd_Files d ?p) (i \<in> dd_Cache d)" using assms unfolding dir_inv_def by blast
    with True obtain f where f: "dd_Files d ?p = Some f" by (cases "dd_Files d ?p") simp_all
    obtain sdb where "site_file f sdb" using dir_inv_site(2) [OF assms f True] by blast
    with f load have "sm_Files (manager_of d) i = Some sdb" "load_site ?f = Some sdb" by (simp_all add: load_site_file)
    moreover have "dir_get flt now i d = (Inr ?f, d)" using True safe by (simp add: dir_get_def Let_def)
    ultimately show ?thesis using assms(1) True safe cache by (simp add: manager_get_def)
  next
    case False
    obtain r f' where o: "open_site_file flt now ?f = (r, f')" by fastforce
    note outcome = open_site_outcome [OF ok o]
    let ?d = "\<lambda>cache. d\<lparr>dd_Files := (dd_Files d)(?p \<mapsto> f'), dd_Cache := cache\<rparr>"
    show ?thesis
    proof (cases r)
      case None
      with outcome have f': "site_file f' (open_site_store now (load_site ?f))" by simp
      then have "dir_inv (?d (insert i (dd_Cache d)))"
        using dir_inv_store [OF assms, where f = f' and cache = "insert i (dd_Cache d)"] False by (auto simp: site_file_ok_def)
      moreover have "dir_get flt now i d = (Inr f', ?d (insert i (dd_Cache d)))"
        using False safe o None by (simp add: dir_get_def Let_def)
      moreover have "manager_get (\<lambda>_. False) now i (manager_of d) =
          (Inr (open_site_store now (load_site ?f)), manager_of (?d (insert i (dd_Cache d))))"
        using manager_get_uncached [OF safe, of "manager_of d" False now] False load cache load_site_file [OF f']
          manager_of_store [OF assms(2), where d = d and f = f' and cache = "insert i (dd_Cache d)"] by simp
      ultimately show ?thesis using load_site_file [OF f'] by simp
    next
      case (Some e)
      with outcome have f': "site_file_ok f'" "load_site f' = load_site ?f" by simp_all
      have "dir_inv (?d (dd_Cache d))" using dir_inv_store [OF assms f'(1), where cache = "dd_Cache d"] False by simp
      moreover have "manager_of (?d (dd_Cache d)) = manager_of d"
        using manager_of_store [OF assms(2), where d = d and f = f' and cache = "dd_Cache d"] f'(2) load cache by (simp add: fun_upd_idem)
      moreover have "dir_get flt now i d = (Inl Open_failed, d) \<or> dir_get flt now i d = (Inl Open_failed, ?d (dd_Cache d))"
        using False safe o Some by (auto simp: dir_get_def Let_def split: site_open_error.split open_error.split)
      moreover have "manager_get (\<lambda>_. True) now i (manager_of d) = (Inl Open_failed, manager_of d)"
        using manager_get_uncached [OF safe, of "manager_of d" True now] False cache by simp
      ultimately show ?thesis using assms(1) by (elim disjE) simp_all
    qed
  qed
qed

lemma dir_delete_files:
  assumes "safe_id i" "safe_id k"
  shows "dd_Files (snd (dir_delete rm i d)) (manager_path (dd_Path d) k) =
    (if k = i \<and> \<not> rm [] then None else dd_Files d (manager_path (dd_Path d) k))"
  using assms sidecar_path [OF assms(2,1), of _ "dd_Path d"] manager_path_inj [OF assms(2,1), of "dd_Path d"]
  by (auto simp: dir_delete_def Let_def)

lemma dir_delete_path: "dd_Path (snd (dir_delete rm i d)) = dd_Path d"
  by (simp add: dir_delete_def Let_def)

lemma dir_delete_simulates:
  assumes "dir_inv d" "own_id i"
  shows "dir_inv (snd (dir_delete rm i d)) \<and>
    manager_delete rm i (manager_of d) = (fst (dir_delete rm i d), manager_of (snd (dir_delete rm i d))) \<and>
    dd_Files (snd (dir_delete rm i d)) (registry_path (dd_Path d)) = dd_Files d (registry_path (dd_Path d))"
proof -
  have safe: "safe_id i" and ne: "i \<noteq> ''registry''" using assms(2) by (simp_all add: own_id_def)
  note files = dir_delete_files [OF safe, where rm = rm and d = d]
  have cache: "dd_Cache (snd (dir_delete rm i d)) = dd_Cache d - {i}" using safe by (simp add: dir_delete_def Let_def)
  have reg: "dd_Files (snd (dir_delete rm i d)) (registry_path (dd_Path d)) = dd_Files d (registry_path (dd_Path d))"
    using files [OF registry_entry(2)] ne by (simp add: registry_path_manager)
  have "manager_of (snd (dir_delete rm i d)) = \<lparr>sm_Files = (if rm [] then sm_Files (manager_of d) else (sm_Files (manager_of d))(i := None)),
      sm_Cache = dd_Cache d - {i}\<rparr>"
    using files cache by (auto simp: manager_of_def site_of_def own_id_def fun_eq_iff dir_delete_path)
  then have "manager_delete rm i (manager_of d) = (fst (dir_delete rm i d), manager_of (snd (dir_delete rm i d)))"
    using safe by (auto simp: manager_delete_def dir_delete_def Let_def manager_of_def)
  moreover have "dir_inv (snd (dir_delete rm i d))"
    using assms(1) files cache reg by (auto simp: dir_inv_def dir_delete_path own_id_def entry_ok_mono split: option.splits)
  ultimately show ?thesis using reg by blast
qed

subsection \<open>The directory implements the map, but for one id\<close>

lemma dir_get_registry:
  assumes "dir_inv d"
  shows "fst (dir_get flt now ''registry'' d) = Inl Open_failed"
    "dd_Files (snd (dir_get flt now ''registry'' d)) = dd_Files d"
proof -
  have "''registry'' \<notin> dd_Cache d" using assms by (auto simp: dir_inv_def own_id_def)
  moreover obtain f where f: "dd_Files d (manager_path (dd_Path d) ''registry'') = Some f" "registry_file f"
    using assms by (auto simp: dir_inv_def registry_path_manager split: option.splits)
  moreover obtain e where "open_site_file flt now f = (Some e, f)"
    using open_registry_as_site [OF f(2), of flt now] by (cases "open_site_file flt now f") auto
  ultimately have "dir_get flt now ''registry'' d = (Inl Open_failed, d) \<or>
      dir_get flt now ''registry'' d =
        (Inl Open_failed, d\<lparr>dd_Files := (dd_Files d)(manager_path (dd_Path d) ''registry'' \<mapsto> f)\<rparr>)"
    using registry_entry(2) by (auto simp: dir_get_def Let_def split: site_open_error.split open_error.split)
  then show "fst (dir_get flt now ''registry'' d) = Inl Open_failed"
    "dd_Files (snd (dir_get flt now ''registry'' d)) = dd_Files d" using f(1) by (auto simp: fun_upd_idem)
qed

text \<open>
  C19: the manager of the model is the manager on files, for every site id but one.  Opening and
  deleting a site through the directory returns what the map of site databases returns and
  leaves the directory that the map then stands for, whatever fails on the way, and never
  touches the registry or another site.  The exception is the id \<open>registry\<close>, which passes every
  check: its file is that of the registry, so the site can never be opened, and deleting
  its data deletes the registry.
\<close>

theorem manager_refined_by_files:
  assumes "dir_inv d"
  shows "let (got, d1) = dir_get flt now i d; (err, d2) = dir_delete rm i d in
    if own_id i then
      manager_get (\<lambda>_. is_err got) now i (manager_of d) = (case got of Inl e \<Rightarrow> Inl e | Inr f \<Rightarrow> Inr (the (load_site f)), manager_of d1) \<and>
      manager_delete rm i (manager_of d) = (err, manager_of d2) \<and> dir_inv d1 \<and> dir_inv d2 \<and>
      dd_Files d2 (registry_path (dd_Path d)) = dd_Files d (registry_path (dd_Path d))
    else if i = ''registry'' then
      is_slug i \<and> safe_id i \<and> got = Inl Open_failed \<and> dd_Files d1 = dd_Files d \<and>
      (if rm [] then True else dd_Files d2 (registry_path (dd_Path d)) = None)
    else got = Inl Invalid_site_id \<and> err = Some Invalid_site_id \<and> d1 = d \<and> d2 = d"
proof (cases "own_id i")
  case True
  with dir_get_simulates [OF assms True, of flt now] dir_delete_simulates [OF assms True, of rm] show ?thesis
    by (simp add: Let_def split_beta)
next
  case False
  show ?thesis
  proof (cases "i = ''registry''")
    case True
    have "is_slug ''registry''" by code_simp
    with dir_get_registry [OF assms, of flt now] dir_delete_files [OF registry_entry(2) registry_entry(2), of rm d] show ?thesis
      using registry_entry(2) by (simp add: True own_id_def registry_path_manager Let_def split_beta)
  next
    case False
    with \<open>\<not> own_id i\<close> show ?thesis by (simp add: own_id_def dir_get_def dir_delete_def)
  qed
qed

definition new_data_dir :: data_dir where
  "new_data_dir = \<lparr>dd_Path = ''data'', dd_Files = [registry_path ''data'' \<mapsto> registry_schema], dd_Cache = {}\<rparr>"

theorem manager_refined_by_files_witness:
  "dd_Files new_data_dir (registry_path ''data'') = Some registry_schema \<and>
   dd_Files (snd (dir_delete (\<lambda>_. False) ''registry'' new_data_dir)) (registry_path ''data'') = None"
proof -
  have "registry_file registry_schema" by code_simp
  moreover have "own_id i \<Longrightarrow> entry_ok (dd_Files new_data_dir (manager_path ''data'' i)) (i \<in> dd_Cache new_data_dir)" for i
    using own_path [of i "''data''"] by (simp add: new_data_dir_def)
  ultimately have "dir_inv new_data_dir" by (simp add: dir_inv_def) (simp add: new_data_dir_def)
  from manager_refined_by_files [OF this, of "\<lambda>_. False" 0 "''registry''" "\<lambda>_. False"] show ?thesis
    by (simp add: own_id_def Let_def split_beta new_data_dir_def)
qed

end
