(* ===== verification/Command.thy ===== *)
theory Command
  imports DataDir Accounts Startup Fetch Process
begin

section \<open>The command line and the whole start (cmd/monitor: main.go, adminuser.go)\<close>

text \<open>
  \<open>main\<close> turns flags and environment into options and hands them to \<open>run\<close>, which opens the data
  directory and the registry, then either sets a password and exits or builds the service.  The
  values of the flags that were given are taken as parsed by the standard library.
\<close>

subsection \<open>Flags\<close>

record given_flags =
  gf_Data :: "string option"
  gf_Addr :: "string option"
  gf_APIKey :: "string option"
  gf_RequestTimeout :: "int option"
  gf_Seed :: "string option"
  gf_BlockPrivate :: "bool option"
  gf_CorsOrigins :: "string option"
  gf_LegacyRoutes :: "bool option"
  gf_SetPassword :: "string option"
  gf_RealIPHeader :: "string option"

definition env_or :: "(string \<Rightarrow> string) \<Rightarrow> string \<Rightarrow> string \<Rightarrow> string" where
  "env_or getenv key def = (let v = getenv key in if v \<noteq> [] then v else def)"

definition flag :: "'a option \<Rightarrow> 'a \<Rightarrow> 'a" where
  "flag given def = (case given of None \<Rightarrow> def | Some v \<Rightarrow> v)"

definition main_opts :: "(string \<Rightarrow> string) \<Rightarrow> given_flags \<Rightarrow> run_opts" where
  "main_opts getenv g =
     \<lparr>ro_DataDir = flag (gf_Data g) ''./data'',
      ro_Addr = flag (gf_Addr g) '':8080'',
      ro_APIKey = flag (gf_APIKey g) (env_or getenv ''UPTIME_API_KEY'' []),
      ro_ReqTimeout = flag (gf_RequestTimeout g) (15 * 10 ^ 9),
      ro_SeedPath = flag (gf_Seed g) [],
      ro_BlockPriv = flag (gf_BlockPrivate g) False,
      ro_CorsOrigins = split_origins (flag (gf_CorsOrigins g) ''https://portal.pinkcrab.co.uk''),
      ro_LegacyRoutes = flag (gf_LegacyRoutes g) True,
      ro_SetPwUser = flag (gf_SetPassword g) [],
      ro_RealIPHeader = flag (gf_RealIPHeader g) []\<rparr>"

subsection \<open>Reading a password\<close>

text \<open>Standard input is a terminal, whose lines are read without echo or fail, or the text of a pipe.\<close>

datatype stdin = Terminal "string option list" | Piped string

abbreviation newline :: char where "newline \<equiv> CHR 0x0A"

definition blank :: "char \<Rightarrow> bool" where
  "blank c \<longleftrightarrow> is_space c \<and> c \<noteq> newline"

text \<open>\<open>fmt.Fscanln\<close> into one string: a token, then nothing but blanks up to the end of the line.\<close>

definition fscanln :: "string \<Rightarrow> string option \<times> string" where
  "fscanln s =
     (let s = dropWhile blank s in
      if s = [] \<or> hd s = newline then (None, drop 1 s)
      else
        let tok = takeWhile (\<lambda>c. \<not> is_space c) s; rest = dropWhile blank (dropWhile (\<lambda>c. \<not> is_space c) s)
        in if rest = [] \<or> hd rest = newline then (Some tok, drop 1 rest) else (None, rest))"

fun read_secret :: "stdin \<Rightarrow> string option \<times> stdin" where
  "read_secret (Terminal []) = (None, Terminal [])"
| "read_secret (Terminal (l # ls)) = (l, Terminal ls)"
| "read_secret (Piped s) = (let (l, rest) = fscanln s in (l, Piped rest))"

definition set_password_prompt :: "(boot_call \<Rightarrow> bool) \<Rightarrow> (password_stmt \<Rightarrow> bool) \<Rightarrow> (string \<Rightarrow> nat \<Rightarrow> string option) \<Rightarrow>
    unix \<Rightarrow> string \<Rightarrow> stdin \<Rightarrow> registry \<Rightarrow> boot_error option \<times> registry" where
  "set_password_prompt bf flt bcrypt now username input db =
     (let (pw1, input) = read_secret input; (pw2, input) = read_secret input
      in set_password bf flt bcrypt now username pw1 pw2 db)"

text \<open>The words of a line.\<close>

function words_of :: "string \<Rightarrow> string list" where
  "words_of s = (let s = dropWhile is_space s in
     if s = [] then [] else takeWhile (\<lambda>c. \<not> is_space c) s # words_of (dropWhile (\<lambda>c. \<not> is_space c) s))"
  by pat_completeness auto
termination
proof (relation "measure length", simp)
  fix s t :: string
  assume t: "t = dropWhile is_space s" "t \<noteq> []"
  then have "\<not> is_space (hd t)" by (simp add: hd_dropWhile)
  with t(2) have "length (dropWhile (\<lambda>c. \<not> is_space c) t) < length t"
    by (cases t) (simp_all add: le_imp_less_Suc length_dropWhile_le)
  also have "length t \<le> length s" by (simp add: t(1) length_dropWhile_le)
  finally show "(dropWhile (\<lambda>c. \<not> is_space c) t, s) \<in> measure length" by simp
qed

declare words_of.simps [simp del]

text \<open>A line ends before a newline, and a newline is white space but not blank.\<close>

definition line_of :: "string \<Rightarrow> string" where
  "line_of s = takeWhile (\<lambda>c. c \<noteq> newline) s"

lemma newline_space: "is_space newline" "\<not> blank newline" "blank c \<Longrightarrow> c \<noteq> newline" "\<not> is_space c \<Longrightarrow> c \<noteq> newline"
proof -
  have b: "byte newline = 10" by (simp add: byte_def)
  show "is_space newline" "\<not> blank newline" "blank c \<Longrightarrow> c \<noteq> newline" "\<not> is_space c \<Longrightarrow> c \<noteq> newline"
    by (auto simp: is_space_def blank_def b)
qed

lemma line_of_simps [simp]: "line_of [] = []" "line_of (c # s) = (if c = newline then [] else c # line_of s)"
  by (simp_all add: line_of_def)

lemma line_of_empty: "line_of s = [] \<longleftrightarrow> s = [] \<or> hd s = newline"
  by (cases s) auto

lemma line_of_blanks: "line_of (dropWhile blank s) = dropWhile is_space (line_of s)"
  by (induction s) (auto simp: newline_space blank_def)

lemma line_of_token:
  "takeWhile (\<lambda>c. \<not> is_space c) (line_of s) = takeWhile (\<lambda>c. \<not> is_space c) s"
  "dropWhile (\<lambda>c. \<not> is_space c) (line_of s) = line_of (dropWhile (\<lambda>c. \<not> is_space c) s)"
  by (induction s) (auto simp: newline_space)

lemma dropWhile_longer: "(\<And>c. P c \<Longrightarrow> Q c) \<Longrightarrow> dropWhile Q (dropWhile P s) = dropWhile Q s"
  by (induction s) auto

lemma dropWhile_stops: "s = [] \<or> hd s = newline \<Longrightarrow> dropWhile (\<lambda>c. c \<noteq> newline) s = s"
  by (cases s) auto

lemma words_of_empty: "words_of t = [] \<longleftrightarrow> dropWhile is_space t = []"
  by (subst words_of.simps) (simp add: Let_def)

lemma fscanln_words:
  "fst (fscanln s) = (case words_of (line_of s) of [w] \<Rightarrow> Some w | _ \<Rightarrow> None)"
  "fst (fscanln s) \<noteq> None \<Longrightarrow> snd (fscanln s) = drop 1 (dropWhile (\<lambda>c. c \<noteq> newline) s)"
proof -
  define u where "u = dropWhile blank s"
  define tok where "tok = takeWhile (\<lambda>c. \<not> is_space c) u"
  define more where "more = dropWhile (\<lambda>c. \<not> is_space c) u"
  define rest where "rest = dropWhile blank more"
  have scan: "fscanln s = (if line_of u = [] then (None, drop 1 u)
      else if line_of rest = [] then (Some tok, drop 1 rest) else (None, rest))"
    by (simp only: fscanln_def Let_def u_def tok_def more_def rest_def line_of_empty)
  have u: "dropWhile is_space (line_of s) = line_of u" by (simp add: u_def line_of_blanks)
  have rest: "dropWhile is_space (line_of more) = line_of rest" by (simp add: rest_def line_of_blanks)
  have words: "words_of (line_of s) = (if line_of u = [] then [] else tok # words_of (line_of more))"
    by (subst words_of.simps) (simp add: u line_of_token Let_def tok_def more_def)
  show "fst (fscanln s) = (case words_of (line_of s) of [w] \<Rightarrow> Some w | _ \<Rightarrow> None)"
    using words_of_empty [of "line_of more"] by (auto simp: scan words rest split: list.split)
  assume "fst (fscanln s) \<noteq> None"
  then have end_: "line_of rest = []" "snd (fscanln s) = drop 1 rest" by (auto simp: scan split: if_splits)
  have "dropWhile (\<lambda>c. c \<noteq> newline) rest = dropWhile (\<lambda>c. c \<noteq> newline) s"
    by (simp add: rest_def more_def u_def dropWhile_longer newline_space)
  moreover have "dropWhile (\<lambda>c. c \<noteq> newline) rest = rest" using end_(1) by (simp only: line_of_empty dropWhile_stops)
  ultimately show "snd (fscanln s) = drop 1 (dropWhile (\<lambda>c. c \<noteq> newline) s)" by (simp only: end_(2))
qed

text \<open>
  C38: what \<open>-set-password\<close> reads.  From a terminal it is the whole line.  From a pipe it is the line's
  only word: leading and trailing white space is not part of the password, and a line with no
  word or with two, such as a pass phrase with blanks, is refused and changes nothing.  The first
  line read leaves the input at the next one.
\<close>

theorem piped_password_is_one_word:
  "let (pw, input) = read_secret (Piped s) in
     pw = (case words_of (line_of s) of [w] \<Rightarrow> Some w | _ \<Rightarrow> None) \<and>
     (if pw = None then set_password_prompt bf flt bcrypt now username (Piped s) db = (Some Secret_unreadable, db)
      else input = Piped (drop 1 (dropWhile (\<lambda>c. c \<noteq> newline) s))) \<and>
     fst (read_secret (Terminal (l # ls))) = l"
proof -
  obtain pw rest where f: "fscanln s = (pw, rest)" by fastforce
  with fscanln_words [of s] show ?thesis
    by (auto simp: Let_def set_password_prompt_def set_password_def split_beta)
qed

lemma pass_phrase_refused:
  "set_password_prompt bf flt bcrypt now username (Piped ''correct horse battery'') db = (Some Secret_unreadable, db)"
proof -
  have "fst (read_secret (Piped ''correct horse battery'')) = None" by code_simp
  then show ?thesis by (simp add: set_password_prompt_def set_password_def split_beta)
qed

subsection \<open>run\<close>

text \<open>
  What \<open>run\<close> depends on besides its options: which of its calls fail, what is in the environment, in
  files, on standard input and in the clock, bcrypt and the JSON parser of the registry's columns.
\<close>

record host =
  ho_MkdirFails :: bool
  ho_Open :: "open_call \<Rightarrow> bool"
  ho_Boot :: "boot_call \<Rightarrow> bool"
  ho_Password :: "password_stmt \<Rightarrow> bool"
  ho_Broken :: "string \<Rightarrow> bool"
  ho_Bcrypt :: "string \<Rightarrow> nat \<Rightarrow> string option"
  ho_Getenv :: "string \<Rightarrow> string"
  ho_Readf :: "string \<Rightarrow> json option"
  ho_Unmarshal :: "string \<Rightarrow> json option"
  ho_Now :: unix
  ho_Stdin :: stdin

datatype run_error = Data_dir_failed | Registry_failed open_error | Boot boot_error

text \<open>A registry with a row that its scanner refuses has no record, and \<open>run\<close> is not followed into it.\<close>

datatype outcome = Failed run_error | Unscannable | Password_set | Serves server process runner

definition open_registry_at :: "(open_call \<Rightarrow> bool) \<Rightarrow> string \<Rightarrow> (string \<rightharpoonup> sql_db) \<Rightarrow> open_error option \<times> (string \<rightharpoonup> sql_db)" where
  "open_registry_at flt dir disk =
     (let path = registry_path dir;
          (e, file) = open_registry flt (case disk path of None \<Rightarrow> fresh_db | Some f \<Rightarrow> f)
      in (e, disk(path \<mapsto> file)))"

definition default_options :: options where
  "default_options = \<lparr>op_QueueSize = 0, op_Workers = 0, op_SendTimeout = 0, op_Retries = 0, op_RetryDelay = 0\<rparr>"

text \<open>The files as opening leaves them, and the contents of the registry when it has been opened.\<close>

definition run :: "host \<Rightarrow> run_opts \<Rightarrow> (string \<rightharpoonup> sql_db) \<Rightarrow> outcome \<times> (string \<rightharpoonup> sql_db) \<times> registry option" where
  "run h opts disk =
     (if ho_MkdirFails h then (Failed Data_dir_failed, disk, None)
      else
        case open_registry_at (ho_Open h) (ro_DataDir opts) disk of
          (Some e, disk) \<Rightarrow> (Failed (Registry_failed e), disk, None)
        | (None, disk) \<Rightarrow>
            (case Option.bind (disk (registry_path (ro_DataDir opts))) (load_registry (ho_Unmarshal h)) of
               None \<Rightarrow> (Unscannable, disk, None)
             | Some db \<Rightarrow>
                 if ro_SetPwUser opts \<noteq> [] then
                   (case set_password_prompt (ho_Boot h) (ho_Password h) (ho_Bcrypt h) (ho_Now h) (ro_SetPwUser opts) (ho_Stdin h) db of
                      (Some e, db) \<Rightarrow> (Failed (Boot e), disk, Some db)
                    | (None, db) \<Rightarrow> (Password_set, disk, Some db))
                 else
                   let stores = manager_of \<lparr>dd_Path = ro_DataDir opts, dd_Files = disk, dd_Cache = {}\<rparr> in
                   (case startup (ho_Boot h) (ho_Broken h) (ho_Bcrypt h) (ho_Getenv h) (ho_Readf h) (ho_Now h) opts db stores of
                      (Inl e, db, _) \<Rightarrow> (Failed (Boot e), disk, Some db)
                    | (Inr s, db, _) \<Rightarrow>
                        (Serves s (start_process default_options db (registry_list db))
                           (new_runner (ro_ReqTimeout opts) (ro_BlockPriv opts)), disk, Some db))))"

subsection \<open>Starting again\<close>

text \<open>Starts that were cut off while they opened the registry.\<close>

definition after_crashes :: "string \<Rightarrow> (open_call \<Rightarrow> bool) list \<Rightarrow> (string \<rightharpoonup> sql_db) \<Rightarrow> (string \<rightharpoonup> sql_db)" where
  "after_crashes dir crashes disk = foldl (\<lambda>disk flt. snd (open_registry_at flt dir disk)) disk crashes"

lemma open_registry_at_file:
  assumes "disk (registry_path dir) = Some file"
  shows "open_registry_at flt dir disk = (fst (open_registry flt file), disk(registry_path dir \<mapsto> snd (open_registry flt file)))"
  by (simp add: open_registry_at_def assms split_beta)

lemma open_registry_calm:
  "open_registry (\<lambda>_. False) file =
     (map_option Migrations_failed (fst (apply_migrations no_fault registry_migrations file)),
      snd (apply_migrations no_fault registry_migrations file))"
  by (simp add: open_registry_def open_sqlite_def split: prod.split option.split)

lemma open_registry_step:
  obtains "snd (open_registry flt file) = file"
  | "snd (open_registry flt file) = snd (apply_migrations (\<lambda>c. flt (Migrate_db c)) registry_migrations file)"
  by (cases "open_sqlite flt") (auto simp: open_registry_def split: prod.splits option.splits)

lemma open_registry_again: "open_registry (\<lambda>_. False) (snd (open_registry flt file)) = open_registry (\<lambda>_. False) file"
  by (rule open_registry_step [of flt "file"]) (simp_all only: open_registry_calm apply_resume [OF histories_increasing(1)])

lemma after_crashes_file:
  assumes "disk (registry_path dir) = Some file"
  obtains file' where "after_crashes dir crashes disk = disk(registry_path dir \<mapsto> file')"
    "open_registry (\<lambda>_. False) file' = open_registry (\<lambda>_. False) file"
proof -
  have "\<exists>file'. after_crashes dir crashes disk = disk(registry_path dir \<mapsto> file') \<and>
      open_registry (\<lambda>_. False) file' = open_registry (\<lambda>_. False) file"
    using assms
  proof (induction crashes arbitrary: disk "file")
    case Nil
    then have "disk(registry_path dir \<mapsto> file) = disk" by (simp add: fun_upd_idem)
    then show ?case by (metis after_crashes_def foldl_Nil)
  next
    case (Cons flt crashes)
    let ?file = "snd (open_registry flt file)"
    have step: "after_crashes dir (flt # crashes) disk = after_crashes dir crashes (disk(registry_path dir \<mapsto> ?file))"
      by (simp add: after_crashes_def open_registry_at_file [where disk = disk, OF Cons.prems])
    have "(disk(registry_path dir \<mapsto> ?file)) (registry_path dir) = Some ?file" by (rule fun_upd_same)
    from Cons.IH [where disk = "disk(registry_path dir \<mapsto> ?file)", OF this] obtain file'
      where "after_crashes dir crashes (disk(registry_path dir \<mapsto> ?file)) = disk(registry_path dir \<mapsto> ?file, registry_path dir \<mapsto> file')"
        "open_registry (\<lambda>_. False) file' = open_registry (\<lambda>_. False) ?file" by blast
    then show ?case unfolding step fun_upd_upd open_registry_again by blast
  qed
  with that show thesis by blast
qed

text \<open>Whether the service has a credential to start with: a key, an account, or one from the environment.\<close>

definition can_sign_in :: "host \<Rightarrow> run_opts \<Rightarrow> registry \<Rightarrow> bool" where
  "can_sign_in h opts db \<longleftrightarrow> admin_user_count db > 0 \<or>
     (let user = trim_space (ho_Getenv h ''UPTIME_ADMIN_USER''); pass = ho_Getenv h ''UPTIME_ADMIN_PASSWORD'' in
      if user = [] \<or> pass = [] then ro_APIKey opts \<noteq> [] else \<not> is_err (hash_password (ho_Bcrypt h) pass))"

lemma seed_admin_user_signs_in:
  assumes "can_sign_in h opts db"
  obtains has db' where "seed_admin_user (\<lambda>_. False) (ho_Bcrypt h) (ho_Getenv h) now db = (Inr has, db')"
    "ro_APIKey opts = [] \<longrightarrow> has"
proof -
  have "tbl_has au_Username u (rg_Users db) = False" if "admin_user_count db = 0" for u
    using that by (simp add: admin_user_count_def tbl_has_def)
  then have "\<exists>has db'. seed_admin_user (\<lambda>_. False) (ho_Bcrypt h) (ho_Getenv h) now db = (Inr has, db') \<and> (ro_APIKey opts = [] \<longrightarrow> has)"
    using assms
    by (auto simp: can_sign_in_def seed_admin_user_def create_admin_user_def admin_user_count_def Let_def split: sum.splits if_splits)
  with that show thesis by blast
qed

lemma startup_serves:
  assumes "can_sign_in h opts db" "ro_SeedPath opts = []" "reg_inv db" "config_ok db" "stores_inv m"
  obtains s db' where "startup (\<lambda>_. False) (ho_Broken h) (ho_Bcrypt h) (ho_Getenv h) (ho_Readf h) now opts db m = (Inr s, db', m)"
    "server_inv s" "srv_Reg s = db'" "srv_Stores s = m" "srv_Sched s = start_all (registry_list db') new_scheduler"
    "rg_Sites db' = rg_Sites db" "rg_Rules db' = rg_Rules db" "rg_Channels db' = rg_Channels db"
proof -
  obtain has db1 where seeded: "seed_admin_user (\<lambda>_. False) (ho_Bcrypt h) (ho_Getenv h) now db = (Inr has, db1)"
    "ro_APIKey opts = [] \<longrightarrow> has" by (rule seed_admin_user_signs_in [OF assms(1)])
  define db' where "db' = snd (purge_expired_sessions now db1)"
  let ?s = "(new_server db' m (start_all (registry_list db') new_scheduler) (ro_APIKey opts) (ro_CorsOrigins opts))
     \<lparr>srv_LegacyRoutes := ro_LegacyRoutes opts, srv_HasSender := True, srv_RealIPHeader := ro_RealIPHeader opts\<rparr>"
  have st: "startup (\<lambda>_. False) (ho_Broken h) (ho_Bcrypt h) (ho_Getenv h) (ho_Readf h) now opts db m = (Inr ?s, db', m)"
    using seeded assms(2) by (auto simp: startup_def with_defs Let_def db'_def)
  have kept: "rg_Sites db1 = rg_Sites db \<and> rg_Rules db1 = rg_Rules db \<and> rg_Channels db1 = rg_Channels db"
    using seed_admin_user_outcome(4) [OF seeded(1)] create_user_kept(1-3) [of now _ _ db _ db1] by blast
  show thesis
    by (rule that [OF st startup_inv [OF st assms(3-5)]])
      (simp_all add: new_server_def db'_def purge_kept kept)
qed

text \<open>
  C18: the service comes back.  However often starts were cut off while they opened the
  registry, the next undisturbed one serves, if the registry can be upgraded at all and there is
  a credential: with the sites, rules and channels it had, checking exactly the enabled sites,
  over the site files that are on disk, with the target guard as the flag says.
\<close>

theorem restarts_resume_service:
  assumes "disk (registry_path (ro_DataDir opts)) = Some file" "well_formed file"
    and "load_registry (ho_Unmarshal h) file = Some db" "reg_inv db" "config_ok db"
    and "fst (open_registry (\<lambda>_. False) file) = None" "can_sign_in h opts db"
    and "\<not> ho_MkdirFails h" "ho_Open h = (\<lambda>_. False)" "ho_Boot h = (\<lambda>_. False)"
    and "ro_SetPwUser opts = []" "ro_SeedPath opts = []"
  shows "case fst (run h opts (after_crashes (ro_DataDir opts) crashes disk)) of
      Serves s p rn \<Rightarrow> server_inv s \<and> rg_Sites (srv_Reg s) = rg_Sites db \<and> rg_Rules (srv_Reg s) = rg_Rules db \<and>
        rg_Channels (srv_Reg s) = rg_Channels db \<and> running (srv_Sched s) = enabled_sites db \<and> pr_Sched p = srv_Sched s \<and>
        srv_Stores s = manager_of \<lparr>dd_Path = ro_DataDir opts, dd_Files = disk, dd_Cache = {}\<rparr> \<and>
        rn_BlockPrivate rn = ro_BlockPriv opts
    | _ \<Rightarrow> False"
proof -
  let ?path = "registry_path (ro_DataDir opts)"
  obtain file' where crashed: "after_crashes (ro_DataDir opts) crashes disk = disk(?path \<mapsto> file')"
    "open_registry (\<lambda>_. False) file' = open_registry (\<lambda>_. False) file"
    by (rule after_crashes_file [where disk = disk, OF assms(1)])
  let ?new = "snd (open_registry (\<lambda>_. False) file)" and ?m = "manager_of \<lparr>dd_Path = ro_DataDir opts, dd_Files = disk, dd_Cache = {}\<rparr>"
  have opened: "open_registry_at (\<lambda>_. False) (ro_DataDir opts) (disk(?path \<mapsto> file')) = (None, disk(?path \<mapsto> ?new))"
    by (simp add: open_registry_at_def crashed(2) assms(6) split_beta)
  have loaded: "load_registry (ho_Unmarshal h) ?new = Some db"
    using upgrades_keep(1) [OF assms(2), of "ho_Unmarshal h" no_fault] by (simp add: open_registry_calm assms(3))
  have stores: "manager_of \<lparr>dd_Path = ro_DataDir opts, dd_Files = disk(?path \<mapsto> ?new), dd_Cache = {}\<rparr> = ?m"
    by (simp add: manager_of_def site_of_def own_path fun_eq_iff)
  have "stores_inv ?m" by (simp add: stores_inv_def manager_of_def)
  from startup_serves [OF assms(7,12,4,5) this, of "ho_Now h"] obtain s db'
    where s: "startup (\<lambda>_. False) (ho_Broken h) (ho_Bcrypt h) (ho_Getenv h) (ho_Readf h) (ho_Now h) opts db ?m = (Inr s, db', ?m)"
      "server_inv s" "srv_Reg s = db'" "srv_Stores s = ?m" "srv_Sched s = start_all (registry_list db') new_scheduler"
      "rg_Sites db' = rg_Sites db" "rg_Rules db' = rg_Rules db" "rg_Channels db' = rg_Channels db" by metis
  have "running (srv_Sched s) = enabled_sites db"
    using s(2) by (simp add: server_inv_def s(3,6) enabled_sites_def site_lookup_def fun_eq_iff)
  moreover have "pr_Sched (start_process default_options db' (registry_list db')) = srv_Sched s"
    by (simp add: start_process_def new_dispatcher_def s(5) Let_def)
  ultimately show ?thesis
    by (simp add: run_def crashed(1) assms(8-11) opened loaded stores s new_runner_def)
qed

text \<open>A registry from before the migrations, whose upgrade is cut off at a commit.\<close>

definition example_disk :: "string \<rightharpoonup> sql_db" where
  "example_disk = [registry_path ''data'' \<mapsto> legacy_registry [old_site_row]]"

definition example_host :: host where
  "example_host = \<lparr>ho_MkdirFails = False, ho_Open = \<lambda>_. False, ho_Boot = \<lambda>_. False, ho_Password = \<lambda>_. False, ho_Broken = \<lambda>_. False,
     ho_Bcrypt = \<lambda>p c. Some p, ho_Getenv = \<lambda>_. [], ho_Readf = \<lambda>_. None, ho_Unmarshal = \<lambda>_. Some (J_obj []), ho_Now = 0, ho_Stdin = Piped []\<rparr>"

definition example_flags :: given_flags where
  "example_flags = \<lparr>gf_Data = Some ''data'', gf_Addr = None, gf_APIKey = Some ''k'', gf_RequestTimeout = None, gf_Seed = None,
     gf_BlockPrivate = Some True, gf_CorsOrigins = None, gf_LegacyRoutes = None, gf_SetPassword = None, gf_RealIPHeader = None\<rparr>"

theorem restarts_resume_service_witness:
  "let opts = main_opts (\<lambda>_. []) example_flags in
   case fst (run example_host opts (after_crashes ''data'' [\<lambda>c. c = Migrate_db (Commit_tx 3)] example_disk)) of
     Serves s p rn \<Rightarrow> map sc_ID (rg_Sites (srv_Reg s)) = [''shop''] \<and> rn_BlockPrivate rn
   | _ \<Rightarrow> False"
proof -
  let ?opts = "main_opts (\<lambda>_. []) example_flags" and ?file = "legacy_registry [old_site_row]"
  have opts: "ro_DataDir ?opts = ''data''" "ro_APIKey ?opts = ''k''" "ro_SetPwUser ?opts = []" "ro_SeedPath ?opts = []" "ro_BlockPriv ?opts"
    by (simp_all add: main_opts_def flag_def example_flags_def)
  have "case load_registry (ho_Unmarshal example_host) ?file of None \<Rightarrow> False
    | Some db \<Rightarrow> config_ok db \<and> map sc_ID (rg_Sites db) = [''shop''] \<and> db = empty_registry\<lparr>rg_Sites := rg_Sites db\<rparr>"
    by code_simp
  then obtain db where db: "load_registry (ho_Unmarshal example_host) ?file = Some db" "config_ok db"
    "map sc_ID (rg_Sites db) = [''shop'']" "db = empty_registry\<lparr>rg_Sites := rg_Sites db\<rparr>" by (auto split: option.splits)
  have inv: "reg_inv db"
    using db(3) by (subst db(4)) (auto simp: reg_inv_def empty_registry_def unique_by_def)
  have wf: "well_formed ?file" by (simp add: well_formed_def legacy_registry_def fresh_db_def old_site_row_def column_defs)
  have up: "fst (open_registry (\<lambda>_. False) ?file) = None" by code_simp
  have disk: "example_disk (registry_path (ro_DataDir ?opts)) = Some ?file" by (simp add: example_disk_def opts)
  have cred: "can_sign_in example_host ?opts db" by (simp add: can_sign_in_def opts example_host_def trim_space_def)
  have host: "\<not> ho_MkdirFails example_host" "ho_Open example_host = (\<lambda>_. False)" "ho_Boot example_host = (\<lambda>_. False)"
    by (simp_all add: example_host_def)
  from restarts_resume_service [where disk = example_disk, OF disk wf db(1) inv db(2) up cred host opts(3,4),
      of "[\<lambda>c. c = Migrate_db (Commit_tx 3)]"]
  show ?thesis by (simp add: opts db(3) split: outcome.splits)
qed

subsection \<open>The name of the registry\<close>

text \<open>
  The API accepts a site named \<open>Registry\<close>: its slug is \<open>registry\<close>, which passes validation, so the site is
  created, and a DELETE that purges its data is answered as done.  On the directory that purge
  removes the registry (\<open>manager_refined_by_files\<close>).
\<close>

definition registry_site :: request where
  "registry_site = demo_request ''POST'' ''/api/sites'' (J_obj [(''name'', J_str ''Registry''), (''url'', J_str ''https://shop.test'')])"

definition registry_purge :: request where
  "registry_purge = (demo_request ''DELETE'' ''/api/sites/registry'' J_null)\<lparr>rq_Query := [(''purge'', ''true'')]\<rparr>"

lemma registry_site_accepted:
  "let (r, s) = serve demo_env registry_site demo_server; (r', s') = serve demo_env registry_purge s in
   rs_Status r = 201 \<and> map sc_ID (rg_Sites (srv_Reg s)) = [''registry''] \<and> rs_Status r' = 204"
  by code_simp

end
