(* ===== verification/Service.thy ===== *)
theory Service
  imports SiteLife Command
begin

section \<open>The whole service at work\<close>

text \<open>
  The state after the start with everything that acts on it: requests through \<open>serve\<close>, the loops with
  their ticks, and the workers of the dispatcher, over one registry and one set of site
  files, in any order.  A request, a tick and the handling of an event are each one act here; \<open>Races\<close>
  and \<open>Process\<close> take them apart and follow the shutdown.
\<close>

subsection \<open>State and acts\<close>

record service =
  sv_Server :: server
  sv_Queue :: "event alert_queue"
  sv_Workers :: "worker list"
  sv_Sends :: "send_call list"

definition service_of :: "server \<Rightarrow> process \<Rightarrow> service" where
  "service_of s p = \<lparr>sv_Server = s, sv_Queue = pr_Queue p, sv_Workers = pr_Workers p, sv_Sends = []\<rparr>"

text \<open>The dispatcher works on the registry of the server.\<close>

definition dispatcher_of :: "service \<Rightarrow> dispatcher" where
  "dispatcher_of v = \<lparr>dp_Registry = srv_Reg (sv_Server v), dp_Sends = sv_Sends v\<rparr>"

definition update_loop :: "nat \<Rightarrow> (loop \<Rightarrow> loop) \<Rightarrow> server \<Rightarrow> server" where
  "update_loop i f s = s\<lparr>srv_Sched := (srv_Sched s)\<lparr>sh_Loops := (sh_Loops (srv_Sched s))[i := f (sh_Loops (srv_Sched s) ! i)]\<rparr>\<rparr>"

text \<open>
  The end of a tick.  A store that a delete has closed refuses the transaction; after a commit the hook
  queues the transition, and nothing else is told of it.
\<close>

definition end_check :: "site_config \<Rightarrow> (bool \<Rightarrow> tick) \<Rightarrow> bool \<Rightarrow> (tick_stmt \<Rightarrow> bool) \<Rightarrow> unix \<Rightarrow> service \<Rightarrow> service" where
  "end_check site check runSlow flt clock v =
     (let s = sv_Server v; m = srv_Stores s; i = sc_ID site in
      case (if i \<in> sm_Cache m then sm_Files m i else None) of
        None \<Rightarrow> v
      | Some db \<Rightarrow>
          (case record_tick flt (check runSlow) db of
             (_, _, Some _) \<Rightarrow> v
           | (db', tr, None) \<Rightarrow>
               v\<lparr>sv_Server := s\<lparr>srv_Stores := m\<lparr>sm_Files := (sm_Files m)(i \<mapsto> db')\<rparr>\<rparr>,
                 sv_Queue := (case enqueue \<lparr>ev_Site = site, ev_Transition = tr, ev_At = clock\<rparr> (sv_Queue v) of
                     None \<Rightarrow> sv_Queue v | Some q \<Rightarrow> q)\<rparr>))"

text \<open>Whether the slow checks are due is the business of the loop (\<open>loop_tick\<close>), here either.\<close>

datatype act =
    Serve_request env request
  | Open_store nat "string \<Rightarrow> bool" unix
  | Begin_check nat
  | End_check nat network bool "tick_stmt \<Rightarrow> bool" unix
  | Leave_loop nat
  | Take_event nat
  | Handle_event nat surroundings

definition loop_at :: "nat \<Rightarrow> service \<Rightarrow> loop option" where
  "loop_at i v = (let ls = sh_Loops (srv_Sched (sv_Server v)) in if i < length ls then Some (ls ! i) else None)"

text \<open>An act that is not possible changes nothing.\<close>

fun service_act :: "int \<Rightarrow> service \<Rightarrow> act \<Rightarrow> service" where
  "service_act retries v (Serve_request ev r) = v\<lparr>sv_Server := snd (serve ev r (sv_Server v))\<rparr>"
| "service_act retries v (Open_store i broken now) =
     (case loop_at i v of
        None \<Rightarrow> v
      | Some l \<Rightarrow> let s = sv_Server v in
          if lp_Returned l then v
          else v\<lparr>sv_Server := s\<lparr>srv_Stores := snd (manager_get broken now (sc_ID (lp_Site l)) (srv_Stores s))\<rparr>\<rparr>)"
| "service_act retries v (Begin_check i) =
     (case loop_at i v of
        None \<Rightarrow> v
      | Some l \<Rightarrow> if lp_Returned l \<or> lp_Checking l then v
          else v\<lparr>sv_Server := update_loop i (\<lambda>l. l\<lparr>lp_Checking := True\<rparr>) (sv_Server v)\<rparr>)"
| "service_act retries v (End_check i nw runSlow flt clock) =
     (case loop_at i v of
        None \<Rightarrow> v
      | Some l \<Rightarrow> if \<not> lp_Checking l then v
          else let v = end_check (lp_Site l) (run_tick nw (lp_Site l)) runSlow flt clock v in
            v\<lparr>sv_Server := update_loop i (\<lambda>l. l\<lparr>lp_Checking := False\<rparr>) (sv_Server v)\<rparr>)"
| "service_act retries v (Leave_loop i) =
     (case loop_at i v of
        None \<Rightarrow> v
      | Some l \<Rightarrow> if lp_Checking l then v
          else v\<lparr>sv_Server := update_loop i (\<lambda>l. l\<lparr>lp_Returned := True\<rparr>) (sv_Server v)\<rparr>)"
| "service_act retries v (Take_event w) =
     (if w < length (sv_Workers v) \<and> sv_Workers v ! w = Idle then
        (case receive (sv_Queue v) of
           None \<Rightarrow> v | Some (e, q) \<Rightarrow> v\<lparr>sv_Queue := q, sv_Workers := (sv_Workers v)[w := Handling e]\<rparr>)
      else v)"
| "service_act retries v (Handle_event w su) =
     (case (if w < length (sv_Workers v) then sv_Workers v ! w else Idle) of
        Handling e \<Rightarrow>
          let d = handle su retries (dispatcher_of v) e in
          v\<lparr>sv_Server := (sv_Server v)\<lparr>srv_Reg := dp_Registry d\<rparr>, sv_Sends := dp_Sends d,
            sv_Workers := (sv_Workers v)[w := Idle]\<rparr>
      | _ \<Rightarrow> v)"

subsection \<open>Files\<close>

text \<open>A site file is the history of the ticks committed to it.\<close>

definition histories :: "store_manager \<Rightarrow> bool" where
  "histories m \<longleftrightarrow> (\<forall>k f. sm_Files m k = Some f \<longrightarrow> (\<exists>now ts. f = history_db now ts))"

lemma histories_get: "histories m \<Longrightarrow> histories (snd (manager_get broken now i m))"
  by (auto simp: histories_def manager_get_def Let_def open_site_store_def intro: history_db_Nil [symmetric]
      split: option.splits if_splits)

lemma histories_delete: "histories m \<Longrightarrow> histories (snd (manager_delete rm i m))"
  by (auto simp: histories_def manager_delete_files split: if_splits)

lemma histories_overview: "histories m \<Longrightarrow> histories (snd (overview_loop fails broken now window since ss m))"
  by (induction ss arbitrary: m) (simp_all add: Let_def split_beta histories_get)

lemma histories_read_store: "histories (srv_Stores s) \<Longrightarrow> histories (srv_Stores (snd (read_store ev i query s)))"
  using histories_get [of "srv_Stores s" "ev_Broken ev" "now_unix ev" i]
  by (auto simp: read_store_def store_for_def split: sum.splits prod.splits)

lemma handler_histories:
  assumes "histories (srv_Stores s)"
  shows "histories (srv_Stores (snd (handler_of ev e i r s)))"
proof (cases "config_endpoint e")
  case True
  then consider "e = E_List_sites" | "e = E_Get_site" | "e = E_Create_site" | "e = E_Update_site" | "e = E_Delete_site"
    by (auto simp: config_endpoint_def)
  then show ?thesis
    using assms
    by cases (auto simp: site_handler_defs Let_def histories_get histories_delete split: sum.splits option.splits prod.splits)
next
  case False
  show ?thesis
  proof (cases "data_endpoint e")
    case True
    then show ?thesis
      using histories_read_store [OF assms] assms
      by (cases e) (auto simp: data_endpoint_def data_handler_defs Let_def split_beta overview_def histories_overview)
  next
    case d: False
    with False endpoint_groups [of e] alert_frame [of e s ev i r] account_frame [of e s ev i r] assms show ?thesis
      by (auto simp: alert_change_def account_change_def)
  qed
qed

lemma serve_histories: "histories (srv_Stores s) \<Longrightarrow> histories (srv_Stores (snd (serve ev r s)))"
  by (rule serve_frame [where R = "\<lambda>s s'. histories (srv_Stores s')"])
    (auto simp: session_change_def session_cleanup_def handler_histories)

lemma committed_tick_history:
  assumes "record_tick flt t (history_db now ts) = (db', tr, None)"
  shows "db' = history_db now (ts @ [t])" "tr = history_transition ts t"
  using record_tick_commit [OF assms] by (simp_all add: record_tick_history)

lemma histories_update: "histories m \<Longrightarrow> histories (m\<lparr>sm_Files := (sm_Files m)(i \<mapsto> history_db now ts)\<rparr>)"
  by (auto simp: histories_def)

subsection \<open>The ledger\<close>

lemma serve_ledger: "rg_Deliveries (srv_Reg (snd (serve ev r s))) = rg_Deliveries (srv_Reg s)"
proof (rule serve_frame [where R = "\<lambda>s s'. rg_Deliveries (srv_Reg s') = rg_Deliveries (srv_Reg s)"])
  have "rg_Deliveries (srv_Reg (snd (handler_of ev e pv r x))) = rg_Deliveries (srv_Reg x)" for e pv x
    using endpoint_groups [of e] data_frame [of e x ev pv r] alert_frame [of e x ev pv r]
      account_frame [of e x ev pv r] config_frame [of e x ev pv r]
    by (auto simp: stores_change_def alert_change_def account_change_def site_change_def)
  then show "rg_Deliveries (srv_Reg (snd (handler_of ev e pv r x))) = rg_Deliveries (srv_Reg s)"
    if "rg_Deliveries (srv_Reg x) = rg_Deliveries (srv_Reg s)" "endpoint_of s r = Some (e, pv)" for x e pv
    using that by simp
qed (auto simp: session_change_def session_cleanup_def)

text \<open>Handling an event keeps the registry's invariant and its configuration.\<close>

definition same_setup :: "registry \<Rightarrow> dispatcher \<Rightarrow> bool" where
  "same_setup db d \<longleftrightarrow> reg_inv (dp_Registry d) \<and> same_config db (dp_Registry d)"

lemma mark_config:
  "same_config db (mark_delivery_sent now i n db') = same_config db db'"
  "same_config db (mark_delivery_failed i n c db') = same_config db db'"
  by (simp_all add: same_config_def mark_delivery_sent_def mark_delivery_failed_def)

lemma deliver_setup: "same_setup db d \<Longrightarrow> same_setup db (deliver su retries i key ch msg d)"
  by (simp add: same_setup_def deliver_def Let_def split_beta mark_config mark_delivery_inv split: sum.split)

lemma apply_rule_setup: "same_setup db d \<Longrightarrow> same_setup db (apply_rule su retries e k d rule)"
proof -
  assume d: "same_setup db d"
  have "same_setup db (d\<lparr>dp_Registry := db'\<rparr>)" if "claim_delivery now c (dp_Registry d) = Inr (i, db')" for now c i db'
    using d claim_delivery_inv [of "dp_Registry d" now c] that
    by (auto simp: same_setup_def stored_def same_config_def claim_delivery_cases split: if_splits)
  with d show ?thesis by (auto simp: apply_rule_def deliver_setup split: sum.split option.split)
qed

interpretation rules_setup: stepping "apply_rule su retries e k" "same_setup db" for su retries e k db
  by unfold_locales (rule apply_rule_setup)

interpretation kinds_setup: stepping "handle_kind su retries e" "same_setup db" for su retries e db
  by unfold_locales (simp add: handle_kind_def rules_setup.run_inv)

lemma handle_setup: "same_setup db d \<Longrightarrow> same_setup db (handle su retries d e)"
  by (simp add: handle_def kinds_setup.run_inv)

lemma handle_disp_inv: "disp_inv retries d \<Longrightarrow> disp_inv retries (handle su retries d e)"
  by (simp add: handle_def kinds_run.run_inv)

subsection \<open>The invariant\<close>

definition queue_bounded :: "'e alert_queue \<Rightarrow> bool" where
  "queue_bounded q \<longleftrightarrow> 0 \<le> qu_Size q \<and> int (length (qu_Items q)) \<le> qu_Size q"

definition service_inv :: "int \<Rightarrow> service \<Rightarrow> bool" where
  "service_inv retries v \<longleftrightarrow> server_inv (sv_Server v) \<and> histories (srv_Stores (sv_Server v)) \<and>
     disp_inv retries (dispatcher_of v) \<and> queue_bounded (sv_Queue v)"

lemma server_inv_registry:
  "server_inv s \<Longrightarrow> same_setup (srv_Reg s) d \<Longrightarrow> server_inv (s\<lparr>srv_Reg := dp_Registry d\<rparr>)"
  by (auto simp: server_inv_def same_setup_def same_config_def config_ok_def enabled_sites_def site_lookup_def fun_eq_iff)

lemma running_update:
  assumes "\<And>l. lp_Site (f l) = lp_Site l"
  shows "running (s\<lparr>sh_Loops := (sh_Loops s)[i := f (sh_Loops s ! i)]\<rparr>) = running s"
proof
  fix k
  have "lp_Site ((sh_Loops s)[i := f (sh_Loops s ! i)] ! j) = lp_Site (sh_Loops s ! j)" for j
    using assms by (cases "j = i \<and> i < length (sh_Loops s)") (auto simp: nth_list_update list_update_beyond)
  then show "running (s\<lparr>sh_Loops := (sh_Loops s)[i := f (sh_Loops s ! i)]\<rparr>) k = running s k"
    by (simp add: running_def)
qed

lemma update_loop_inv:
  assumes "server_inv s" "\<And>l. lp_Site (f l) = lp_Site l" "\<And>l. lp_Cancelled (f l) = lp_Cancelled l"
  shows "server_inv (update_loop i f s)"
proof (cases "i < length (sh_Loops (srv_Sched s))")
  case True
  with loop_update_inv [of "srv_Sched s" i "f (sh_Loops (srv_Sched s) ! i)"] running_update [OF assms(2)] assms(1,3) assms(2)
  show ?thesis by (simp add: server_inv_def update_loop_def)
next
  case False
  with assms(1) show ?thesis by (simp add: update_loop_def list_update_beyond)
qed

lemma update_loop_simps [simp]:
  "srv_Reg (update_loop i f s) = srv_Reg s" "srv_Stores (update_loop i f s) = srv_Stores s"
  by (simp_all add: update_loop_def)

lemma dispatcher_of_cong:
  "srv_Reg (sv_Server v') = srv_Reg (sv_Server v) \<Longrightarrow> sv_Sends v' = sv_Sends v \<Longrightarrow> dispatcher_of v' = dispatcher_of v"
  by (simp add: dispatcher_of_def)

lemma server_inv_files: "server_inv s \<Longrightarrow> stores_inv m \<Longrightarrow> server_inv (s\<lparr>srv_Stores := m\<rparr>)"
  by (simp add: server_inv_def)

lemma enqueue_bounded: "queue_bounded q \<Longrightarrow> enqueue e q = Some q' \<Longrightarrow> queue_bounded q'"
  by (auto simp: queue_bounded_def enqueue_def split: if_splits)

lemma update_loop_service:
  assumes "service_inv retries v" "\<And>l. lp_Site (f l) = lp_Site l" "\<And>l. lp_Cancelled (f l) = lp_Cancelled l"
  shows "service_inv retries (v\<lparr>sv_Server := update_loop i f (sv_Server v)\<rparr>)"
  using assms update_loop_inv [OF _ assms(2,3), of "sv_Server v" i]
  by (simp add: service_inv_def dispatcher_of_def)

lemma end_check_inv:
  assumes "service_inv retries v"
  shows "service_inv retries (end_check site check runSlow flt clock v)"
proof (cases "if sc_ID site \<in> sm_Cache (srv_Stores (sv_Server v)) then sm_Files (srv_Stores (sv_Server v)) (sc_ID site) else None")
  case None
  with assms show ?thesis by (simp add: end_check_def Let_def)
next
  case found: (Some db)
  obtain db' tr err where r: "record_tick flt (check runSlow) db = (db', tr, err)" by (metis prod_cases3)
  show ?thesis
  proof (cases err)
    case (Some e)
    with assms found r show ?thesis by (simp add: end_check_def Let_def)
  next
    case None
    let ?s = "sv_Server v" and ?i = "sc_ID site"
    let ?m = "(srv_Stores ?s)\<lparr>sm_Files := (sm_Files (srv_Stores ?s))(?i \<mapsto> db')\<rparr>"
    have f: "sm_Files (srv_Stores ?s) ?i = Some db" using found by (simp split: if_splits)
    have "histories (srv_Stores ?s)" using assms by (simp add: service_inv_def)
    with f obtain now ts where "db = history_db now ts" unfolding histories_def by blast
    with r None have "db' = history_db now (ts @ [check runSlow])" using committed_tick_history(1) by blast
    with assms have h: "histories ?m" using histories_update by (simp add: service_inv_def)
    have "stores_inv ?m" using assms f by (auto simp: service_inv_def server_inv_def stores_inv_def)
    with assms have "server_inv (?s\<lparr>srv_Stores := ?m\<rparr>)" by (simp add: service_inv_def server_inv_files)
    with h assms found r None enqueue_bounded show ?thesis
      by (auto simp: end_check_def Let_def service_inv_def dispatcher_of_def split: option.split)
  qed
qed

lemma service_act_inv: "service_inv retries v \<Longrightarrow> service_inv retries (service_act retries v a)"
proof (cases a)
  case (Serve_request ev r)
  moreover assume inv: "service_inv retries v"
  moreover have "disp_inv retries (dispatcher_of (v\<lparr>sv_Server := snd (serve ev r (sv_Server v))\<rparr>))"
    using inv disp_inv_cong [of "dispatcher_of (v\<lparr>sv_Server := snd (serve ev r (sv_Server v))\<rparr>)" "dispatcher_of v"]
    by (simp add: service_inv_def dispatcher_of_def serve_ledger)
  ultimately show ?thesis by (simp add: service_inv_def serve_inv serve_histories)
next
  case (Open_store i broken now)
  moreover assume inv: "service_inv retries v"
  ultimately show ?thesis
    by (auto simp: service_inv_def dispatcher_of_def Let_def histories_get manager_get_inv server_inv_files server_inv_def
        split: option.split)
next
  case (End_check i nw runSlow flt clock)
  moreover assume "service_inv retries v"
  ultimately show ?thesis by (auto simp: Let_def update_loop_service end_check_inv split: option.split)
next
  case (Take_event w)
  moreover assume "service_inv retries v"
  ultimately show ?thesis
    by (auto simp: service_inv_def dispatcher_of_def receive_def queue_bounded_def split: option.split list.splits)
next
  case (Handle_event w su)
  assume inv: "service_inv retries v"
  have "service_inv retries (v\<lparr>sv_Server := (sv_Server v)\<lparr>srv_Reg := dp_Registry d\<rparr>, sv_Sends := dp_Sends d, sv_Workers := ws\<rparr>)"
    if "d = handle su retries (dispatcher_of v) e" for d e ws
  proof -
    have "same_setup (srv_Reg (sv_Server v)) (dispatcher_of v)"
      using inv by (simp add: same_setup_def dispatcher_of_def service_inv_def server_inv_def)
    then have "same_setup (srv_Reg (sv_Server v)) d" by (simp add: that handle_setup)
    moreover have "disp_inv retries \<lparr>dp_Registry = dp_Registry d, dp_Sends = dp_Sends d\<rparr>"
      using inv disp_inv_cong [of "\<lparr>dp_Registry = dp_Registry d, dp_Sends = dp_Sends d\<rparr>" d retries]
      by (simp add: that service_inv_def handle_disp_inv)
    ultimately show ?thesis
      using inv server_inv_registry [of "sv_Server v" d] by (simp add: service_inv_def dispatcher_of_def)
  qed
  with inv Handle_event show ?thesis by (auto simp: Let_def split: worker.split)
qed (auto simp: update_loop_service split: option.split)

interpretation service_run: stepping "service_act retries" "service_inv retries" for retries
  by unfold_locales (rule service_act_inv)

subsection \<open>The service over its whole life\<close>

text \<open>A ledger in which every recovery has its outage, as the dispatcher keeps it; an empty one is such.\<close>

definition ledger_paired :: "registry \<Rightarrow> bool" where
  "ledger_paired db \<longleftrightarrow> (\<forall>s i c. up_key s i c \<in> set (ledger_keys db) \<longrightarrow> down_key s i c \<in> set (ledger_keys db))"

lemma service_start_inv:
  assumes "server_inv s" "histories (srv_Stores s)" "ledger_paired (srv_Reg s)"
  shows "service_inv retries (service_of s (start_process opts db sites))"
proof -
  have "distinct (ledger_keys (srv_Reg s))" using assms(1) by (simp add: server_inv_def reg_inv_def unique_by_def)
  with assms(3) have "disp_inv retries (dispatcher_of (service_of s (start_process opts db sites)))"
    by (simp add: disp_inv_def dispatcher_of_def service_of_def calls_for_def ledger_paired_def)
  moreover have "0 \<le> op_QueueSize (with_defaults opts)" by (simp add: with_defaults_def Let_def)
  ultimately show ?thesis
    using assms(1,2) by (simp add: service_inv_def service_of_def start_process_def new_dispatcher_def queue_bounded_def
        new_queue_def Let_def)
qed

lemma open_incident_of_history:
  "map in_id (filter (\<lambda>r. in_resolved_at r = None) (db_incidents (history_db now ts))) =
     (case ss_current_incident_id (db_state (history_db now ts)) of None \<Rightarrow> [] | Some i \<Rightarrow> [i])"
  by (simp add: history_db_def open_rows_history open_incident_def)


text \<open>
  An outage from the tick to the mail, then a delete while the next tick is under way: the tick
  finds its store closed, and nothing is left of the loop.
\<close>

definition busy_registry :: registry where
  "busy_registry = (example_registry 1)\<lparr>rg_Sites := [example_site]\<rparr>"

definition busy_server :: server where
  "busy_server = new_server busy_registry (new_manager Map.empty) (start_all [example_site] new_scheduler) ''k'' []"

definition unreachable_network :: network where
  "unreachable_network = \<lparr>nw_Now = 60, nw_NowNs = 60000000000, nw_Lookup = (\<lambda>_. None),
     nw_Do = (\<lambda>_. (Request_failed ''connection refused'', 5)), nw_ParseError = []\<rparr>"

definition busy_day :: "act list" where
  "busy_day = [Open_store 0 (\<lambda>_. False) 0, Begin_check 0, End_check 0 unreachable_network True (\<lambda>_. False) 60, Take_event 0,
     Begin_check 0, Handle_event 0 (quiet 0), Serve_request demo_env (demo_delete\<lparr>rq_Query := [(''purge'', ''true'')]\<rparr>),
     End_check 0 unreachable_network True (\<lambda>_. False) 120, Leave_loop 0]"

lemma busy_server_inv: "server_inv busy_server" "histories (srv_Stores busy_server)" "ledger_paired (srv_Reg busy_server)"
proof -
  have "reg_inv busy_registry \<and> config_ok busy_registry" by code_simp
  moreover have "registry_list busy_registry = [example_site]" by code_simp
  moreover have "reg_inv busy_registry \<Longrightarrow> running (start_all (registry_list busy_registry) new_scheduler) = enabled_sites busy_registry"
    by (rule running_at_start)
  ultimately show "server_inv busy_server"
    by (simp add: server_inv_def busy_server_def new_server_def start_all_inv sched_inv_new stores_inv_def new_manager_def)
  show "histories (srv_Stores busy_server)" "ledger_paired (srv_Reg busy_server)"
    by (simp_all add: histories_def ledger_paired_def busy_server_def busy_registry_def new_server_def new_manager_def
        example_registry_def empty_registry_def)
qed


end
