(* ===== verification/Spec2Isabelle.thy ===== *)
theory Spec2Isabelle
  imports SiteSeries Pipeline Migrate Races Edge Process Fetch Service
begin

text \<open>
  Verification of \<^verbatim>\<open>uptime-monitor-api\<close>, a Go service that checks web sites at intervals, keeps the
  results, raises alerts by mail and serves an HTTP API with an admin login.

  \<^bold>\<open>The program.\<close>  \<^verbatim>\<open>cmd/monitor\<close> opens the registry database, seeds it, and starts the parts below.
  The scheduler (\<^verbatim>\<open>internal/scheduler\<close>) runs one goroutine per enabled site; each tick asks the
  checker (\<^verbatim>\<open>internal/checker\<close>) for a verdict and records it in the site's own SQLite file
  (\<^verbatim>\<open>internal/storage\<close>: tick, site, query, series).  The transition that \<^verbatim>\<open>RecordTick\<close> returns goes
  through a hook into the bounded queue of the dispatcher (\<^verbatim>\<open>internal/alerts\<close>), whose workers match
  it with the rules of the registry, claim a dedupe key in the delivery ledger, and send mail.
  The API (\<^verbatim>\<open>internal/api\<close>) reads the site files, changes the registry, and starts and stops
  loops; \<^verbatim>\<open>internal/auth\<close> holds its credentials and its login throttle.

  \<^bold>\<open>State and operations.\<close>  Each mutable object of the program is a record, each method a function on
  it; a method that can fail returns a sum or an optional error.  A database statement, a file
  operation or the mail transport fails when a predicate of the environment says so, so a
  theorem without a hypothesis on that predicate covers every failure at every statement.

  \<^item> \<^verbatim>\<open>Prelude\<close>, \<^verbatim>\<open>Table\<close>: byte strings, decimal numerals, \<^verbatim>\<open>int64\<close>; tables as lists of rows with the
    row ids of SQLite; the contracts \<^verbatim>\<open>stepping\<close> (an invariant along a run), \<^verbatim>\<open>unique_table\<close> and
    \<^verbatim>\<open>keyed_table\<close> (what a lookup returns after an insert or a removal).
  \<^item> \<^verbatim>\<open>Url\<close>, \<^verbatim>\<open>Config\<close>: \<^verbatim>\<open>url.Parse\<close> and the site configuration of \<^verbatim>\<open>config.go\<close> with \<^verbatim>\<open>ApplyDefaults\<close>,
    \<^verbatim>\<open>Validate\<close> and \<^verbatim>\<open>Slugify\<close>.
  \<^item> \<^verbatim>\<open>SiteStore\<close>, \<^verbatim>\<open>Outages\<close>: \<^verbatim>\<open>RecordTick\<close> statement by statement (\<^verbatim>\<open>tick.go\<close>), and the history of
    committed ticks as its abstract specification: the outages are its maximal failing runs.
  \<^item> \<^verbatim>\<open>SiteQuery\<close>, \<^verbatim>\<open>SiteSeries\<close>, \<^verbatim>\<open>Stores\<close>: the queries of \<^verbatim>\<open>query.go\<close> and \<^verbatim>\<open>series.go\<close>, the open-file cache
    of \<^verbatim>\<open>manager.go\<close> and the dashboard of \<^verbatim>\<open>overview.go\<close>.
  \<^item> \<^verbatim>\<open>RegistryDb\<close>, \<^verbatim>\<open>RegistryLaws\<close>: sites, accounts, sessions, channels, rules and the ledger
    (\<^verbatim>\<open>registry.go\<close>, \<^verbatim>\<open>admin.go\<close>, \<^verbatim>\<open>session.go\<close>, \<^verbatim>\<open>storage/alerts.go\<close>), with the constraints of the schema as the
    invariant \<^verbatim>\<open>reg_inv\<close>.
  \<^item> \<^verbatim>\<open>Migrate\<close>, \<^verbatim>\<open>Rows\<close>, \<^verbatim>\<open>Sqlite\<close>: the schema histories and \<^verbatim>\<open>applyMigrations\<close> (\<^verbatim>\<open>migrate.go\<close>), the rows that each
    INSERT writes and each scan reads, and the error codes of the driver (\<^verbatim>\<open>sqlite.go\<close>).
  \<^item> \<^verbatim>\<open>Contents\<close>, \<^verbatim>\<open>DataDir\<close>: \<^verbatim>\<open>openSiteStore\<close> and \<^verbatim>\<open>RecordTick\<close> on the tables of a file, what the program scans
    from a file, and \<^verbatim>\<open>Manager\<close> on the data directory.  They justify the records and maps of the other
    theories against the files they stand for; the one site id where they differ is \<^verbatim>\<open>registry\<close>.
  \<^item> \<^verbatim>\<open>NetAddr\<close>, \<^verbatim>\<open>Checker\<close>, \<^verbatim>\<open>Fetch\<close>: the verdict of a tick, the guard on dialled addresses, and the HTTP client
    as far as \<^verbatim>\<open>NewRunner\<close> configures it (\<^verbatim>\<open>checker.go\<close>).
  \<^item> \<^verbatim>\<open>Scheduler\<close>: \<^verbatim>\<open>Manager\<close> as a step relation over its loops, and one tick of a loop.
  \<^item> \<^verbatim>\<open>Dispatch\<close>, \<^verbatim>\<open>DispatchLaws\<close>, \<^verbatim>\<open>Smtp\<close>: rendering, claiming, retrying, the queue (\<^verbatim>\<open>alerts/alerts.go\<close>), and
    the mail dialogue (\<^verbatim>\<open>smtp.go\<close>).
  \<^item> \<^verbatim>\<open>Pipeline\<close>, \<^verbatim>\<open>Process\<close>: the path of an outage from the tick to the mail, and the whole process with its
    loops, workers and shutdown in any interleaving (\<^verbatim>\<open>main.go: run\<close>).
  \<^item> \<^verbatim>\<open>Auth\<close>, \<^verbatim>\<open>Limiter\<close>: passwords, tokens, and the login throttle.
  \<^item> \<^verbatim>\<open>Request\<close>, \<^verbatim>\<open>Server\<close>, \<^verbatim>\<open>Api\<close>: what handlers read of a request, the record \<^verbatim>\<open>server\<close>, one definition per
    handler, and \<^verbatim>\<open>serve\<close>, which is \<^verbatim>\<open>Handler\<close> with both mounts, CORS, the gates and the routes.
  \<^item> \<^verbatim>\<open>Access\<close>, \<^verbatim>\<open>ServerInv\<close>, \<^verbatim>\<open>Frames\<close>, \<^verbatim>\<open>Accounts\<close>, \<^verbatim>\<open>SiteLife\<close>, \<^verbatim>\<open>Edge\<close>: the properties of \<^verbatim>\<open>serve\<close>: who reaches a
    handler, the agreement of registry, files and loops, what each group of endpoints leaves alone,
    logins and sessions, the site endpoints as operations on a map, and what every answer
    respects.
  \<^item> \<^verbatim>\<open>Startup\<close>, \<^verbatim>\<open>Command\<close>: the seed file, \<^verbatim>\<open>-set-password\<close> and the service that \<^verbatim>\<open>run\<close> builds on an open
    registry; the command line, reading a password, and \<^verbatim>\<open>run\<close> from the data directory on
    (\<^verbatim>\<open>main.go\<close>, \<^verbatim>\<open>adminuser.go\<close>).
  \<^item> \<^verbatim>\<open>Service\<close>, \<^verbatim>\<open>Races\<close>: requests, ticks and workers in any order over one registry and one set of files; and
    two handlers interleaved at their calls.

  \<^bold>\<open>What the lemmas show.\<close>  Refinement: the tables of a site file are its
  records, the records its history, the data directory a map of sites, the dispatcher announces the
  outages of the history, the scheduler is a map of running configurations, the site endpoints are a map
  of sites, the ledger is the unique index of its table.  Invariants: one open incident, one live loop per
  site, the schema, the contents of a file under upgrades, the agreement of registry and scheduler
  from the start on and while everything acts at once.  Safety and
  error behaviour: atomic ticks, alerts sent at most once, access that fails closed, migrations
  that resume, starts that resume after crashes or refuse to run open, mail that is encrypted.  Bounds and termination:
  login guesses, retries, durations, redirects, workers that end.  Where the program does not do what
  its comments say, a theorem or lemma shows the behaviour it has: among them recoveries lost with
  \<^verbatim>\<open>confirm_after\<close> of two, loops orphaned by racing requests, a recovery lost between two
  workers, outages lost when the listener fails, and a site named Registry whose purge removes the
  registry.

  \<^bold>\<open>Bounds and scope.\<close>  Strings are bytes, and case folding and white space are those of ASCII.  A float64 is
  an exact rational.  Integers are unbounded except where the source can overflow, and there the
  wrap-around of \<^verbatim>\<open>int64\<close> is written out.  URL parsing and route matching are those of Go 1.22.  A JSON body
  is its parsed value.  The clock is read once per request and per tick step.  Loops over data
  are structural recursions; the retry loop counts attempts, \<^verbatim>\<open>client_do\<close> ends by its ten redirects, and
  no definition needs fuel.  Handlers are atomic in \<^verbatim>\<open>serve\<close> and \<^verbatim>\<open>Service\<close>; \<^verbatim>\<open>Races\<close> and \<^verbatim>\<open>Process\<close> take them apart.  Requests in
  flight are taken to end within the ten seconds the shutdown grants them.

  \<^bold>\<open>Parameters.\<close>  bcrypt, SHA-256, the random source, \<^verbatim>\<open>mail.ParseAddress\<close>, the mail server, the DNS, the
  network and the text of \<^verbatim>\<open>encoding/json\<close> are arguments of the definitions that use them; a property that
  relies on their documented behaviour names it as a hypothesis.

  \<^bold>\<open>Not modelled.\<close>  The syntax of flags (\<^verbatim>\<open>main_opts\<close> takes their values), the echo of the terminal, the
  listener with its timeouts, the connection string and the pool of the driver, and logging: they are
  calls into the standard library or the driver without a decision of this program.  The SQL engine is
  modelled by the statements the source issues, not by a parser of SQL.  A registry with a row that its
  scanner refuses has no record, and \<^verbatim>\<open>run\<close> stops at it as \<^verbatim>\<open>Unscannable\<close>.  The statements of the registry are
  checked against its tables row by row (\<^verbatim>\<open>Rows\<close>, \<^verbatim>\<open>Sqlite\<close>), those of a site file as whole transactions (\<^verbatim>\<open>Contents\<close>).
\<close>

end
